(* ===== verification/Prelude.thy ===== *)
theory Prelude
  imports Main "HOL-Library.Signed_Division" "HOL-Library.Char_ord" "HOL-Library.List_Lexorder"
begin

section \<open>Prelude: the part of the JavaScript standard library the models share\<close>

text \<open>
  The program is TypeScript.  What every component uses of the language is modelled here once.

  \<^item> \<open>bigint\<close> is \<open>int\<close>; its division truncates toward zero, which is \<open>sdiv\<close> / \<open>smod\<close> of
    the library theory Signed_Division.  Integer-valued \<open>number\<close>s that stay far below
    \<open>2 ^ 53\<close> (lengths, months, years, day numbers) are \<open>int\<close> or \<open>nat\<close>.
  \<^item> A string is a list of code units.  Isabelle characters are 8 bits wide, so the models
    speak about the strings whose code units are below 256 (Latin-1).
  \<^item> A finite \<open>number\<close> is represented by the text \<open>String(value)\<close>, its shortest round-trip
    form: the code modelled here reads numbers only through that text.
  \<^item> A throw is the left value of a sum.
\<close>

named_theorems result_simps \<open>unfolding rules of the result type\<close>
named_theorems text_simps \<open>rules on strings and digits\<close>

subsection \<open>Results: a value or a throw\<close>

definition rbind :: "'e + 'a \<Rightarrow> ('a \<Rightarrow> 'e + 'b) \<Rightarrow> 'e + 'b" where
  "rbind r f = (case r of Inl e \<Rightarrow> Inl e | Inr a \<Rightarrow> f a)"

definition rguard :: "bool \<Rightarrow> 'e \<Rightarrow> 'e + 'a \<Rightarrow> 'e + 'a" where
  "rguard bad e r = (if bad then Inl e else r)"

definition rcatch :: "('e \<Rightarrow> 'f) \<Rightarrow> 'e + 'a \<Rightarrow> 'f + 'a" where
  "rcatch h r = (case r of Inl e \<Rightarrow> Inl (h e) | Inr a \<Rightarrow> Inr a)"

text \<open>\<open>xs.map(f)\<close> where \<open>f\<close> may throw: the first throw wins, in list order.\<close>

fun rmap :: "('a \<Rightarrow> 'e + 'b) \<Rightarrow> 'a list \<Rightarrow> 'e + 'b list" where
  "rmap f [] = Inr []"
| "rmap f (x # xs) = rbind (f x) (\<lambda>y. rbind (rmap f xs) (\<lambda>ys. Inr (y # ys)))"

lemma rbind_Inl [simp]: "rbind (Inl e) f = Inl e"
  by (simp add: rbind_def)

lemma rbind_Inr [simp]: "rbind (Inr a) f = f a"
  by (simp add: rbind_def)

lemma rbind_eq_Inr [result_simps]: "rbind r f = Inr b \<longleftrightarrow> (\<exists>a. r = Inr a \<and> f a = Inr b)"
  by (cases r) simp_all

lemma rguard_eq_Inr [result_simps]: "rguard bad e r = Inr b \<longleftrightarrow> \<not> bad \<and> r = Inr b"
  by (simp add: rguard_def)

lemma rguard_False [simp]: "rguard False e r = r"
  by (simp add: rguard_def)

lemma rguard_True [simp]: "rguard True e r = Inl e"
  by (simp add: rguard_def)

lemma rcatch_Inr [simp]: "rcatch h (Inr a) = Inr a"
  by (simp add: rcatch_def)

lemma rcatch_Inl [simp]: "rcatch h (Inl e) = Inl (h e)"
  by (simp add: rcatch_def)

lemma rcatch_eq_Inr [result_simps]: "rcatch h r = Inr b \<longleftrightarrow> r = Inr b"
  by (cases r) simp_all

lemma rmap_eq_Inr: "rmap f xs = Inr ys \<longleftrightarrow> list_all2 (\<lambda>x y. f x = Inr y) xs ys"
proof (induction xs arbitrary: ys)
  case Nil
  then show ?case by auto
next
  case (Cons x xs)
  then show ?case by (cases ys) (auto simp: result_simps)
qed

lemma rmap_length: "rmap f xs = Inr ys \<Longrightarrow> length ys = length xs"
  by (simp add: rmap_eq_Inr list_all2_lengthD)

lemma rmap_nth: "rmap f xs = Inr ys \<Longrightarrow> i < length xs \<Longrightarrow> f (xs ! i) = Inr (ys ! i)"
  unfolding rmap_eq_Inr by (drule (1) list_all2_nthD)

lemma rmap_total: "(\<And>x. x \<in> set xs \<Longrightarrow> f x = Inr (g x)) \<Longrightarrow> rmap f xs = Inr (map g xs)"
  by (induction xs) auto

text \<open>A result that is a value, or the one throw \<open>e\<close>.\<close>

definition inr_or :: "'e \<Rightarrow> 'e + 'a \<Rightarrow> bool" where
  "inr_or e r \<longleftrightarrow> (\<exists>a. r = Inr a) \<or> r = Inl e"

lemma inr_or_Inr [simp, intro]: "inr_or e (Inr a)"
  by (simp add: inr_or_def)

lemma inr_or_rbind: "inr_or e r \<Longrightarrow> (\<And>a. r = Inr a \<Longrightarrow> inr_or e (f a)) \<Longrightarrow> inr_or e (rbind r f)"
  by (cases r) (auto simp: inr_or_def)

lemma inr_or_rmap: "(\<And>x. x \<in> set xs \<Longrightarrow> inr_or e (f x)) \<Longrightarrow> inr_or e (rmap f xs)"
  by (induction xs) (auto intro!: inr_or_rbind)

lemma rmap_Inr_ex: "(\<And>x. x \<in> set xs \<Longrightarrow> \<exists>y. f x = Inr y) \<Longrightarrow> \<exists>ys. rmap f xs = Inr ys"
  by (induction xs) (auto, fastforce)

subsection \<open>Values of unknown type\<close>

text \<open>
  A request body is \<open>unknown\<close>.  \<open>JUndef\<close> is \<open>undefined\<close> (also what a missing property
  reads as); an object is its own enumerable properties in the order \<open>Object.entries\<close> lists them.
\<close>

datatype jsnum = JFin string | JNaN | JInf bool

datatype jsval =
    JUndef
  | JNull
  | JBool bool
  | JNum jsnum
  | JStr string
  | JArr "jsval list"
  | JObj "(string \<times> jsval) list"

definition obj_get :: "(string \<times> jsval) list \<Rightarrow> string \<Rightarrow> jsval" where
  "obj_get kvs k = (case map_of kvs k of None \<Rightarrow> JUndef | Some v \<Rightarrow> v)"

text \<open>\<open>String(value)\<close> of a number.\<close>

fun num_text :: "jsnum \<Rightarrow> string" where
  "num_text (JFin t) = t"
| "num_text JNaN = ''NaN''"
| "num_text (JInf neg) = (if neg then ''-Infinity'' else ''Infinity'')"

fun num_finite :: "jsnum \<Rightarrow> bool" where
  "num_finite (JFin t) = True"
| "num_finite _ = False"

text \<open>\<open>String(value)\<close> of any value; an array joins its elements, an object has no text of its own.\<close>

fun join :: "string \<Rightarrow> string list \<Rightarrow> string" where
  "join sep [] = []"
| "join sep [s] = s"
| "join sep (s # t # ts) = s @ sep @ join sep (t # ts)"

fun js_string :: "jsval \<Rightarrow> string" where
  "js_string JUndef = ''undefined''"
| "js_string JNull = ''null''"
| "js_string (JBool b) = (if b then ''true'' else ''false'')"
| "js_string (JNum n) = num_text n"
| "js_string (JStr s) = s"
| "js_string (JArr vs) = join '','' (map (\<lambda>v. if v = JUndef \<or> v = JNull then [] else js_string v) vs)"
| "js_string (JObj kvs) = ''[object Object]''"

subsection \<open>Strings\<close>

text \<open>The white space of \<open>trim\<close> and of \<open>\s\<close>: TAB, LF, VT, FF, CR, space, no-break space.\<close>

definition js_space :: "char \<Rightarrow> bool" where
  "js_space c \<longleftrightarrow> c = CHR 0x09 \<or> c = CHR 0x0A \<or> c = CHR 0x0B \<or> c = CHR 0x0C \<or> c = CHR 0x0D
     \<or> c = CHR 0x20 \<or> c = CHR 0xA0"

text \<open>A text between single quotes, in messages.\<close>

definition quoted :: "string \<Rightarrow> string" where
  "quoted s = [CHR 0x27] @ s @ [CHR 0x27]"

definition js_trim :: "string \<Rightarrow> string" where
  "js_trim s = rev (dropWhile js_space (rev (dropWhile js_space s)))"

definition is_digit :: "char \<Rightarrow> bool" where
  "is_digit c \<longleftrightarrow> 48 \<le> (of_char c :: nat) \<and> (of_char c :: nat) \<le> 57"

definition all_digits :: "string \<Rightarrow> bool" where
  "all_digits s \<longleftrightarrow> list_all is_digit s"

definition digit_val :: "char \<Rightarrow> nat" where
  "digit_val c = of_char c - 48"

definition digit_char :: "nat \<Rightarrow> char" where
  "digit_char d = char_of (48 + d)"

definition nat_of_digits :: "string \<Rightarrow> nat" where
  "nat_of_digits s = foldl (\<lambda>n c. 10 * n + digit_val c) 0 s"

fun show_nat :: "nat \<Rightarrow> string" where
  "show_nat n = (if n < 10 then [digit_char n] else show_nat (n div 10) @ [digit_char (n mod 10)])"

declare show_nat.simps [simp del]

definition show_int :: "int \<Rightarrow> string" where
  "show_int i = (if i < 0 then CHR ''-'' # show_nat (nat (- i)) else show_nat (nat i))"

definition pad_start :: "nat \<Rightarrow> char \<Rightarrow> string \<Rightarrow> string" where
  "pad_start n c s = replicate (n - length s) c @ s"

definition starts_with :: "string \<Rightarrow> string \<Rightarrow> bool" where
  "starts_with p s \<longleftrightarrow> take (length p) s = p"

text \<open>\<open>toLowerCase\<close> on Latin-1: the ASCII capitals and the accented capitals but the multiplication sign.\<close>

definition js_lower_char :: "char \<Rightarrow> char" where
  "js_lower_char c = (let n = (of_char c :: nat) in
     if 65 \<le> n \<and> n \<le> 90 \<or> 192 \<le> n \<and> n \<le> 222 \<and> n \<noteq> 215 then char_of (n + 32) else c)"

definition js_lower :: "string \<Rightarrow> string" where
  "js_lower s = map js_lower_char s"

text \<open>\<open>toUpperCase\<close> on the letters whose capital is a single Latin-1 letter.\<close>

definition upper_char :: "char \<Rightarrow> char" where
  "upper_char c = (let n = (of_char c :: nat) in if 97 \<le> n \<and> n \<le> 122 \<or> 224 \<le> n \<and> n \<le> 254 \<and> n \<noteq> 247 then char_of (n - 32) else c)"

text \<open>\<open>s.includes(p)\<close>.\<close>

fun js_includes :: "string \<Rightarrow> string \<Rightarrow> bool" where
  "js_includes [] p = (p = [])"
| "js_includes (c # s) p = (starts_with p (c # s) \<or> js_includes s p)"

text \<open>\<open>s.replace(/0+$/, '')\<close>.\<close>

definition strip_trailing_zeros :: "string \<Rightarrow> string" where
  "strip_trailing_zeros s = rev (dropWhile (\<lambda>c. c = CHR ''0'') (rev s))"

subsection \<open>Lemmas on digits\<close>

lemma is_digit_char [simp]: "d < 10 \<Longrightarrow> is_digit (digit_char d)"
  by (simp add: is_digit_def digit_char_def)

lemma digit_val_char [simp]: "d < 10 \<Longrightarrow> digit_val (digit_char d) = d"
  by (simp add: digit_val_def digit_char_def)

lemma digit_char_val [simp]: "is_digit c \<Longrightarrow> digit_char (digit_val c) = c"
  by (simp add: digit_val_def digit_char_def is_digit_def)

lemma digit_val_lt [simp]: "is_digit c \<Longrightarrow> digit_val c < 10"
  unfolding digit_val_def is_digit_def by arith

lemma all_digits_append [simp]: "all_digits (s @ t) \<longleftrightarrow> all_digits s \<and> all_digits t"
  by (simp add: all_digits_def)

lemma all_digits_Cons [simp]: "all_digits (c # t) \<longleftrightarrow> is_digit c \<and> all_digits t"
  by (simp add: all_digits_def)

lemma all_digits_Nil [simp]: "all_digits []"
  by (simp add: all_digits_def)

lemma show_nat_digits [simp]: "all_digits (show_nat n)"
proof (induction n rule: show_nat.induct)
  case (1 n)
  then show ?case by (subst show_nat.simps) simp
qed

lemma show_nat_nonempty [simp]: "show_nat n \<noteq> []"
  by (subst show_nat.simps) simp

lemma nat_of_digits_Nil [simp]: "nat_of_digits [] = 0"
  by (simp add: nat_of_digits_def)

lemma nat_of_digits_snoc [simp]: "nat_of_digits (s @ [c]) = 10 * nat_of_digits s + digit_val c"
  by (simp add: nat_of_digits_def)

lemma nat_of_digits_append: "nat_of_digits (s @ t) = nat_of_digits s * 10 ^ length t + nat_of_digits t"
proof (induction t rule: rev_induct)
  case (snoc c t)
  then show ?case by (simp add: algebra_simps flip: append_assoc)
qed simp

lemma nat_of_digits_show [simp]: "nat_of_digits (show_nat n) = n"
proof (induction n rule: show_nat.induct)
  case (1 n)
  then show ?case
    by (subst show_nat.simps) (simp add: nat_of_digits_def)
qed

lemma nat_of_digits_zeros [simp]: "nat_of_digits (replicate k (CHR ''0'')) = 0"
  by (induction k) (simp_all add: digit_val_def flip: replicate_append_same)

lemma nat_of_digits_pad [simp]: "nat_of_digits (pad_start k (CHR ''0'') s) = nat_of_digits s"
  by (simp add: pad_start_def nat_of_digits_append)

lemma nat_of_digits_less: "all_digits s \<Longrightarrow> nat_of_digits s < 10 ^ length s"
proof (induction s rule: rev_induct)
  case (snoc c s)
  then have "nat_of_digits s + 1 \<le> 10 ^ length s" and "digit_val c < 10" by simp_all
  then show ?case by simp
qed simp

lemma show_nat_length_le: "n < 10 ^ k \<Longrightarrow> 0 < k \<Longrightarrow> length (show_nat n) \<le> k"
proof (induction n arbitrary: k rule: show_nat.induct)
  case (1 n)
  show ?case
  proof (cases "n < 10")
    case True
    with 1(3) show ?thesis by (subst show_nat.simps) simp
  next
    case False
    from 1(3) obtain j where k: "k = Suc j" by (cases k) auto
    with 1(2) False have "j \<noteq> 0" by (cases j) auto
    with k have j: "k = Suc j" "0 < j" by simp_all
    with 1(2) have "n div 10 < 10 ^ j" by (simp add: less_mult_imp_div_less mult.commute)
    with 1(1) False j have "length (show_nat (n div 10)) \<le> j" by simp
    with False j show ?thesis by (subst show_nat.simps) simp
  qed
qed

subsection \<open>Lemmas on padding and stripping\<close>

lemma strip_trailing_zeros_snoc [simp]: 
  "strip_trailing_zeros (s @ [c]) = (if c = CHR ''0'' then strip_trailing_zeros s else s @ [c])"
  by (simp add: strip_trailing_zeros_def)

lemma strip_trailing_zeros_Nil [simp]: "strip_trailing_zeros [] = []"
  by (simp add: strip_trailing_zeros_def)

lemma strip_trailing_zeros_length: "length (strip_trailing_zeros s) \<le> length s"
  by (induction s rule: rev_induct) auto

lemma strip_trailing_zeros_append:
  "strip_trailing_zeros s @ replicate (length s - length (strip_trailing_zeros s)) (CHR ''0'') = s"
proof (induction s rule: rev_induct)
  case (snoc c s)
  show ?case
  proof (cases "c = CHR ''0''")
    case True
    let ?k = "length s - length (strip_trailing_zeros s)"
    have "strip_trailing_zeros s @ replicate (Suc ?k) (CHR ''0'') 
        = (strip_trailing_zeros s @ replicate ?k (CHR ''0'')) @ [CHR ''0'']"
      by (simp add: replicate_append_same)
    with True snoc strip_trailing_zeros_length [of s] show ?thesis
      by (simp add: Suc_diff_le)
  qed simp
qed simp

lemma strip_trailing_zeros_digits: "all_digits s \<Longrightarrow> all_digits (strip_trailing_zeros s)"
  by (induction s rule: rev_induct) auto

lemma pad_start_digits [simp]: "all_digits s \<Longrightarrow> all_digits (pad_start n (CHR ''0'') s)"
  by (auto simp: pad_start_def all_digits_def list_all_iff is_digit_def)

lemma pad_start_length: "length (pad_start n c s) = max n (length s)"
  by (simp add: pad_start_def)

lemma all_digits_take [simp]: "all_digits s \<Longrightarrow> all_digits (take n s)"
  and all_digits_drop [simp]: "all_digits s \<Longrightarrow> all_digits (drop n s)"
  by (auto simp: all_digits_def list_all_iff dest: in_set_takeD in_set_dropD)

subsection \<open>Sums and updates by index\<close>

lemma foldl_plus: "foldl (+) a xs = a + sum_list (xs :: 'a :: comm_monoid_add list)"
  by (induction xs arbitrary: a) (simp_all add: ac_simps)

text \<open>\<open>vs.forEach((v, i) => { base[idx[i]] = f(v, base[idx[i]]) })\<close>, with every index in range.\<close>

fun scatter :: "('b \<Rightarrow> 'a \<Rightarrow> 'a) \<Rightarrow> nat list \<Rightarrow> 'b list \<Rightarrow> 'a list \<Rightarrow> 'a list" where
  "scatter f (i # is) (v # vs) base = scatter f is vs (base[i := f v (base ! i)])"
| "scatter f _ _ base = base"

lemma scatter_length [simp]: "length (scatter f is vs base) = length base"
  by (induction f "is" vs base rule: scatter.induct) simp_all

lemma scatter_nth:
  assumes "distinct is" "length vs = length is" "set is \<subseteq> {..<length base}"
  shows "scatter f is vs base ! k = (case map_of (zip is vs) k of None \<Rightarrow> base ! k | Some v \<Rightarrow> f v (base ! k))"
  using assms
proof (induction "is" vs arbitrary: base rule: list_induct2')
  case (4 i "is" v vs)
  have n: "map_of (zip is vs) i = None" using 4(2) by (auto simp: map_of_eq_None_iff dest: set_zip_leftD)
  have "scatter f is vs (base[i := f v (base ! i)]) ! k
      = (case map_of (zip is vs) k of None \<Rightarrow> base[i := f v (base ! i)] ! k | Some v' \<Rightarrow> f v' (base[i := f v (base ! i)] ! k))"
    using 4(2-4) by (intro 4(1)) simp_all
  with 4(4) n show ?case by (cases "k = i") (simp_all split: option.split)
qed simp_all

lemma scatter_map:
  assumes "\<And>v a. g (f v a) = h v (g a)" "set is \<subseteq> {..<length base}"
  shows "map g (scatter f is vs base) = scatter h is vs (map g base)"
  using assms(2)
  by (induction "is" vs arbitrary: base rule: list_induct2') (simp_all add: map_update assms(1))

lemma scatter_keep:
  assumes "\<And>v a. g (f v a) = g a" "set is \<subseteq> {..<length base}"
  shows "map g (scatter f is vs base) = map g base"
  using assms(2)
proof (induction "is" vs arbitrary: base rule: list_induct2')
  case (4 i "is" v vs)
  have "map g (base[i := f v (base ! i)]) = (map g base)[i := map g base ! i]"
    using 4(2) by (simp add: map_update assms(1))
  also have "\<dots> = map g base" by (rule list_update_id)
  finally show ?case using 4 by simp
qed simp_all

lemma sum_list_update_group:
  fixes xs :: "'a :: ab_group_add list"
  shows "j < length xs \<Longrightarrow> sum_list (xs[j := x]) = sum_list xs + x - xs ! j"
  by (induction xs arbitrary: j) (auto split: nat.split)

lemma scatter_sum:
  fixes base :: "'a :: ab_group_add list"
  assumes "distinct is" "length vs = length is" "set is \<subseteq> {..<length base}" "\<forall>i\<in>set is. base ! i = 0"
  shows "sum_list (scatter (\<lambda>v _. v) is vs base) = sum_list base + sum_list vs"
  using assms
proof (induction "is" vs arbitrary: base rule: list_induct2')
  case (4 i "is" v vs)
  have "base[i := v] ! k = 0" if "k \<in> set is" for k
    using 4(2,5) that by (cases "k = i") simp_all
  with 4 show ?case by (simp add: sum_list_update_group)
qed simp_all

subsection \<open>Lexicographic order of digit strings\<close>

lemma less_append_same_length:
  fixes a a' :: "'a :: linorder list"
  shows "length a = length a' \<Longrightarrow> (a @ b < a' @ b') \<longleftrightarrow> (a < a' \<or> a = a' \<and> b < b')"
  by (induction a a' rule: list_induct2) auto

lemma le_append_same_length:
  fixes a a' :: "'a :: linorder list"
  shows "length a = length a' \<Longrightarrow> (a @ b \<le> a' @ b') \<longleftrightarrow> (a < a' \<or> a = a' \<and> b \<le> b')"
  by (induction a a' rule: list_induct2) auto

lemma nat_of_digits_Cons: "nat_of_digits (c # s) = digit_val c * 10 ^ length s + nat_of_digits s"
  using nat_of_digits_append [of "[c]" s] by (simp add: nat_of_digits_def)

lemma digits_less_iff:
  "length s = length t \<Longrightarrow> all_digits s \<Longrightarrow> all_digits t \<Longrightarrow> s < t \<longleftrightarrow> nat_of_digits s < nat_of_digits t"
proof (induction s t rule: list_induct2)
  case (Cons c s d t)
  have cd: "is_digit c" "is_digit d" using Cons.prems by simp_all
  then have "c < d \<longleftrightarrow> digit_val c < digit_val d"
    unfolding digit_val_def is_digit_def less_char_def by linarith
  moreover have "c = d \<longleftrightarrow> digit_val c = digit_val d" using cd digit_char_val by metis
  ultimately have v: "c < d \<longleftrightarrow> digit_val c < digit_val d" "c = d \<longleftrightarrow> digit_val c = digit_val d" by blast+
  have b: "nat_of_digits s < 10 ^ length t" "nat_of_digits t < 10 ^ length t"
    using Cons nat_of_digits_less [of s] nat_of_digits_less [of t] by simp_all
  have lt: "x * 10 ^ length t + m < y * 10 ^ length t + n"
    if "x < y" "m < 10 ^ length t" for x y m n :: nat
  proof -
    have "(x + 1) * 10 ^ length t \<le> y * 10 ^ length t" using that(1) by (intro mult_right_mono) simp_all
    with that(2) show ?thesis by simp
  qed
  have IH: "s < t \<longleftrightarrow> nat_of_digits s < nat_of_digits t" using Cons by simp
  have "c # s < d # t \<longleftrightarrow> digit_val c < digit_val d \<or> digit_val c = digit_val d \<and> nat_of_digits s < nat_of_digits t"
    by (simp only: Cons_less_Cons v IH)
  also have "\<dots> \<longleftrightarrow> nat_of_digits (c # s) < nat_of_digits (d # t)"
  proof (cases "digit_val c" "digit_val d" rule: linorder_cases)
    case less
    with lt [OF less b(1)] show ?thesis by (simp add: nat_of_digits_Cons Cons.hyps)
  next
    case greater
    from lt [OF greater b(2)] have "nat_of_digits (d # t) < nat_of_digits (c # s)"
      by (simp add: nat_of_digits_Cons Cons.hyps)
    with greater show ?thesis by simp
  qed (simp add: nat_of_digits_Cons Cons.hyps)
  finally show ?case .
qed simp

lemma digits_eq_iff:
  "length s = length t \<Longrightarrow> all_digits s \<Longrightarrow> all_digits t \<Longrightarrow> s = t \<longleftrightarrow> nat_of_digits s = nat_of_digits t"
  using digits_less_iff [of s t] digits_less_iff [of t s] by (metis linorder_less_linear nat_neq_iff)

lemma pad_show_length: "n < 10 ^ k \<Longrightarrow> 0 < k \<Longrightarrow> length (pad_start k (CHR ''0'') (show_nat n)) = k"
  by (simp add: pad_start_length show_nat_length_le max_absorb1)

lemma show_nat_length_ge: "10 ^ k \<le> n \<Longrightarrow> k < length (show_nat n)"
proof (rule ccontr)
  assume "10 ^ k \<le> n" "\<not> k < length (show_nat n)"
  then have "n < 10 ^ length (show_nat n)" using nat_of_digits_less [of "show_nat n"] by simp
  also have "\<dots> \<le> 10 ^ k" using \<open>\<not> k < length (show_nat n)\<close> by (intro power_increasing) simp_all
  finally show False using \<open>10 ^ k \<le> n\<close> by simp
qed

lemma pad_show_exact: "10 ^ k \<le> n \<Longrightarrow> n < 10 ^ Suc k \<Longrightarrow> pad_start (Suc k) (CHR ''0'') (show_nat n) = show_nat n"
  using show_nat_length_ge [of k n] show_nat_length_le [of n "Suc k"] by (simp add: pad_start_def)

subsection \<open>Trimmed texts, separators, searches\<close>

lemma js_trim_ends:
  assumes "s = [] \<or> \<not> js_space (hd s) \<and> \<not> js_space (last s)"
  shows "js_trim s = s"
proof (cases s)
  case (Cons c r)
  with assms have "dropWhile js_space s = s" by simp
  moreover obtain d u where d: "rev s = d # u" using Cons by (cases "rev s") auto
  then have "d = last s" using hd_rev [of s] by simp
  with assms Cons d have "dropWhile js_space (rev s) = rev s" by simp
  ultimately show ?thesis by (simp add: js_trim_def)
qed (simp add: js_trim_def)

lemma js_trim_result_ends: "js_trim s = [] \<or> \<not> js_space (hd (js_trim s)) \<and> \<not> js_space (last (js_trim s))"
proof -
  define t where "t = dropWhile js_space s"
  have t: "t = [] \<or> \<not> js_space (hd t)" by (metis hd_dropWhile t_def)
  define u where "u = dropWhile js_space (rev t)"
  have u: "u = [] \<or> \<not> js_space (hd u)" by (metis hd_dropWhile u_def)
  have e: "js_trim s = rev u" by (simp add: js_trim_def t_def u_def)
  show ?thesis
  proof (cases "u = []")
    case False
    have "rev t = takeWhile js_space (rev t) @ u" by (simp add: u_def)
    then have "last u = last (rev t)" using False by (metis last_append)
    also have "\<dots> = hd t" using False by (auto simp: last_rev u_def)
    finally have "last u = hd t" .
    moreover have "t \<noteq> []" using False by (auto simp: u_def)
    ultimately show ?thesis using t u False by (simp add: e hd_rev last_rev)
  qed (simp add: e)
qed

lemma js_trim_idem [simp]: "js_trim (js_trim s) = js_trim s"
  by (rule js_trim_ends [OF js_trim_result_ends])

lemma split_at_bar:
  assumes "CHR ''|'' \<notin> set a" "CHR ''|'' \<notin> set b" "a @ CHR ''|'' # s = b @ CHR ''|'' # t"
  shows "a = b \<and> s = t"
proof -
  have "takeWhile (\<lambda>c. c \<noteq> CHR ''|'') (a @ CHR ''|'' # s) = a"
    using assms(1) by (subst takeWhile_append2) auto
  moreover have "takeWhile (\<lambda>c. c \<noteq> CHR ''|'') (b @ CHR ''|'' # t) = b"
    using assms(2) by (subst takeWhile_append2) auto
  ultimately show ?thesis using assms(3) by auto
qed

lemma find_some: "List.find P xs = Some x \<Longrightarrow> x \<in> set xs \<and> P x"
  by (auto simp: find_Some_iff)

end
