(* ===== verification/Dates.thy ===== *)
theory Dates
  imports Prelude
begin

section \<open>UTC calendar days, as the ECMAScript \<open>Date\<close> object computes them\<close>

text \<open>
  The code builds dates with \<open>Date.UTC(year, month, day)\<close> and reads them back with
  \<open>getUTCFullYear\<close>, \<open>getUTCMonth\<close>, \<open>getUTCDate\<close> and \<open>getUTCDay\<close>.  A time value at midnight
  UTC is its day number (days since 1970-01-01).  The definitions are those of the language
  standard: \<open>DayFromYear\<close>, \<open>YearFromTime\<close>, \<open>MakeDay\<close> with the roll-over of months and days,
  and \<open>Date.UTC\<close> reading a year of 0 to 99 as 1900 to 1999.
\<close>

definition leap_year :: "int \<Rightarrow> bool" where
  "leap_year y \<longleftrightarrow> (y mod 4 = 0 \<and> y mod 100 \<noteq> 0) \<or> y mod 400 = 0"

definition day_from_year :: "int \<Rightarrow> int" where
  "day_from_year y = 365 * (y - 1970) + (y - 1969) div 4 - (y - 1901) div 100 + (y - 1601) div 400"

definition year_from_day :: "int \<Rightarrow> int" where
  "year_from_day t = (let c = 1970 + (400 * t) div 146097 in
     if day_from_year (c + 1) \<le> t then c + 1 else if day_from_year c \<le> t then c else c - 1)"

text \<open>Days of the year before the first of a month (1 to 13).\<close>

definition days_before :: "int \<Rightarrow> int \<Rightarrow> int" where
  "days_before y m =
     [0, 31, 59, 90, 120, 151, 181, 212, 243, 273, 304, 334, 365] ! nat (m - 1)
     + (if 2 < m \<and> leap_year y then 1 else 0)"

definition month_days :: "int \<Rightarrow> int \<Rightarrow> int" where
  "month_days y m = days_before y (m + 1) - days_before y m"

definition month_from_day :: "int \<Rightarrow> int" where
  "month_from_day t = (let y = year_from_day t in
     int (length (filter (\<lambda>m. days_before y m \<le> t - day_from_year y) [1, 2, 3, 4, 5, 6, 7, 8, 9, 10, 11, 12])))"

definition date_from_day :: "int \<Rightarrow> int" where
  "date_from_day t = (let y = year_from_day t in t - day_from_year y - days_before y (month_from_day t) + 1)"

definition week_day :: "int \<Rightarrow> int" where
  "week_day t = (t + 4) mod 7"

definition make_day :: "int \<Rightarrow> int \<Rightarrow> int \<Rightarrow> int" where
  "make_day y m0 d = (let ym = y + m0 div 12 in day_from_year ym + days_before ym (m0 mod 12 + 1) + d - 1)"

definition date_utc :: "int \<Rightarrow> int \<Rightarrow> int \<Rightarrow> int" where
  "date_utc y m0 d = make_day (if 0 \<le> y \<and> y \<le> 99 then 1900 + y else y) m0 d"

definition valid_date :: "int \<Rightarrow> int \<Rightarrow> int \<Rightarrow> bool" where
  "valid_date y m d \<longleftrightarrow> 1 \<le> m \<and> m \<le> 12 \<and> 1 \<le> d \<and> d \<le> month_days y m"

subsection \<open>Years\<close>

lemma div_bounds:
  fixes a n :: int
  assumes "0 < n"
  shows "n * (a div n) \<le> a" and "a < n * (a div n) + n"
  using assms mult_div_mod_eq [of n a] pos_mod_bound [of n a] pos_mod_sign [of n a] by linarith+

lemma div_succ:
  fixes a n :: int
  assumes "0 < n"
  shows "(a + 1) div n = a div n + (if (a + 1) mod n = 0 then 1 else 0)"
proof (cases "(a + 1) mod n = 0")
  case True
  have "a = n * ((a + 1) div n - 1) + (n - 1)"
    using True mult_div_mod_eq [of n "a + 1"] by (simp add: algebra_simps)
  then have "a div n = (a + 1) div n - 1"
    using assms by (intro int_div_pos_eq [where r = "n - 1"]) auto
  with True show ?thesis by simp
next
  case False
  have "a = n * ((a + 1) div n) + ((a + 1) mod n - 1)"
    using mult_div_mod_eq [of n "a + 1"] by (simp add: algebra_simps)
  then have "a div n = (a + 1) div n"
    using assms False pos_mod_bound [OF assms, of "a + 1"] pos_mod_sign [OF assms, of "a + 1"]
    by (intro int_div_pos_eq [where r = "(a + 1) mod n - 1"]) linarith+
  with False show ?thesis by simp
qed

lemma mod_multiple: "k mod n = 0 \<Longrightarrow> (y - k) mod n = y mod (n::int)"
  using mod_diff_right_eq [of y k n] by simp

lemma leap_day_from_year:
  "day_from_year (y + 1) = day_from_year y + (if leap_year y then 366 else 365)"
proof -
  have e: "y + 1 - 1969 = y - 1969 + 1" "y + 1 - 1901 = y - 1901 + 1" "y + 1 - 1601 = y - 1601 + 1"
    by simp_all
  have m: "(y - 1969 + 1) mod 4 = y mod 4" "(y - 1901 + 1) mod 100 = y mod 100" "(y - 1601 + 1) mod 400 = y mod 400"
    using mod_multiple [of 1968 4 y] mod_multiple [of 1900 100 y] mod_multiple [of 1600 400 y] by simp_all
  have step: "day_from_year (y + 1) = day_from_year y + 365 + (if y mod 4 = 0 then 1 else 0)
      - (if y mod 100 = 0 then 1 else 0) + (if y mod 400 = 0 then 1 else 0)"
    unfolding day_from_year_def e
      div_succ [of 4 "y - 1969", OF zero_less_numeral] div_succ [of 100 "y - 1901", OF zero_less_numeral]
      div_succ [of 400 "y - 1601", OF zero_less_numeral] m
    by (simp only: algebra_simps)
  moreover have "y mod 4 = 0" if "y mod 100 = 0" using that mod_mod_cancel [of 4 100 y] by simp
  moreover have "y mod 100 = 0" if "y mod 400 = 0" using that mod_mod_cancel [of 100 400 y] by simp
  ultimately show ?thesis
    unfolding leap_year_def by (cases "y mod 4 = 0"; cases "y mod 100 = 0"; cases "y mod 400 = 0") simp_all
qed

lemma day_from_year_bounds:
  "146097 * (y - 1970) - 1200 \<le> 400 * day_from_year y"
  "400 * day_from_year y \<le> 146097 * (y - 1970) + 1200"
proof -
  note b = div_bounds [of 4 "y - 1969", OF zero_less_numeral]
    div_bounds [of 100 "y - 1901", OF zero_less_numeral] div_bounds [of 400 "y - 1601", OF zero_less_numeral]
  show "146097 * (y - 1970) - 1200 \<le> 400 * day_from_year y"
    using b unfolding day_from_year_def by (simp add: algebra_simps)
  show "400 * day_from_year y \<le> 146097 * (y - 1970) + 1200"
    using b unfolding day_from_year_def by (simp add: algebra_simps)
qed

lemma year_from_day:
  "day_from_year (year_from_day t) \<le> t" "t < day_from_year (year_from_day t + 1)"
proof -
  define c where "c = 1970 + (400 * t) div 146097"
  have "146097 * ((400 * t) div 146097) \<le> 400 * t" "400 * t < 146097 * ((400 * t) div 146097) + 146097"
    using div_bounds [of 146097 "400 * t"] by simp_all
  then have t: "146097 * (c - 1970) \<le> 400 * t" "400 * t < 146097 * (c - 1969)"
    by (simp_all add: c_def algebra_simps)
  have lo: "day_from_year (c - 1) \<le> t"
    using day_from_year_bounds(2) [of "c - 1"] t(1) by (simp add: algebra_simps)
  have hi: "t < day_from_year (c + 2)"
    using day_from_year_bounds(1) [of "c + 2"] t(2) by (simp add: algebra_simps)
  have eq: "year_from_day t = (if day_from_year (c + 1) \<le> t then c + 1 else if day_from_year c \<le> t then c else c - 1)"
    by (simp add: year_from_day_def c_def Let_def)
  show "day_from_year (year_from_day t) \<le> t"
    using lo by (simp add: eq)
  show "t < day_from_year (year_from_day t + 1)"
    using hi by (auto simp: eq add.commute)
qed

lemma day_from_year_mono: "y \<le> y' \<Longrightarrow> day_from_year y \<le> day_from_year y'"
proof -
  assume "y \<le> y'"
  then obtain k where "y' = y + int k" using zle_iff_zadd by blast
  moreover have "day_from_year y \<le> day_from_year (y + int k)"
  proof (induction k)
    case (Suc k)
    then show ?case using leap_day_from_year [of "y + int k"] by (simp add: algebra_simps split: if_splits)
  qed simp
  ultimately show ?thesis by simp
qed

lemma year_from_day_unique: "day_from_year y \<le> t \<Longrightarrow> t < day_from_year (y + 1) \<Longrightarrow> year_from_day t = y"
  using year_from_day [of t] day_from_year_mono [of "year_from_day t + 1" y]
    day_from_year_mono [of "y + 1" "year_from_day t"]
  by linarith

subsection \<open>Months and days\<close>

lemma month_disj:
  "1 \<le> m \<Longrightarrow> m \<le> (12::int) \<Longrightarrow> m = 1 \<or> m = 2 \<or> m = 3 \<or> m = 4 \<or> m = 5 \<or> m = 6 \<or> m = 7 \<or> m = 8 \<or> m = 9
    \<or> m = 10 \<or> m = 11 \<or> m = 12"
  by arith

lemma days_before_simps [simp]:
  "days_before y 1 = 0" "days_before y 2 = 31" "days_before y 3 = 59 + (if leap_year y then 1 else 0)"
  "days_before y 4 = 90 + (if leap_year y then 1 else 0)" "days_before y 5 = 120 + (if leap_year y then 1 else 0)"
  "days_before y 6 = 151 + (if leap_year y then 1 else 0)" "days_before y 7 = 181 + (if leap_year y then 1 else 0)"
  "days_before y 8 = 212 + (if leap_year y then 1 else 0)" "days_before y 9 = 243 + (if leap_year y then 1 else 0)"
  "days_before y 10 = 273 + (if leap_year y then 1 else 0)" "days_before y 11 = 304 + (if leap_year y then 1 else 0)"
  "days_before y 12 = 334 + (if leap_year y then 1 else 0)" "days_before y 13 = 365 + (if leap_year y then 1 else 0)"
  by (simp_all add: days_before_def)

lemma month_days_range: "1 \<le> m \<Longrightarrow> m \<le> 12 \<Longrightarrow> 28 \<le> month_days y m \<and> month_days y m \<le> 31"
  by (drule (1) month_disj) (elim disjE; simp add: month_days_def)

lemma days_before_mono:
  assumes "1 \<le> i" "i \<le> j" "j \<le> 13"
  shows "days_before y i \<le> days_before y j"
proof -
  obtain k where "j = i + int k" using \<open>i \<le> j\<close> zle_iff_zadd by blast
  moreover have "i + int k \<le> 13 \<Longrightarrow> days_before y i \<le> days_before y (i + int k)"
  proof (induction k)
    case (Suc k)
    then show ?case
      using month_days_range [of "i + int k" y] \<open>1 \<le> i\<close> by (simp add: month_days_def algebra_simps)
  qed simp
  ultimately show ?thesis using \<open>j \<le> 13\<close> by simp
qed

lemma month_count:
  assumes "1 \<le> m" "m \<le> 12" "days_before y m \<le> k" "k < days_before y (m + 1)"
  shows "int (length (filter (\<lambda>i. days_before y i \<le> k) [1, 2, 3, 4, 5, 6, 7, 8, 9, 10, 11, 12])) = m"
proof -
  have iff: "days_before y i \<le> k \<longleftrightarrow> i \<le> m" if "i \<in> set [1, 2, 3, 4, 5, 6, 7, 8, 9, 10, 11, 12]" for i
    using that assms days_before_mono [of i m y] days_before_mono [of "m + 1" i y] by force
  have "filter (\<lambda>i. days_before y i \<le> k) [1, 2, 3, 4, 5, 6, 7, 8, 9, 10, 11, 12]
      = filter (\<lambda>i. i \<le> m) [1, 2, 3, 4, 5, 6, 7, 8, 9, 10, 11, 12]"
    by (rule filter_cong) (simp_all only: iff)
  then show ?thesis
    using month_disj [OF assms(1,2)] by (elim disjE; simp)
qed

lemma month_from_day_valid:
  "valid_date (year_from_day t) (month_from_day t) (date_from_day t)"
proof -
  define y where "y = year_from_day t"
  define d where "d = t - day_from_year y"
  have d: "0 \<le> d" "d < (if leap_year y then 366 else 365)"
    using year_from_day [of t] leap_day_from_year [of y] by (auto simp: d_def y_def split: if_splits)
  have m: "month_from_day t = int (length (filter (\<lambda>m. days_before y m \<le> d) [1, 2, 3, 4, 5, 6, 7, 8, 9, 10, 11, 12]))"
    by (simp add: month_from_day_def y_def d_def Let_def)
  have "valid_date y (month_from_day t) (d - days_before y (month_from_day t) + 1)"
  proof (cases "leap_year y")
    case True
    with d show ?thesis unfolding m valid_date_def month_days_def by simp
  next
    case False
    with d show ?thesis unfolding m valid_date_def month_days_def by simp
  qed
  then show ?thesis by (simp add: date_from_day_def d_def y_def Let_def)
qed

lemma make_day_in_year:
  "1 \<le> m \<Longrightarrow> m \<le> 12 \<Longrightarrow> make_day y (m - 1) d = day_from_year y + days_before y m + d - 1"
proof -
  assume "1 \<le> m" "m \<le> 12"
  then have "(m - 1) div 12 = 0" "(m - 1) mod 12 + 1 = m" by presburger+
  then show ?thesis by (simp add: make_day_def)
qed

lemma make_day_getters:
  assumes "valid_date y m d"
  shows "year_from_day (make_day y (m - 1) d) = y" (is ?Y)
    and "month_from_day (make_day y (m - 1) d) = m" (is ?M)
    and "date_from_day (make_day y (m - 1) d) = d" (is ?D)
proof -
  let ?t = "make_day y (m - 1) d"
  from assms have m: "1 \<le> m" "m \<le> 12" and d: "1 \<le> d" "d \<le> month_days y m"
    by (simp_all add: valid_date_def)
  have t: "?t = day_from_year y + days_before y m + d - 1"
    using m by (rule make_day_in_year)
  have "0 \<le> days_before y m" "days_before y m + month_days y m \<le> (if leap_year y then 366 else 365)"
    using month_disj [OF m] by (elim disjE; simp add: month_days_def)+
  then show y: ?Y
    using d t leap_day_from_year [of y] by (intro year_from_day_unique) (auto split: if_splits)
  show M: ?M
    unfolding month_from_day_def Let_def y
    by (rule month_count) (use m d t in \<open>simp_all add: month_days_def\<close>)
  show ?D
    unfolding date_from_day_def Let_def y M by (simp add: t)
qed

text \<open>What the round trip through \<open>Date\<close> tests: the parts name a calendar day.\<close>

lemma make_day_roundtrip_iff:
  "year_from_day (make_day y (m - 1) d) = y \<and> month_from_day (make_day y (m - 1) d) = m
     \<and> date_from_day (make_day y (m - 1) d) = d \<longleftrightarrow> valid_date y m d"
  using month_from_day_valid [of "make_day y (m - 1) d"] make_day_getters [of y m d] by auto

lemma day_of_parts:
  "make_day (year_from_day t) (month_from_day t - 1) (date_from_day t) = t"
  using month_from_day_valid [of t]
  by (simp add: make_day_in_year valid_date_def date_from_day_def Let_def)

subsection \<open>Days as texts\<close>

definition two_digits :: "int \<Rightarrow> string" where
  "two_digits n = pad_start 2 (CHR ''0'') (show_nat (nat n))"

text \<open>\<open>YYYY-MM-DD\<close> of a year from 0 to 9999, as \<open>toISOString().slice(0, 10)\<close> writes it.\<close>

definition iso_date :: "int \<Rightarrow> int \<Rightarrow> int \<Rightarrow> string" where
  "iso_date y m d = pad_start 4 (CHR ''0'') (show_nat (nat y)) @ CHR ''-'' # two_digits m @ CHR ''-'' # two_digits d"

definition iso_day :: "int \<Rightarrow> string" where
  "iso_day t = iso_date (year_from_day t) (month_from_day t) (date_from_day t)"

lemma two_digits_length: "n < 100 \<Longrightarrow> length (two_digits n) = 2"
  unfolding two_digits_def by (rule pad_show_length) simp_all

lemma two_digits_digits [simp]: "all_digits (two_digits n)"
  by (simp add: two_digits_def)

lemma two_digits_value [simp]: "nat_of_digits (two_digits n) = nat n"
  by (simp add: two_digits_def)

lemma two_digits_less: "0 \<le> m \<Longrightarrow> m < 100 \<Longrightarrow> 0 \<le> n \<Longrightarrow> n < 100 \<Longrightarrow> two_digits m < two_digits n \<longleftrightarrow> m < n"
  by (auto simp: digits_less_iff two_digits_length)

lemma two_digits_eq: "0 \<le> m \<Longrightarrow> m < 100 \<Longrightarrow> 0 \<le> n \<Longrightarrow> n < 100 \<Longrightarrow> two_digits m = two_digits n \<longleftrightarrow> m = n"
  by (subst digits_eq_iff) (auto simp: two_digits_length nat_eq_iff)

lemma year_digits:
  assumes "0 \<le> y" "y < 10000"
  shows "length (pad_start 4 (CHR ''0'') (show_nat (nat y))) = 4"
  using assms by (intro pad_show_length) (simp_all add: nat_less_iff)

lemma iso_date_less:
  assumes "0 \<le> y" "y < 10000" "0 \<le> y'" "y' < 10000"
    and "0 \<le> m" "m < 100" "0 \<le> m'" "m' < 100" "0 \<le> d" "d < 100" "0 \<le> d'" "d' < 100"
  shows "iso_date y m d < iso_date y' m' d' \<longleftrightarrow> y < y' \<or> y = y' \<and> (m < m' \<or> m = m' \<and> d < d')"
proof -
  let ?Y = "\<lambda>y. pad_start 4 (CHR ''0'') (show_nat (nat y))"
  have Y: "?Y y < ?Y y' \<longleftrightarrow> y < y'" "?Y y = ?Y y' \<longleftrightarrow> y = y'"
    using assms(1-4) by (auto simp: digits_less_iff digits_eq_iff year_digits nat_eq_iff)
  have "iso_date y m d < iso_date y' m' d' \<longleftrightarrow>
      ?Y y < ?Y y' \<or> ?Y y = ?Y y' \<and> (two_digits m < two_digits m' \<or> two_digits m = two_digits m' \<and> two_digits d < two_digits d')"
    using assms by (simp add: iso_date_def less_append_same_length year_digits two_digits_length)
  then show ?thesis using assms by (simp add: Y two_digits_less two_digits_eq)
qed

lemma valid_date_bounds: "valid_date y m d \<Longrightarrow> 1 \<le> m \<and> m \<le> 12 \<and> 1 \<le> d \<and> d \<le> 31"
  using month_days_range [of m y] by (auto simp: valid_date_def)

text \<open>The order of the calendar days is the lexicographic order of their parts.\<close>

lemma make_day_less:
  assumes "valid_date y m d" "valid_date y' m' d'"
  shows "make_day y (m - 1) d < make_day y' (m' - 1) d' \<longleftrightarrow> y < y' \<or> y = y' \<and> (m < m' \<or> m = m' \<and> d < d')"
proof -
  have less: "make_day y (m - 1) d < make_day y' (m' - 1) d'"
    if v: "valid_date y m d" "valid_date y' m' d'" and c: "y < y' \<or> y = y' \<and> (m < m' \<or> m = m' \<and> d < d')" for y m d y' m' d'
  proof -
    have md: "make_day y (m - 1) d = day_from_year y + days_before y m + d - 1"
      "make_day y' (m' - 1) d' = day_from_year y' + days_before y' m' + d' - 1"
      using v by (simp_all add: make_day_in_year valid_date_def)
    have b: "1 \<le> m" "m \<le> 12" "1 \<le> m'" "m' \<le> 12" "d \<le> days_before y (m + 1) - days_before y m" "1 \<le> d'"
      using v by (simp_all add: valid_date_def month_days_def)
    from c consider "y < y'" | "y = y'" "m < m'" | "y = y'" "m = m'" "d < d'" by blast
    then show ?thesis
    proof cases
      case 1
      have "days_before y (m + 1) \<le> days_before y 13" using b by (intro days_before_mono) simp_all
      moreover have "day_from_year y + days_before y 13 = day_from_year (y + 1)"
        by (simp add: leap_day_from_year)
      moreover have "day_from_year (y + 1) \<le> day_from_year y'" using 1 by (intro day_from_year_mono) simp
      moreover have "days_before y' 1 \<le> days_before y' m'" using b by (intro days_before_mono) simp_all
      ultimately show ?thesis using b md by simp
    next
      case 2
      have "days_before y (m + 1) \<le> days_before y m'" using b 2 by (intro days_before_mono) simp_all
      with 2 b md show ?thesis by simp
    qed (use md in simp)
  qed
  show ?thesis
    using less [OF assms] less [OF assms(2,1)]
    by (cases y y' rule: linorder_cases; cases m m' rule: linorder_cases; cases d d' rule: linorder_cases) auto
qed

lemma iso_date_day_less:
  assumes "valid_date y m d" "valid_date y' m' d'" "0 \<le> y" "y < 10000" "0 \<le> y'" "y' < 10000"
  shows "iso_date y m d < iso_date y' m' d' \<longleftrightarrow> make_day y (m - 1) d < make_day y' (m' - 1) d'"
  unfolding make_day_less [OF assms(1,2)]
  by (rule iso_date_less) (use assms valid_date_bounds [OF assms(1)] valid_date_bounds [OF assms(2)] in simp_all)

lemma iso_date_day_le:
  assumes "valid_date y m d" "valid_date y' m' d'" "0 \<le> y" "y < 10000" "0 \<le> y'" "y' < 10000"
  shows "iso_date y m d \<le> iso_date y' m' d' \<longleftrightarrow> make_day y (m - 1) d \<le> make_day y' (m' - 1) d'"
  using iso_date_day_less [OF assms(2,1,5,6,3,4)] by (simp add: linorder_not_less [symmetric])

lemma date_utc_year [simp]: "100 \<le> y \<Longrightarrow> date_utc y m0 d = make_day y m0 d"
  by (simp add: date_utc_def)

end
