(* ===== verification/Decimals.thy ===== *)
theory Decimals
  imports Prelude
begin

section \<open>Exact decimals and cents (common/decimal.ts, common/amount.ts)\<close>

text \<open>
  A \<open>Decimal\<close> is an integer count of \<open>10 ^ -20\<close> units; cents are plain \<open>bigint\<close>s.  The class
  methods are functions named \<open>decimal_\<dots>\<close>; a method whose argument may be a literal returns a
  result, since reading the literal may throw.  Thrown errors carry their message.
\<close>

datatype num_input = NText string | NNum jsnum | NBig int

datatype dec_error = DecError string | DecimalLimitError string

datatype decimal = Decimal (units: int)

datatype dec_input = DLit num_input | DDec decimal

definition DECIMAL_SCALE_DIGITS :: int where
  "DECIMAL_SCALE_DIGITS = 20"

definition SCALE :: int where
  "SCALE = 10 ^ 20"

definition MAX_EXPONENT :: int where
  "MAX_EXPONENT = 400"

subsection \<open>Reading a literal\<close>

text \<open>
  \<open>LITERAL = /^([+-]?)(\d*)(?:\.(\d*))?(?:e([+-]?\d+))?$/i\<close>, matched left to right: no later part
  of the expression can start with a digit, so the greedy match never backs off.
  The result is the four groups.
\<close>

definition take_sign :: "string \<Rightarrow> string \<times> string" where
  "take_sign s = (case s of c # r \<Rightarrow> if c = CHR ''+'' \<or> c = CHR ''-'' then ([c], r) else ([], s) | [] \<Rightarrow> ([], []))"

definition match_exponent :: "string \<Rightarrow> bool" where
  "match_exponent s = (let d = snd (take_sign s) in d \<noteq> [] \<and> all_digits d)"

definition LITERAL :: "string \<Rightarrow> (string \<times> string \<times> string option \<times> string option) option" where
  "LITERAL s =
     (let (sign, r0) = take_sign s;
          intDigits = takeWhile is_digit r0;
          r1 = dropWhile is_digit r0;
          (fracDigits, r2) =
            (case r1 of
               c # r \<Rightarrow> if c = CHR ''.'' then (Some (takeWhile is_digit r), dropWhile is_digit r) else (None, r1)
             | [] \<Rightarrow> (None, []))
      in case r2 of
           [] \<Rightarrow> Some (sign, intDigits, fracDigits, None)
         | c # r \<Rightarrow>
             if (c = CHR ''e'' \<or> c = CHR ''E'') \<and> match_exponent r
             then Some (sign, intDigits, fracDigits, Some r) else None)"

text \<open>\<open>Number(expDigits)\<close> of a matched exponent.\<close>

definition exponent_value :: "string \<Rightarrow> int" where
  "exponent_value s =
     (let (sign, d) = take_sign s in if sign = ''-'' then - int (nat_of_digits d) else int (nat_of_digits d))"

definition safe_integer :: "int \<Rightarrow> bool" where
  "safe_integer n \<longleftrightarrow> \<bar>n\<bar> \<le> 2 ^ 53 - 1"

definition sanitize :: "string \<Rightarrow> string" where
  "sanitize raw =
     map (\<lambda>c. if c = CHR '','' then CHR ''.'' else c)
       (filter (\<lambda>c. c \<noteq> CHR ''_'') (filter (\<lambda>c. \<not> js_space c) (js_trim raw)))"

definition parse_text :: "string \<Rightarrow> dec_error + (int \<times> int)" where
  "parse_text raw =
     (let invalid = Inl (DecError (''Invalid amount: '' @ quoted raw)) in
      case LITERAL (sanitize raw) of
        None \<Rightarrow> invalid
      | Some (sign, intDigits, frac, expDigits) \<Rightarrow>
          let fracDigits = (case frac of None \<Rightarrow> [] | Some f \<Rightarrow> f);
              exponent = (case expDigits of None \<Rightarrow> 0 | Some e \<Rightarrow> exponent_value e);
              digits = int (nat_of_digits (intDigits @ fracDigits))
          in if intDigits = [] \<and> fracDigits = [] then invalid
             else if \<not> safe_integer exponent \<or> \<bar>exponent\<bar> > MAX_EXPONENT then invalid
             else Inr (if sign = ''-'' then - digits else digits, int (length fracDigits) - exponent))"

fun num_input_text :: "num_input \<Rightarrow> string" where
  "num_input_text (NText s) = s"
| "num_input_text (NNum n) = num_text n"
| "num_input_text (NBig i) = show_int i"

fun parseDecimalLiteral :: "num_input \<Rightarrow> dec_error + (int \<times> int)" where
  "parseDecimalLiteral (NNum n) =
     (if \<not> num_finite n then Inl (DecError (''Invalid amount: '' @ quoted (num_text n))) else parse_text (num_text n))"
| "parseDecimalLiteral v = parse_text (num_input_text v)"

subsection \<open>Rounding and the class\<close>

definition divRoundHalfAway :: "int \<Rightarrow> int \<Rightarrow> int" where
  "divRoundHalfAway numerator divisor =
     (let quotient = numerator sdiv divisor;
          remainder = numerator smod divisor;
          twice = (if remainder < 0 then - remainder else remainder) * 2
      in if twice < divisor then quotient
         else if numerator < 0 then quotient - 1 else quotient + 1)"

definition rescale :: "int \<Rightarrow> int \<Rightarrow> int \<Rightarrow> int" where
  "rescale mantissa scale target =
     (if scale \<le> target then mantissa * 10 ^ nat (target - scale)
      else divRoundHalfAway mantissa (10 ^ nat (scale - target)))"

definition decimal_ZERO :: decimal where
  "decimal_ZERO = Decimal 0"

definition decimal_of_literal :: "num_input \<Rightarrow> dec_error + decimal" where
  "decimal_of_literal value =
     rbind (parseDecimalLiteral value) (\<lambda>(mantissa, scale).
       if scale > DECIMAL_SCALE_DIGITS \<and> mantissa smod 10 ^ nat (scale - DECIMAL_SCALE_DIGITS) \<noteq> 0
       then Inl (DecError (''Invalid amount: '' @ quoted (num_input_text value) @ '' has more than 20 decimals''))
       else Inr (Decimal (rescale mantissa scale DECIMAL_SCALE_DIGITS)))"

fun decimal_from :: "dec_input \<Rightarrow> dec_error + decimal" where
  "decimal_from (DDec d) = Inr d"
| "decimal_from (DLit value) = decimal_of_literal value"

definition decimal_fromCents :: "int \<Rightarrow> decimal" where
  "decimal_fromCents cents = Decimal (cents * 10 ^ nat (DECIMAL_SCALE_DIGITS - 2))"

text \<open>The arithmetic of the methods on two decimals, then the methods on any input.\<close>

definition dplus :: "decimal \<Rightarrow> decimal \<Rightarrow> decimal" where
  "dplus a b = Decimal (units a + units b)"

definition dminus :: "decimal \<Rightarrow> decimal \<Rightarrow> decimal" where
  "dminus a b = Decimal (units a - units b)"

definition dtimes :: "decimal \<Rightarrow> decimal \<Rightarrow> decimal" where
  "dtimes a b = Decimal (divRoundHalfAway (units a * units b) SCALE)"

definition dcmp :: "decimal \<Rightarrow> decimal \<Rightarrow> int" where
  "dcmp a b = (if units a < units b then - 1 else if units a > units b then 1 else 0)"

definition decimal_add :: "decimal \<Rightarrow> dec_input \<Rightarrow> dec_error + decimal" where
  "decimal_add this other = rbind (decimal_from other) (\<lambda>o'. Inr (dplus this o'))"

definition decimal_sub :: "decimal \<Rightarrow> dec_input \<Rightarrow> dec_error + decimal" where
  "decimal_sub this other = rbind (decimal_from other) (\<lambda>o'. Inr (dminus this o'))"

definition decimal_mul :: "decimal \<Rightarrow> dec_input \<Rightarrow> dec_error + decimal" where
  "decimal_mul this other = rbind (decimal_from other) (\<lambda>o'. Inr (dtimes this o'))"

definition decimal_withPct :: "decimal \<Rightarrow> dec_input \<Rightarrow> dec_error + decimal" where
  "decimal_withPct this pct = rbind (decimal_from pct) (\<lambda>p.
     let factor = 100 * SCALE + units p in Inr (Decimal (divRoundHalfAway (units this * factor) (100 * SCALE))))"

definition decimal_cmp :: "decimal \<Rightarrow> dec_input \<Rightarrow> dec_error + int" where
  "decimal_cmp this other = rbind (decimal_from other) (\<lambda>o'. Inr (dcmp this o'))"

text \<open>The divisor is an integer; the number of decimals is an integer too.\<close>

definition decimal_divRound :: "decimal \<Rightarrow> int \<Rightarrow> int \<Rightarrow> dec_error + decimal" where
  "decimal_divRound this divisor decimals =
     (if divisor \<le> 0 \<or> decimals < 0 \<or> decimals > DECIMAL_SCALE_DIGITS
      then Inl (DecError (''Invalid division: '' @ CHR 0xF7 # '' '' @ show_int divisor @ '' to '' @ show_int decimals @ '' decimals''))
      else let drop = 10 ^ nat (DECIMAL_SCALE_DIGITS - decimals)
           in Inr (Decimal (divRoundHalfAway (units this) (divisor * drop) * drop)))"

definition decimal_toCents :: "decimal \<Rightarrow> int" where
  "decimal_toCents this = divRoundHalfAway (units this) (10 ^ nat (DECIMAL_SCALE_DIGITS - 2))"

definition decimal_toString :: "decimal \<Rightarrow> string" where
  "decimal_toString this =
     (let negative = units this < 0;
          digits = pad_start 21 (CHR ''0'') (show_nat (nat \<bar>units this\<bar>));
          intPart = take (length digits - 20) digits;
          fracPart = strip_trailing_zeros (drop (length digits - 20) digits);
          text = (if fracPart \<noteq> [] then intPart @ CHR ''.'' # fracPart else intPart)
      in if negative then CHR ''-'' # text else text)"

subsection \<open>Limits of an input field\<close>

record decimal_limits =
  lim_label :: string
  lim_decimals :: int
  lim_min :: "string option"
  lim_minMessage :: "string option"
  lim_maxAbs :: string

text \<open>\<open>while (scale > 0 && mantissa % 10n === 0n)\<close>: drop the trailing zeros of the fraction.\<close>

function drop_zeros :: "int \<Rightarrow> int \<Rightarrow> int \<times> int" where
  "drop_zeros mantissa scale =
     (if scale > 0 \<and> mantissa smod 10 = 0 then drop_zeros (mantissa sdiv 10) (scale - 1) else (mantissa, scale))"
  by pat_completeness auto
termination
  by (relation "measure (\<lambda>(mantissa, scale). nat scale)") auto

declare drop_zeros.simps [simp del]

definition lit_text :: "int \<Rightarrow> int \<Rightarrow> string" where
  "lit_text mantissa scale = show_int mantissa @ CHR ''e'' # show_int (- scale)"

text \<open>The messages of the field errors.\<close>

definition too_many_decimals :: "decimal_limits \<Rightarrow> dec_error" where
  "too_many_decimals limits =
     DecimalLimitError (lim_label limits @ '' accepts at most '' @ show_int (lim_decimals limits) @ '' decimal''
       @ (if lim_decimals limits = 1 then [] else ''s'') @ ''.'')"

definition below_minimum :: "decimal_limits \<Rightarrow> dec_error" where
  "below_minimum limits =
     DecimalLimitError (case lim_minMessage limits of
         Some m \<Rightarrow> m
       | None \<Rightarrow> lim_label limits @ '' cannot be below '' @ (case lim_min limits of Some mn \<Rightarrow> mn | None \<Rightarrow> []) @ ''.'')"

definition too_large :: "decimal_limits \<Rightarrow> dec_error" where
  "too_large limits = DecimalLimitError (lim_label limits @ '' is too large.'')"

definition not_a_number :: "decimal_limits \<Rightarrow> dec_error" where
  "not_a_number limits = DecimalLimitError (lim_label limits @ '' must be a number.'')"

definition is_required :: "decimal_limits \<Rightarrow> dec_error" where
  "is_required limits = DecimalLimitError (lim_label limits @ '' is required.'')"

text \<open>The checks on a literal, then the whole function: what is missing, and what is not a literal, first.\<close>

definition limit_checks :: "decimal_limits \<Rightarrow> num_input \<Rightarrow> dec_error + decimal" where
  "limit_checks limits input =
     (case parseDecimalLiteral input of
        Inl _ \<Rightarrow> Inl (not_a_number limits)
      | Inr (m0, s0) \<Rightarrow>
          let (mantissa, scale) = drop_zeros m0 s0 in
          rguard (scale > lim_decimals limits) (too_many_decimals limits)
          (rbind (decimal_from (DLit (NText (lit_text mantissa scale)))) (\<lambda>result.
           rbind (case lim_min limits of
                    None \<Rightarrow> Inr False
                  | Some mn \<Rightarrow> rbind (decimal_cmp result (DLit (NText mn))) (\<lambda>c. Inr (c < 0))) (\<lambda>below.
           rguard below (below_minimum limits)
           (let magnitude = (if units result < 0 then dminus decimal_ZERO result else result) in
            rbind (decimal_cmp magnitude (DLit (NText (lim_maxAbs limits)))) (\<lambda>c.
            rguard (c \<ge> 0) (too_large limits) (Inr result)))))))"

definition parseLimitedDecimal :: "jsval \<Rightarrow> decimal_limits \<Rightarrow> dec_error + decimal" where
  "parseLimitedDecimal value limits =
     (case value of
        JUndef \<Rightarrow> Inl (is_required limits)
      | JNull \<Rightarrow> Inl (is_required limits)
      | JStr s \<Rightarrow> if js_trim s = [] then Inl (is_required limits) else limit_checks limits (NText s)
      | JNum n \<Rightarrow> limit_checks limits (NNum n)
      | _ \<Rightarrow> Inl (not_a_number limits))"

subsection \<open>Cents (common/amount.ts)\<close>

datatype amount_input = ANone | ANum num_input

definition CENTS_LIMIT :: int where
  "CENTS_LIMIT = 10 ^ 18"

fun toCents :: "amount_input \<Rightarrow> dec_error + int" where
  "toCents ANone = Inr 0"
| "toCents (ANum v) =
     (if (case v of NNum n \<Rightarrow> \<not> num_finite n | _ \<Rightarrow> False) then Inr 0
      else if (case v of NText s \<Rightarrow> js_trim s = [] | _ \<Rightarrow> False) then Inr 0
      else rbind (parseDecimalLiteral v) (\<lambda>(mantissa, scale). Inr (rescale mantissa scale 2)))"

definition addCents :: "int \<Rightarrow> amount_input \<Rightarrow> dec_error + int" where
  "addCents current value = rbind (toCents value) (\<lambda>c. Inr (current + c))"

definition formatCents :: "int \<Rightarrow> string" where
  "formatCents cents =
     (let neg = cents < 0;
          str = pad_start 3 (CHR ''0'') (show_nat (nat \<bar>cents\<bar>));
          intPart = (if length str > 2 then take (length str - 2) str else ''0'');
          decPart = drop (length str - 2) str;
          formatted = (if decPart = ''00'' then intPart else intPart @ CHR ''.'' # decPart)
      in if neg then CHR ''-'' # formatted else formatted)"

definition formatAmount :: "amount_input \<Rightarrow> dec_error + string" where
  "formatAmount value = rbind (toCents value) (\<lambda>c. Inr (formatCents c))"


subsection \<open>Lemmas: rounding\<close>

lemma sdiv_mult_self [simp]: "(d::int) \<noteq> 0 \<Longrightarrow> (a * d) sdiv d = a"
  by (simp add: signed_divide_int_eq_divide_int)

lemma smod_mult_self [simp]: "(a * d) smod (d::int) = 0"
  by (simp add: signed_modulo_int_eq_modulo_int)

lemma divRoundHalfAway_nonneg:
  assumes "0 \<le> n" "0 < d"
  shows "divRoundHalfAway n d = (2 * n + d) div (2 * d)"
proof -
  define m where "m = n mod d"
  define q where "q = n div d"
  have n: "n = d * q + m" by (simp add: m_def q_def)
  have m: "0 \<le> m" "m < d" using assms by (simp_all add: m_def)
  have r: "0 \<le> n mod d" "n mod d < d" "n div d = q" using assms by (simp_all add: q_def)
  show ?thesis
  proof (cases "2 * (n mod d) < d")
    case True
    then have "2 * m < d" by (simp add: m_def)
    then have "(2 * n + d) div (2 * d) = q"
      by (intro int_div_pos_eq [where r = "2 * m + d"]) (use n m in \<open>simp_all add: algebra_simps\<close>)
    with True assms r show ?thesis
      by (auto simp add: divRoundHalfAway_def smod_mod_positive signed_divide_int_def Let_def abs_if sgn_if)
  next
    case False
    then have "d \<le> 2 * m" by (simp add: m_def)
    then have "(2 * n + d) div (2 * d) = q + 1"
      by (intro int_div_pos_eq [where r = "2 * m - d"]) (use n m in \<open>simp_all add: algebra_simps\<close>)
    with False assms r show ?thesis
      by (auto simp add: divRoundHalfAway_def smod_mod_positive signed_divide_int_def Let_def abs_if sgn_if)
  qed
qed

lemma divRoundHalfAway_0 [simp]: "0 < d \<Longrightarrow> divRoundHalfAway 0 d = 0"
  by (simp add: divRoundHalfAway_def)

lemma divRoundHalfAway_minus: "0 < d \<Longrightarrow> divRoundHalfAway (- n) d = - divRoundHalfAway n d"
  using smod_int_compares(1-4) [of n d] by (auto simp: divRoundHalfAway_def Let_def)

lemma divRoundHalfAway_exact [simp]: "0 < d \<Longrightarrow> divRoundHalfAway (q * d) d = q"
  by (simp add: divRoundHalfAway_def Let_def)

lemma divRoundHalfAway_nearest:
  assumes "0 < d"
  shows "2 * \<bar>d * divRoundHalfAway n d - n\<bar> < d
    \<or> 2 * \<bar>d * divRoundHalfAway n d - n\<bar> = d \<and> \<bar>n\<bar> < \<bar>d * divRoundHalfAway n d\<bar>"
proof -
  have pos: "2 * \<bar>d * divRoundHalfAway k d - k\<bar> < d
    \<or> 2 * \<bar>d * divRoundHalfAway k d - k\<bar> = d \<and> \<bar>k\<bar> < \<bar>d * divRoundHalfAway k d\<bar>" if "0 \<le> k" for k
  proof -
    define p where "p = d * divRoundHalfAway k d"
    define r where "r = (2 * k + d) mod (2 * d)"
    have "2 * p + r = 2 * k + d"
      unfolding p_def r_def divRoundHalfAway_nonneg [OF that assms]
      using mult_div_mod_eq [of "2 * d" "2 * k + d"] by (simp only: mult.assoc)
    moreover have "0 \<le> r" "r < 2 * d"
      using assms by (simp_all add: r_def)
    ultimately have r: "2 * (p - k) = d - r" "0 \<le> r" "r < 2 * d" by simp_all
    show ?thesis
      unfolding p_def [symmetric]
    proof (cases "r = 0")
      case True
      with r assms have "k < p" "2 * (p - k) = d" by simp_all
      with that show "2 * \<bar>p - k\<bar> < d \<or> 2 * \<bar>p - k\<bar> = d \<and> \<bar>k\<bar> < \<bar>p\<bar>" by simp
    next
      case False
      with r have "2 * (p - k) < d" "- d < 2 * (p - k)" by simp_all
      then show "2 * \<bar>p - k\<bar> < d \<or> 2 * \<bar>p - k\<bar> = d \<and> \<bar>k\<bar> < \<bar>p\<bar>" by (simp add: abs_if)
    qed
  qed
  show ?thesis
  proof (cases "0 \<le> n")
    case False
    then show ?thesis using pos [of "- n"] by (simp add: divRoundHalfAway_minus [OF assms] abs_minus_commute)
  qed (rule pos)
qed

lemma nearest_unique:
  fixes a b d n :: int
  assumes "0 < d"
    and "2 * \<bar>d * a - n\<bar> < d \<or> 2 * \<bar>d * a - n\<bar> = d \<and> \<bar>n\<bar> < \<bar>d * a\<bar>"
    and "2 * \<bar>d * b - n\<bar> < d \<or> 2 * \<bar>d * b - n\<bar> = d \<and> \<bar>n\<bar> < \<bar>d * b\<bar>"
  shows "a = b"
proof -
  have lt: False if "x < y" and
    x: "2 * \<bar>d * x - n\<bar> < d \<or> 2 * \<bar>d * x - n\<bar> = d \<and> \<bar>n\<bar> < \<bar>d * x\<bar>" and
    y: "2 * \<bar>d * y - n\<bar> < d \<or> 2 * \<bar>d * y - n\<bar> = d \<and> \<bar>n\<bar> < \<bar>d * y\<bar>" for x y
  proof -
    have "d * x + d \<le> d * y" using \<open>0 < d\<close> \<open>x < y\<close>
      by (metis add.commute distrib_left mult.right_neutral mult_left_mono order_less_imp_le zless_imp_add1_zle)
    moreover have "2 * \<bar>d * x - n\<bar> \<le> d" "2 * \<bar>d * y - n\<bar> \<le> d" using x y by auto
    ultimately have e: "2 * (n - d * x) = d" "2 * (d * y - n) = d"
      using abs_ge_minus_self [of "d * x - n"] abs_ge_self [of "d * y - n"] by (simp_all add: right_diff_distrib)
    then have "\<not> 2 * \<bar>d * x - n\<bar> < d" "\<not> 2 * \<bar>d * y - n\<bar> < d"
      by (simp_all add: abs_if right_diff_distrib)
    with x y e have t: "2 * (n - d * x) = d" "2 * (d * y - n) = d" "\<bar>n\<bar> < \<bar>d * x\<bar>" "\<bar>n\<bar> < \<bar>d * y\<bar>"
      by simp_all
    have "d * x \<le> - d" if "d * x < 0"
    proof -
      from that \<open>0 < d\<close> have "x \<le> - 1" by (simp add: mult_less_0_iff)
      with \<open>0 < d\<close> have "d * x \<le> d * - 1" by (intro mult_left_mono) simp_all
      then show ?thesis by simp
    qed
    moreover have "d \<le> d * y" if "0 < d * y"
      using that \<open>0 < d\<close> by (simp add: zero_less_mult_iff)
    ultimately show False
      using \<open>0 < d\<close> t by (auto simp: right_diff_distrib abs_if split: if_splits)
  qed
  show ?thesis using linorder_less_linear [of a b] lt [of a b] lt [of b a] assms(2,3) by blast
qed

lemma rescale_up: "scale \<le> target \<Longrightarrow> rescale m scale target = m * 10 ^ nat (target - scale)"
  by (simp add: rescale_def)


subsection \<open>Lemmas: canonical texts read back\<close>

lemma takeWhile_digits [text_simps]:
  "all_digits ds \<Longrightarrow> (case r of [] \<Rightarrow> True | c # _ \<Rightarrow> \<not> is_digit c) \<Longrightarrow> takeWhile is_digit (ds @ r) = ds"
  by (induction ds) (auto split: list.splits)

lemma dropWhile_digits [text_simps]:
  "all_digits ds \<Longrightarrow> (case r of [] \<Rightarrow> True | c # _ \<Rightarrow> \<not> is_digit c) \<Longrightarrow> dropWhile is_digit (ds @ r) = r"
  by (induction ds) (auto split: list.splits)

lemma takeWhile_all_digits [simp]: "all_digits ds \<Longrightarrow> takeWhile is_digit ds = ds"
  using takeWhile_digits [of ds "[]"] by simp

lemma dropWhile_all_digits [simp]: "all_digits ds \<Longrightarrow> dropWhile is_digit ds = []"
  using dropWhile_digits [of ds "[]"] by simp

lemma not_digit_marks [simp]: "\<not> is_digit (CHR ''.'')" "\<not> is_digit (CHR ''e'')" "\<not> is_digit (CHR ''-'')"
  "\<not> is_digit (CHR ''+'')" "\<not> is_digit (CHR '','')" "\<not> is_digit (CHR '' '')" "\<not> is_digit (CHR ''/'')"
  by (simp_all add: is_digit_def)

lemma take_sign_simps [simp]:
  "take_sign (CHR ''-'' # s) = (''-'', s)"
  "take_sign (CHR ''+'' # s) = (''+'', s)"
  "take_sign [] = ([], [])"
  by (simp_all add: take_sign_def)

lemma take_sign_digits [simp]: "is_digit c \<Longrightarrow> take_sign (c # s) = ([], c # s)"
  by (auto simp: take_sign_def)

lemma take_sign_digits_append [text_simps]: "all_digits ds \<Longrightarrow> ds \<noteq> [] \<Longrightarrow> take_sign (ds @ s) = ([], ds @ s)"
  by (cases ds) auto

definition frac_part :: "string \<Rightarrow> string" where
  "frac_part fs = (if fs = [] then [] else CHR ''.'' # fs)"

text \<open>The characters a canonical literal is made of; \<open>sanitize\<close> leaves them alone.\<close>

definition plain_char :: "char \<Rightarrow> bool" where
  "plain_char c \<longleftrightarrow> is_digit c \<or> c = CHR ''-'' \<or> c = CHR ''.'' \<or> c = CHR ''e''"

lemma plain_char_props: "plain_char c \<Longrightarrow> \<not> js_space c \<and> c \<noteq> CHR ''_'' \<and> c \<noteq> CHR '',''"
  by (auto simp: plain_char_def js_space_def is_digit_def)

lemma js_trim_id: "list_all (\<lambda>c. \<not> js_space c) s \<Longrightarrow> js_trim s = s"
proof -
  assume a: "list_all (\<lambda>c. \<not> js_space c) s"
  then have "dropWhile js_space s = s" by (cases s) auto
  moreover from a have "list_all (\<lambda>c. \<not> js_space c) (rev s)" by simp
  then have "dropWhile js_space (rev s) = rev s" by (cases "rev s") auto
  ultimately show ?thesis by (simp add: js_trim_def)
qed

lemma sanitize_plain: "list_all plain_char s \<Longrightarrow> sanitize s = s"
proof -
  assume "list_all plain_char s"
  then have a: "\<not> js_space c" "c \<noteq> CHR ''_''" "c \<noteq> CHR '',''" if "c \<in> set s" for c
    using plain_char_props that by (simp_all add: list_all_iff)
  have "js_trim s = s" by (rule js_trim_id) (simp add: list_all_iff a(1))
  moreover have "filter (\<lambda>c. \<not> js_space c) s = s" by (rule filter_True) (simp add: a)
  moreover have "filter (\<lambda>c. c \<noteq> CHR ''_'') s = s" by (rule filter_True) (use a(2) in blast)
  moreover have "map (\<lambda>c. if c = CHR '','' then CHR ''.'' else c) s = s"
    by (rule map_idI) (use a(3) in auto)
  ultimately show ?thesis by (simp only: sanitize_def)
qed

lemma plain_digits: "all_digits ds \<Longrightarrow> list_all plain_char ds"
  by (auto simp: all_digits_def list_all_iff plain_char_def)

lemma plain_show_int: "list_all plain_char (show_int i)"
  using plain_digits [OF show_nat_digits] by (auto simp: show_int_def plain_char_def)

lemma LITERAL_canonical:
  assumes "all_digits ds" "ds \<noteq> []" "all_digits fs" "sg = [] \<or> sg = ''-''"
  shows "LITERAL (sg @ ds @ frac_part fs) = Some (sg, ds, if fs = [] then None else Some fs, None)"
proof -
  have "take_sign (sg @ ds @ frac_part fs) = (sg, ds @ frac_part fs)"
    using assms by (auto simp: text_simps)
  moreover have "takeWhile is_digit (ds @ frac_part fs) = ds" "dropWhile is_digit (ds @ frac_part fs) = frac_part fs"
    using assms(1) by (auto simp: text_simps frac_part_def)
  ultimately show ?thesis
    using assms(1,3) by (cases "fs = []") (simp_all add: LITERAL_def Let_def frac_part_def)
qed

lemma parse_text_canonical:
  assumes "all_digits ds" "ds \<noteq> []" "all_digits fs" "sg = [] \<or> sg = ''-''"
  shows "parse_text (sg @ ds @ frac_part fs) =
    Inr (if sg = ''-'' then - int (nat_of_digits (ds @ fs)) else int (nat_of_digits (ds @ fs)), int (length fs))"
proof -
  have "list_all plain_char (sg @ ds @ frac_part fs)"
    using assms plain_digits [OF assms(1)] plain_digits [OF assms(3)]
    by (auto simp: frac_part_def plain_char_def)
  then show ?thesis
    using assms by (simp add: parse_text_def sanitize_plain LITERAL_canonical Let_def safe_integer_def MAX_EXPONENT_def)
qed

lemma exponent_value_show [simp]: "exponent_value (show_int i) = i"
proof (cases "i < 0")
  case False
  have "take_sign (show_nat (nat i)) = ([], show_nat (nat i))"
    using take_sign_digits_append [of "show_nat (nat i)" "[]"] by simp
  with False show ?thesis by (simp add: exponent_value_def show_int_def)
qed (simp add: exponent_value_def show_int_def)

lemma match_exponent_show [simp]: "match_exponent (show_int i)"
  using take_sign_digits_append [of "show_nat (nat i)" "[]"]
  by (auto simp: match_exponent_def show_int_def Let_def)

lemma parse_lit_text:
  assumes "\<bar>scale\<bar> \<le> 400"
  shows "parse_text (lit_text mantissa scale) = Inr (mantissa, scale)"
proof -
  define sg where "sg = (if mantissa < 0 then ''-'' else [])"
  define ds where "ds = show_nat (nat \<bar>mantissa\<bar>)"
  have t: "lit_text mantissa scale = sg @ ds @ CHR ''e'' # show_int (- scale)"
    by (simp add: lit_text_def show_int_def sg_def ds_def)
  have ds: "all_digits ds" "ds \<noteq> []" by (simp_all add: ds_def)
  have "list_all plain_char (lit_text mantissa scale)"
    using plain_show_int by (auto simp: lit_text_def plain_char_def)
  then have s: "sanitize (lit_text mantissa scale) = sg @ ds @ CHR ''e'' # show_int (- scale)"
    by (simp add: sanitize_plain t)
  have sign: "take_sign (sg @ ds @ CHR ''e'' # show_int (- scale)) = (sg, ds @ CHR ''e'' # show_int (- scale))"
    using ds by (auto simp: sg_def text_simps)
  have L: "LITERAL (sg @ ds @ CHR ''e'' # show_int (- scale)) = Some (sg, ds, None, Some (show_int (- scale)))"
    using ds by (simp add: LITERAL_def Let_def sign text_simps)
  show ?thesis
    unfolding parse_text_def s L using assms ds
    by (auto simp: Let_def safe_integer_def MAX_EXPONENT_def sg_def) (simp_all add: ds_def)
qed


lemma decimal_of_toString: "decimal_of_literal (NText (decimal_toString d)) = Inr d"
proof -
  define digits where "digits = pad_start 21 (CHR ''0'') (show_nat (nat \<bar>units d\<bar>))"
  define ip where "ip = take (length digits - 20) digits"
  define fp where "fp = drop (length digits - 20) digits"
  define sf where "sf = strip_trailing_zeros fp"
  define sg where "sg = (if units d < 0 then ''-'' else [])"
  have len: "21 \<le> length digits" by (simp add: digits_def pad_start_length)
  have D: "all_digits digits" by (simp add: digits_def)
  have ip: "all_digits ip" "ip \<noteq> []" using D len by (auto simp: ip_def)
  have fp: "all_digits fp" "length fp = 20" using D len by (simp_all add: fp_def)
  have sf: "all_digits sf" "length sf \<le> 20"
    using fp strip_trailing_zeros_digits strip_trailing_zeros_length [of fp] by (simp_all add: sf_def)
  have val: "nat_of_digits (ip @ sf) * 10 ^ (20 - length sf) = nat \<bar>units d\<bar>"
  proof -
    have "nat_of_digits (ip @ fp) = nat_of_digits (ip @ sf @ replicate (20 - length sf) (CHR ''0''))"
      using strip_trailing_zeros_append [of fp] fp by (simp add: sf_def)
    also have "\<dots> = nat_of_digits (ip @ sf) * 10 ^ (20 - length sf)"
      using nat_of_digits_append [of "ip @ sf"] by simp
    also have "ip @ fp = digits" by (simp add: ip_def fp_def)
    finally show ?thesis by (simp add: digits_def)
  qed
  have str: "decimal_toString d = sg @ ip @ frac_part sf"
    by (simp add: decimal_toString_def Let_def digits_def ip_def fp_def sf_def sg_def frac_part_def)
  have e: "nat (20 - int (length sf)) = 20 - length sf" by simp
  have "int (nat_of_digits (ip @ sf)) * 10 ^ (20 - length sf) = \<bar>units d\<bar>"
    using arg_cong [OF val, of int] by simp
  then show ?thesis
    using sf(2) unfolding str decimal_of_literal_def
    by (auto simp: parse_text_canonical [OF ip sf(1)] sg_def DECIMAL_SCALE_DIGITS_def rescale_up e
             intro: decimal.expand)
qed

text \<open>\<open>Decimal.from(String(d))\<close> is \<open>d\<close> again, for every decimal: what \<open>toString\<close> writes loses
  nothing and is a literal the reader accepts.\<close>

theorem decimal_roundtrip: "decimal_of_literal (NText (decimal_toString d)) = Inr d"
  by (rule decimal_of_toString)

lemma formatCents_canonical:
  obtains sg ds fs where "formatCents c = sg @ ds @ frac_part fs" "all_digits ds" "ds \<noteq> []" "all_digits fs"
    "sg = (if c < 0 then ''-'' else [])" "length fs \<le> 2" "nat_of_digits (ds @ fs) * 10 ^ (2 - length fs) = nat \<bar>c\<bar>"
proof -
  define str where "str = pad_start 3 (CHR ''0'') (show_nat (nat \<bar>c\<bar>))"
  define ip where "ip = take (length str - 2) str"
  define dp where "dp = drop (length str - 2) str"
  define fs where "fs = (if dp = ''00'' then [] else dp)"
  define sg where "sg = (if c < 0 then ''-'' else [])"
  have len: "3 \<le> length str" by (simp add: str_def pad_start_length)
  have D: "all_digits str" by (simp add: str_def)
  have "nat_of_digits str = nat \<bar>c\<bar>" by (simp add: str_def)
  then have val: "nat_of_digits (ip @ dp) = nat \<bar>c\<bar>" by (simp add: ip_def dp_def)
  have dp: "length dp = 2" using len by (simp add: dp_def)
  have dp_ne: "dp \<noteq> []" using dp by auto
  have "formatCents c = (if c < 0 then CHR ''-'' # (if dp = ''00'' then ip else ip @ CHR ''.'' # dp)
      else (if dp = ''00'' then ip else ip @ CHR ''.'' # dp))"
    unfolding formatCents_def Let_def str_def [symmetric] dp_def [symmetric] ip_def [symmetric] using len by simp
  then have f: "formatCents c = sg @ ip @ frac_part fs"
    using dp_ne by (simp add: fs_def sg_def frac_part_def)
  have v: "nat_of_digits (ip @ fs) * 10 ^ (2 - length fs) = nat \<bar>c\<bar>"
  proof (cases "dp = ''00''")
    case True
    have z: "nat_of_digits ''00'' = 0" by (simp add: nat_of_digits_def digit_val_def)
    from True have "nat_of_digits (ip @ dp) = nat_of_digits ip * 100"
      by (simp add: nat_of_digits_append z)
    with True val show ?thesis by (simp add: fs_def)
  qed (use val dp in \<open>simp add: fs_def\<close>)
  have "ip \<noteq> []" using len by (auto simp: ip_def)
  moreover have "length fs \<le> 2" using dp by (simp add: fs_def)
  moreover have "all_digits ip" "all_digits fs" using D by (simp_all add: ip_def dp_def fs_def)
  ultimately show thesis using that f v sg_def by blast
qed

text \<open>\<open>toCents(formatCents(c))\<close> is \<open>c\<close> for every number of cents: amounts survive being written to the
  database and read back.\<close>

theorem toCents_formatCents: "toCents (ANum (NText (formatCents c))) = Inr c"
proof -
  obtain sg ds fs where str: "formatCents c = sg @ ds @ frac_part fs" and ds: "all_digits ds" "ds \<noteq> []" "all_digits fs"
    and sg: "sg = (if c < 0 then ''-'' else [])" and fs: "length fs \<le> 2"
    and val: "nat_of_digits (ds @ fs) * 10 ^ (2 - length fs) = nat \<bar>c\<bar>"
    by (rule formatCents_canonical)
  have "list_all plain_char (sg @ ds @ frac_part fs)"
    using plain_digits [OF ds(1)] plain_digits [OF ds(3)] by (auto simp: sg frac_part_def plain_char_def)
  then have "list_all (\<lambda>x. \<not> js_space x) (sg @ ds @ frac_part fs)"
    unfolding list_all_iff using plain_char_props by blast
  then have t: "js_trim (sg @ ds @ frac_part fs) \<noteq> []"
    using ds(2) by (simp add: js_trim_id)
  have p: "parse_text (sg @ ds @ frac_part fs) =
      Inr (if sg = ''-'' then - int (nat_of_digits (ds @ fs)) else int (nat_of_digits (ds @ fs)), int (length fs))"
    by (rule parse_text_canonical) (use ds sg in auto)
  have v: "int (nat_of_digits (ds @ fs)) * 10 ^ (2 - length fs) = \<bar>c\<bar>"
    using arg_cong [OF val, of int] by simp
  have e: "nat (2 - int (length fs)) = 2 - length fs" by simp
  have "toCents (ANum (NText (formatCents c)))
      = Inr ((if c < 0 then - int (nat_of_digits (ds @ fs)) else int (nat_of_digits (ds @ fs))) * 10 ^ (2 - length fs))"
    using t fs by (simp add: str p rescale_up e) (simp add: sg)
  also have "\<dots> = Inr c" using v by (cases "c < 0") simp_all
  finally show ?thesis .
qed

subsection \<open>Reading a limited field\<close>

lemma drop_zeros_spec:
  "drop_zeros m s = (m', s') \<Longrightarrow>
     s' \<le> s \<and> m = m' * 10 ^ nat (s - s') \<and> (s \<le> 0 \<longrightarrow> s' = s) \<and> (0 \<le> s \<longrightarrow> 0 \<le> s') \<and> (0 < s' \<longrightarrow> \<not> 10 dvd m')"
proof (induction m s rule: drop_zeros.induct)
  case (1 m s)
  have dvd: "(10 dvd x) = (x smod 10 = 0)" for x :: int
    using pos_mod_bound [of 10 x]
    by (auto simp: signed_modulo_int_eq_modulo_int dvd_eq_mod_eq_0 sgn_if split: if_splits)
  show ?case
  proof (cases "0 < s \<and> m smod 10 = 0")
    case True
    with 1(2) have "drop_zeros (m sdiv 10) (s - 1) = (m', s')" by (simp add: drop_zeros.simps [of m s])
    from 1(1) [OF True this] True have
      IH: "s' \<le> s - 1" "m sdiv 10 = m' * 10 ^ nat (s - 1 - s')" "0 \<le> s'" "0 < s' \<longrightarrow> \<not> 10 dvd m'" by auto
    have "10 dvd m" using True by (simp add: dvd)
    then obtain k where "m = k * 10" by (metis dvd_def mult.commute)
    then have m: "m = (m sdiv 10) * 10" by simp
    have "nat (s - s') = Suc (nat (s - 1 - s'))" using IH(1) by simp
    then have "m' * 10 ^ nat (s - s') = (m' * 10 ^ nat (s - 1 - s')) * 10" by simp
    also have "\<dots> = m" by (subst m) (simp add: IH(2))
    finally show ?thesis using IH True by auto
  next
    case False
    with 1(2) have "m' = m" "s' = s" by (auto simp: drop_zeros.simps [of m s])
    with False show ?thesis by (auto simp: dvd)
  qed
qed

lemma parse_text_scale: "parse_text raw = Inr (m, s) \<Longrightarrow> - 400 \<le> s"
  by (auto simp: parse_text_def Let_def MAX_EXPONENT_def split: option.splits prod.splits if_splits)

lemma parseDecimalLiteral_scale: "parseDecimalLiteral v = Inr (m, s) \<Longrightarrow> - 400 \<le> s"
  by (cases v) (auto split: if_splits dest: parse_text_scale)

text \<open>The literal a field value stands for, when it is a number or a text that is not blank.\<close>

fun limited_input :: "jsval \<Rightarrow> num_input option" where
  "limited_input (JStr s) = (if js_trim s = [] then None else Some (NText s))"
| "limited_input (JNum n) = Some (NNum n)"
| "limited_input _ = None"

text \<open>The scale left once the trailing zeros are dropped decides whether the value has few enough decimals.\<close>

lemma drop_zeros_decimals:
  fixes u :: int
  assumes "drop_zeros m s = (m', s')" "0 \<le> dec" "dec \<le> 20"
  shows "(u * 10 ^ nat (s - 20) = m * 10 ^ nat (20 - s) \<and> 10 ^ nat (20 - dec) dvd u)
    \<longleftrightarrow> (s' \<le> dec \<and> u = m' * 10 ^ nat (20 - s'))"
proof -
  from drop_zeros_spec [OF assms(1)] have
    m: "m = m' * 10 ^ nat (s - s')" and s: "s' \<le> s" and z: "s \<le> 0 \<longrightarrow> s' = s" "0 < s' \<longrightarrow> \<not> 10 dvd m'"
    by auto
  have eq: "(u * 10 ^ nat (s - 20) = m * 10 ^ nat (20 - s)) \<longleftrightarrow> (u * 10 ^ nat (s' - 20) = m' * 10 ^ nat (20 - s'))"
  proof (cases "s \<le> 20")
    case True
    then have "nat (20 - s') = nat (s - s') + nat (20 - s)" using s by simp
    then show ?thesis using True s by (simp add: m power_add ac_simps)
  next
    case False
    show ?thesis
    proof (cases "s' \<le> 20")
      case True
      then have "nat (s - s') = nat (s - 20) + nat (20 - s')" using False by simp
      then show ?thesis using True False by (simp add: m power_add ac_simps)
    next
      case f: False
      then have "nat (s - 20) = nat (s' - 20) + nat (s - s')" using s by simp
      then show ?thesis using f False by (simp add: m power_add ac_simps)
    qed
  qed
  show ?thesis
  proof
    assume L: "u * 10 ^ nat (s - 20) = m * 10 ^ nat (20 - s) \<and> 10 ^ nat (20 - dec) dvd u"
    have le: "s' \<le> dec"
    proof (rule ccontr)
      assume n: "\<not> s' \<le> dec"
      with assms(2) z have nd: "\<not> 10 dvd m'" by simp
      have "10 dvd m'"
      proof (cases "s' \<le> 20")
        case True
        with L eq have "u = m' * 10 ^ nat (20 - s')" by simp
        moreover have "nat (20 - dec) = Suc (nat (s' - dec - 1)) + nat (20 - s')" using True n by simp
        ultimately have "10 ^ Suc (nat (s' - dec - 1)) * 10 ^ nat (20 - s') dvd m' * 10 ^ nat (20 - s')"
          using L by (metis power_add)
        then have "10 ^ Suc (nat (s' - dec - 1)) dvd m'" by (subst (asm) dvd_mult_cancel_right) simp
        then show ?thesis by (meson dvd_trans dvd_power zero_less_Suc)
      next
        case False
        with L eq have "m' = u * 10 ^ nat (s' - 20)" by simp
        moreover have "nat (s' - 20) = Suc (nat (s' - 21))" using False by simp
        ultimately show ?thesis by simp
      qed
      with nd show False ..
    qed
    with L eq assms(3) show "s' \<le> dec \<and> u = m' * 10 ^ nat (20 - s')" by simp
  next
    assume R: "s' \<le> dec \<and> u = m' * 10 ^ nat (20 - s')"
    then have "s' \<le> dec" by blast
    then have "nat (20 - s') = nat (20 - dec) + nat (dec - s')" using assms(3) by simp
    then have "10 ^ nat (20 - dec) dvd u" using R by (simp add: power_add)
    with R eq assms(3) show "u * 10 ^ nat (s - 20) = m * 10 ^ nat (20 - s) \<and> 10 ^ nat (20 - dec) dvd u" by simp
  qed
qed

lemma decimal_of_lit_text:
  assumes "- 400 \<le> s" "s \<le> 20"
  shows "decimal_of_literal (NText (lit_text m s)) = Inr (Decimal (m * 10 ^ nat (20 - s)))"
  using assms by (simp add: decimal_of_literal_def parse_lit_text DECIMAL_SCALE_DIGITS_def rescale_up)

lemma parseLimitedDecimal_checks:
  "limited_input v = Some input \<Longrightarrow> parseLimitedDecimal v limits = limit_checks limits input"
  by (cases v) (auto simp: parseLimitedDecimal_def split: if_splits)

lemma parseLimitedDecimal_iff:
  assumes "limited_input v = Some input"
    and "0 \<le> lim_decimals limits" "lim_decimals limits \<le> 20"
    and "decimal_of_literal (NText (lim_maxAbs limits)) = Inr hi"
    and "\<And>mn. lim_min limits = Some mn \<Longrightarrow> decimal_of_literal (NText mn) = Inr lo"
  shows "parseLimitedDecimal v limits = Inr d \<longleftrightarrow>
    (\<exists>m s. parseDecimalLiteral input = Inr (m, s) \<and> units d * 10 ^ nat (s - 20) = m * 10 ^ nat (20 - s))
    \<and> 10 ^ nat (20 - lim_decimals limits) dvd units d
    \<and> (lim_min limits \<noteq> None \<longrightarrow> units lo \<le> units d) \<and> \<bar>units d\<bar> < units hi"
proof (cases "parseDecimalLiteral input")
  case (Inl e)
  then show ?thesis unfolding parseLimitedDecimal_checks [OF assms(1)] by (simp add: limit_checks_def)
next
  case (Inr ms)
  obtain m s where ms: "ms = (m, s)" by (cases ms)
  obtain m' s' where dz: "drop_zeros m s = (m', s')" by (cases "drop_zeros m s")
  note dd = drop_zeros_decimals [OF dz assms(2,3), of "units d"]
  have s': "- 400 \<le> s'" using drop_zeros_spec [OF dz] parseDecimalLiteral_scale [of input m s] Inr ms by auto
  have in_range: "s' \<le> lim_decimals limits \<Longrightarrow>
      decimal_of_literal (NText (lit_text m' s')) = Inr (Decimal (m' * 10 ^ nat (20 - s')))"
    using assms(3) s' by (simp add: decimal_of_lit_text)
  have mn: "(case lim_min limits of None \<Rightarrow> Inr False
      | Some mn \<Rightarrow> rbind (decimal_cmp r (DLit (NText mn))) (\<lambda>c. Inr (c < 0))) 
      = Inr (lim_min limits \<noteq> None \<and> units r < units lo)" for r
    using assms(5) by (auto simp: decimal_cmp_def dcmp_def split: option.split)
  have mx: "decimal_cmp r (DLit (NText (lim_maxAbs limits))) = Inr (dcmp r hi)" for r
    by (simp add: decimal_cmp_def assms(4))
  have mag: "0 \<le> dcmp (if units r < 0 then dminus decimal_ZERO r else r) hi \<longleftrightarrow> units hi \<le> \<bar>units r\<bar>" for r
    by (auto simp: dcmp_def dminus_def decimal_ZERO_def)
  have P: "parseDecimalLiteral input = Inr (m, s)" using Inr ms by simp
  have "limit_checks limits input =
      rguard (s' > lim_decimals limits) (too_many_decimals limits)
        (rbind (decimal_of_literal (NText (lit_text m' s'))) (\<lambda>result.
          rguard (lim_min limits \<noteq> None \<and> units result < units lo) (below_minimum limits)
            (rguard (units hi \<le> \<bar>units result\<bar>) (too_large limits) (Inr result))))"
    using P by (simp add: limit_checks_def Let_def dz mn mx mag)
  then have "parseLimitedDecimal v limits = Inr d \<longleftrightarrow>
      s' \<le> lim_decimals limits \<and> units d = m' * 10 ^ nat (20 - s')
      \<and> \<not> (lim_min limits \<noteq> None \<and> units d < units lo) \<and> \<bar>units d\<bar> < units hi"
    unfolding parseLimitedDecimal_checks [OF assms(1)] by (cases d) (auto simp: result_simps in_range)
  then show ?thesis using Inr ms dd by auto
qed

text \<open>C1: A limited field accepts a literal exactly when its value is a multiple of the last allowed
  decimal, not below the minimum and of smaller magnitude than the maximum, and then the result is
  that value with nothing rounded.\<close>

theorem parseLimitedDecimal_exact:
  assumes "limited_input v = Some input"
    and "0 \<le> lim_decimals limits" "lim_decimals limits \<le> 20"
    and "decimal_of_literal (NText (lim_maxAbs limits)) = Inr hi"
    and "\<And>mn. lim_min limits = Some mn \<Longrightarrow> decimal_of_literal (NText mn) = Inr lo"
  shows "parseLimitedDecimal v limits = Inr d \<longleftrightarrow>
    (\<exists>m s. parseDecimalLiteral input = Inr (m, s) \<and> units d * 10 ^ nat (s - 20) = m * 10 ^ nat (20 - s))
    \<and> 10 ^ nat (20 - lim_decimals limits) dvd units d
    \<and> (lim_min limits \<noteq> None \<longrightarrow> units lo \<le> units d) \<and> \<bar>units d\<bar> < units hi"
  by (rule parseLimitedDecimal_iff [OF assms])

lemma parseLimitedDecimal_exact_witness:
  "parseLimitedDecimal (JStr ''12,50'')
     \<lparr>lim_label = ''Rate'', lim_decimals = 2, lim_min = Some ''0'', lim_minMessage = None, lim_maxAbs = ''1000''\<rparr>
   = Inr (Decimal (1250 * 10 ^ 18))"
proof (subst parseLimitedDecimal_exact [where input = "NText ''12,50''" and hi = "Decimal (1000 * 10 ^ 20)" and lo = "Decimal 0"])
  show "limited_input (JStr ''12,50'') = Some (NText ''12,50'')" by code_simp
  show "decimal_of_literal (NText (lim_maxAbs \<lparr>lim_label = ''Rate'', lim_decimals = 2, lim_min = Some ''0'',
      lim_minMessage = None, lim_maxAbs = ''1000''\<rparr>)) = Inr (Decimal (1000 * 10 ^ 20))" by code_simp
  have "decimal_of_literal (NText ''0'') = Inr (Decimal 0)" by code_simp
  then show "lim_min \<lparr>lim_label = ''Rate'', lim_decimals = 2, lim_min = Some ''0'',
      lim_minMessage = None, lim_maxAbs = ''1000''\<rparr> = Some mn \<Longrightarrow> decimal_of_literal (NText mn) = Inr (Decimal 0)" for mn
    by auto
  have "parseDecimalLiteral (NText ''12,50'') = Inr (1250, 2)" by code_simp
  then show "(\<exists>m s. parseDecimalLiteral (NText ''12,50'') = Inr (m, s) \<and>
       units (Decimal (1250 * 10 ^ 18)) * 10 ^ nat (s - 20) = m * 10 ^ nat (20 - s))
    \<and> 10 ^ nat (20 - lim_decimals \<lparr>lim_label = ''Rate'', lim_decimals = 2, lim_min = Some ''0'',
        lim_minMessage = None, lim_maxAbs = ''1000''\<rparr>) dvd units (Decimal (1250 * 10 ^ 18))
    \<and> (lim_min \<lparr>lim_label = ''Rate'', lim_decimals = 2, lim_min = Some ''0'', lim_minMessage = None, lim_maxAbs = ''1000''\<rparr> \<noteq> None
        \<longrightarrow> units (Decimal 0) \<le> units (Decimal (1250 * 10 ^ 18)))
    \<and> \<bar>units (Decimal (1250 * 10 ^ 18))\<bar> < units (Decimal (1000 * 10 ^ 20))"
    by simp
qed simp_all

text \<open>Division rounds to the nearest integer and ties go away from zero, and that determines the result.\<close>

theorem divRoundHalfAway_iff:
  assumes "0 < d"
  shows "divRoundHalfAway n d = q \<longleftrightarrow> 2 * \<bar>d * q - n\<bar> < d \<or> 2 * \<bar>d * q - n\<bar> = d \<and> \<bar>n\<bar> < \<bar>d * q\<bar>"
proof
  assume "divRoundHalfAway n d = q"
  then show "2 * \<bar>d * q - n\<bar> < d \<or> 2 * \<bar>d * q - n\<bar> = d \<and> \<bar>n\<bar> < \<bar>d * q\<bar>"
    using divRoundHalfAway_nearest [OF assms, of n] by blast
qed (rule nearest_unique [OF assms divRoundHalfAway_nearest [OF assms]])

lemma divRoundHalfAway_iff_witness: "divRoundHalfAway (- 25) 10 = - 3"
  using divRoundHalfAway_iff [of 10 "- 25" "- 3"] by simp

end
