(* ===== verification/Spread.thy ===== *)
theory Spread
  imports Dates Decimals
begin

section \<open>Spreading a total over months (spend/spread.util.ts)\<close>

text \<open>
  Totals are integer cents.  A spread row is its period and the measures it carries; an absent
  key is \<open>None\<close>.  A window bound is a string or missing (\<open>null\<close> and \<open>undefined\<close> are treated
  alike by the code: \<open>== null\<close>).  Dates are compared as strings, which is the lexicographic
  order of List_Lexorder.  \<open>year\<close> is an integer.  Writing shares by index is \<open>scatter\<close> of Prelude.
\<close>

datatype spread_error = SpreadInputError string | SpreadError string

definition NO_ACTIVE_MONTH_MESSAGE :: string where
  "NO_ACTIVE_MONTH_MESSAGE = ''No month of the period counts: a month counts when the period covers its 15th.''"

record spread_window =
  win_start :: "string option"
  win_end :: "string option"

datatype spread_measure = Planned | Forecast | Committed | Actual | ExpectedLanding

record spread_row =
  row_period :: string
  row_amounts :: "spread_measure \<Rightarrow> int option"

definition SPREAD_MEASURES :: "spread_measure list" where
  "SPREAD_MEASURES = [Planned, Forecast, Committed, Actual, ExpectedLanding]"

definition FLAT_WEIGHTS :: "int list" where
  "FLAT_WEIGHTS = replicate 12 1"

datatype distribution = Equal | D445

fun QUARTER_WEIGHTS :: "distribution \<Rightarrow> int list" where
  "QUARTER_WEIGHTS Equal = [1, 1, 1]"
| "QUARTER_WEIGHTS D445 = [4, 4, 5]"

definition MONTHS :: "int list" where
  "MONTHS = [1, 2, 3, 4, 5, 6, 7, 8, 9, 10, 11, 12]"

text \<open>\<open>`${year}-${String(m).padStart(2, '0')}-dd`\<close>.\<close>

definition month_date :: "int \<Rightarrow> int \<Rightarrow> string \<Rightarrow> string" where
  "month_date year m dd = show_int year @ CHR ''-'' # pad_start 2 (CHR ''0'') (show_int m) @ CHR ''-'' # dd"

definition monthPeriods :: "int \<Rightarrow> string list" where
  "monthPeriods year = map (\<lambda>m. month_date year m ''01'') MONTHS"

subsection \<open>The months of a period\<close>

text \<open>\<open>ISO_DATE = /^(\d{4})-(\d{2})-(\d{2})$/\<close>; the groups as numbers.\<close>

definition ISO_DATE :: "string \<Rightarrow> (int \<times> int \<times> int) option" where
  "ISO_DATE s =
     (let y = take 4 s; m = take 2 (drop 5 s); d = drop 8 s in
      if length s = 10 \<and> all_digits y \<and> s ! 4 = CHR ''-'' \<and> all_digits m \<and> s ! 7 = CHR ''-'' \<and> all_digits d
      then Some (int (nat_of_digits y), int (nat_of_digits m), int (nat_of_digits d)) else None)"

definition assertDateInYear :: "string \<Rightarrow> int \<Rightarrow> string \<Rightarrow> spread_error + string" where
  "assertDateInYear value year label =
     (let text = js_trim value;
          (y, m, d) = (case ISO_DATE text of Some p \<Rightarrow> p | None \<Rightarrow> (0, 0, 0));
          date = date_utc y (m - 1) d
      in rguard (ISO_DATE text = None \<or> year_from_day date \<noteq> y \<or> month_from_day date \<noteq> m \<or> date_from_day date \<noteq> d)
           (SpreadInputError (''The '' @ label @ '' of the period '' @ quoted value @ '' is not a date; use YYYY-MM-DD.''))
         (rguard (y \<noteq> year)
           (SpreadInputError (''The period must lie within '' @ show_int year @ ''; its '' @ label @ '' is '' @ text @ ''.''))
         (Inr text)))"

definition activeMonths :: "int \<Rightarrow> string option \<Rightarrow> string option \<Rightarrow> spread_error + int list" where
  "activeMonths year start end' =
     rbind (case start of None \<Rightarrow> Inr (month_date year 1 ''01'') | Some s \<Rightarrow> assertDateInYear s year ''start'') (\<lambda>from'.
     rbind (case end' of None \<Rightarrow> Inr (month_date year 12 ''31'') | Some s \<Rightarrow> assertDateInYear s year ''end'') (\<lambda>to'.
     rguard (from' > to') (SpreadInputError (''The period starts after it ends ('' @ from' @ '' to '' @ to' @ '').''))
     (Inr (filter (\<lambda>month. let fifteenth = month_date year month ''15'' in fifteenth \<ge> from' \<and> fifteenth \<le> to') MONTHS))))"

definition windowMonths :: "int \<Rightarrow> spread_window \<Rightarrow> spread_error + int list" where
  "windowMonths year window =
     rbind (activeMonths year (win_start window) (win_end window)) (\<lambda>months.
     rguard (months = []) (SpreadInputError NO_ACTIVE_MONTH_MESSAGE) (Inr months))"

subsection \<open>Splitting\<close>

text \<open>
  \<open>while (weights[last] === 0n) last -= 1\<close>.  It stops at index 0 at the latest: the weights are
  not negative and add up to more than zero there.
\<close>

fun last_weighted :: "int list \<Rightarrow> nat \<Rightarrow> nat" where
  "last_weighted weights 0 = 0"
| "last_weighted weights (Suc n) = (if weights ! Suc n = 0 then last_weighted weights n else Suc n)"

definition splitTowardZero :: "int \<Rightarrow> int list \<Rightarrow> spread_error + int list" where
  "splitTowardZero tot weights =
     rguard (list_ex (\<lambda>w. w < 0) weights) (SpreadError ''Spread weights cannot be negative.'')
     (let sum = foldl (+) 0 weights in
      rguard (sum \<le> 0) (SpreadError ''Spread weights must add up to more than zero.'')
      (let shares = map (\<lambda>w. (tot * w) sdiv sum) weights;
           allocated = foldl (+) 0 shares;
           last = last_weighted weights (length weights - 1)
       in Inr (shares[last := shares ! last + (tot - allocated)])))"

text \<open>
  \<open>profileWeights\<close>: a value that is not a number or a numeric literal counts as zero.  \<open>parsed\<close>
  holds the mantissa and the scale of the others.
\<close>

definition profile_literal :: "jsval \<Rightarrow> (int \<times> int) option" where
  "profile_literal w =
     (let literal = (\<lambda>v. case parseDecimalLiteral v of Inl _ \<Rightarrow> None | Inr p \<Rightarrow> Some p) in
      case w of
        JNum n \<Rightarrow> if num_finite n then literal (NNum n) else None
      | JStr s \<Rightarrow> literal (NText s)
      | _ \<Rightarrow> None)"

definition profileWeights :: "jsval \<Rightarrow> spread_error + int list option" where
  "profileWeights raw =
     (case raw of
        JArr vs \<Rightarrow>
          if length vs \<noteq> 12 then Inr None
          else let parsed = map profile_literal vs;
                   scale = foldl max 0 (map (\<lambda>p. case p of Some (m, s) \<Rightarrow> s | None \<Rightarrow> 0) parsed);
                   weights = map (\<lambda>p. case p of Some (m, s) \<Rightarrow> m * 10 ^ nat (scale - s) | None \<Rightarrow> 0) parsed
               in rguard (list_ex (\<lambda>w. w < 0) weights)
                    (SpreadInputError ''A spread profile cannot give a month a negative weight.'')
                    (Inr (if foldl (+) 0 weights > 0 then Some weights else None))
      | _ \<Rightarrow> Inr None)"

subsection \<open>Yearly and quarterly totals over the months\<close>

definition set_amount :: "spread_measure \<Rightarrow> int \<Rightarrow> spread_row \<Rightarrow> spread_row" where
  "set_amount meas v row = row\<lparr>row_amounts := (row_amounts row)(meas := Some v)\<rparr>"

text \<open>One turn of the loop over the measures; \<open>scatter\<close> is the \<open>forEach\<close> that writes the shares.\<close>

definition spread_measure_rows ::
  "(spread_measure \<Rightarrow> int option) \<Rightarrow> bool \<Rightarrow> nat list \<Rightarrow> int list \<Rightarrow> spread_measure \<Rightarrow> spread_row list \<Rightarrow> spread_error + spread_row list" where
  "spread_measure_rows totals windowed indexes active meas rows =
     (case totals meas of
        None \<Rightarrow> Inr rows
      | Some tot \<Rightarrow>
          let cleared = (if windowed then map (set_amount meas 0) rows else rows) in
          rbind (splitTowardZero tot active) (\<lambda>shares. Inr (scatter (set_amount meas) indexes shares cleared)))"

fun spread_loop ::
  "(spread_measure \<Rightarrow> int option) \<Rightarrow> bool \<Rightarrow> nat list \<Rightarrow> int list \<Rightarrow> spread_measure list \<Rightarrow> spread_row list \<Rightarrow> spread_error + spread_row list" where
  "spread_loop totals windowed indexes active [] rows = Inr rows"
| "spread_loop totals windowed indexes active (m # ms) rows =
     rbind (spread_measure_rows totals windowed indexes active m rows) (spread_loop totals windowed indexes active ms)"

definition empty_rows :: "int \<Rightarrow> spread_row list" where
  "empty_rows year = map (\<lambda>p. \<lparr>row_period = p, row_amounts = \<lambda>_. None\<rparr>) (monthPeriods year)"

definition spreadAnnualToMonths ::
  "int \<Rightarrow> (spread_measure \<Rightarrow> int option) \<Rightarrow> int list \<Rightarrow> spread_window option \<Rightarrow> spread_error + spread_row list" where
  "spreadAnnualToMonths year totals weights window =
     rguard (length weights \<noteq> 12) (SpreadError ''A yearly spread needs twelve weights'')
     (rbind (case window of
               None \<Rightarrow> Inr [0..<length weights]
             | Some w \<Rightarrow> rbind (windowMonths year w) (\<lambda>ms. Inr (map (\<lambda>m. nat (m - 1)) ms))) (\<lambda>indexes.
      let active = map (\<lambda>i. weights ! i) indexes in
      rguard (window \<noteq> None \<and> foldl (+) 0 active \<le> 0)
        (SpreadInputError ''The spread profile gives no weight to the months of the period.'')
      (spread_loop totals (window \<noteq> None) indexes active SPREAD_MEASURES (empty_rows year))))"

datatype quarter = Q1 | Q2 | Q3 | Q4

definition QUARTERS :: "quarter list" where
  "QUARTERS = [Q1, Q2, Q3, Q4]"

fun quarter_index :: "quarter \<Rightarrow> int" where
  "quarter_index Q1 = 0" | "quarter_index Q2 = 1" | "quarter_index Q3 = 2" | "quarter_index Q4 = 3"

fun quarter_text :: "quarter \<Rightarrow> string" where
  "quarter_text Q1 = ''Q1''" | "quarter_text Q2 = ''Q2''" | "quarter_text Q3 = ''Q3''" | "quarter_text Q4 = ''Q4''"

definition amount_or_zero :: "int option \<Rightarrow> int" where
  "amount_or_zero v = (case v of None \<Rightarrow> 0 | Some x \<Rightarrow> x)"

text \<open>\<open>Math.ceil(m / 3) === q + 1\<close>: the months of a quarter.\<close>

definition in_quarter :: "quarter \<Rightarrow> int \<Rightarrow> bool" where
  "in_quarter q m \<longleftrightarrow> (m + 2) div 3 = quarter_index q + 1"

definition quarter_step :: "(quarter \<Rightarrow> int option) \<Rightarrow> int list \<Rightarrow> int list \<Rightarrow> quarter \<Rightarrow> int list \<Rightarrow> spread_error + int list" where
  "quarter_step quarters weights months q shares =
     (let tot = amount_or_zero (quarters q);
          inQuarter = filter (in_quarter q) months
      in if inQuarter = []
         then rguard (tot \<noteq> 0)
                (SpreadInputError (quarter_text q @ '' has an amount, but no month of '' @ quarter_text q @ '' is in the period.''))
                (Inr shares)
         else rbind (splitTowardZero tot (map (\<lambda>m. weights ! nat ((m - 1) mod 3)) inQuarter))
                (\<lambda>split. Inr (scatter (\<lambda>v _. v) (map (\<lambda>m. nat (m - 1)) inQuarter) split shares)))"

fun quarter_loop :: "(quarter \<Rightarrow> int option) \<Rightarrow> int list \<Rightarrow> int list \<Rightarrow> quarter list \<Rightarrow> int list \<Rightarrow> spread_error + int list" where
  "quarter_loop quarters weights months [] shares = Inr shares"
| "quarter_loop quarters weights months (q # qs) shares =
     rbind (quarter_step quarters weights months q shares) (quarter_loop quarters weights months qs)"

definition rows_of_shares :: "int \<Rightarrow> spread_measure \<Rightarrow> int list \<Rightarrow> spread_row list" where
  "rows_of_shares year meas shares =
     map (\<lambda>(p, v). \<lparr>row_period = p, row_amounts = (\<lambda>_. None)(meas := Some v)\<rparr>) (zip (monthPeriods year) shares)"

definition spreadQuarterlyToMonths ::
  "int \<Rightarrow> spread_measure \<Rightarrow> (quarter \<Rightarrow> int option) \<Rightarrow> distribution \<Rightarrow> spread_window option \<Rightarrow> spread_error + spread_row list" where
  "spreadQuarterlyToMonths year meas quarters distribution window =
     (let weights = QUARTER_WEIGHTS distribution in
      case window of
        None \<Rightarrow>
          rbind (rmap (\<lambda>q. splitTowardZero (amount_or_zero (quarters q)) weights) QUARTERS)
            (\<lambda>shares. Inr (rows_of_shares year meas (concat shares)))
      | Some w \<Rightarrow>
          rbind (windowMonths year w) (\<lambda>months.
          rbind (quarter_loop quarters weights months QUARTERS (replicate 12 0)) (\<lambda>shares.
          Inr (rows_of_shares year meas shares))))"

subsection \<open>The contract of a split\<close>

text \<open>
  What a splitter promises for weights that are not negative and add up to more than zero: one share
  per weight, of the sign of the total or zero, nothing for a zero weight, the total exactly.
\<close>

definition usable_weights :: "int list \<Rightarrow> bool" where
  "usable_weights ws \<longleftrightarrow> list_all (\<lambda>w. 0 \<le> w) ws \<and> 0 < sum_list ws"

definition same_side :: "int \<Rightarrow> int \<Rightarrow> bool" where
  "same_side t s \<longleftrightarrow> (0 \<le> t \<longrightarrow> 0 \<le> s) \<and> (t \<le> 0 \<longrightarrow> s \<le> 0)"

definition exact_split :: "int \<Rightarrow> int list \<Rightarrow> int list \<Rightarrow> bool" where
  "exact_split t ws ss \<longleftrightarrow>
     length ss = length ws \<and> sum_list ss = t
     \<and> (\<forall>i < length ws. same_side t (ss ! i) \<and> (ws ! i = 0 \<longrightarrow> ss ! i = 0))"

lemma same_side_0 [simp]: "same_side t 0" "same_side 0 s \<longleftrightarrow> s = 0"
  by (auto simp: same_side_def)

locale splitter =
  fixes split :: "int \<Rightarrow> int list \<Rightarrow> 'e + int list"
  assumes split_total: "usable_weights ws \<Longrightarrow> \<exists>ss. split t ws = Inr ss"
    and split_sound: "split t ws = Inr ss \<Longrightarrow> usable_weights ws \<and> exact_split t ws ss"
begin

lemma split_iff: "(\<exists>ss. split t ws = Inr ss) \<longleftrightarrow> usable_weights ws"
  using split_total split_sound by blast

lemma split_length: "split t ws = Inr ss \<Longrightarrow> length ss = length ws"
  using split_sound by (auto simp: exact_split_def)

lemma split_sum: "split t ws = Inr ss \<Longrightarrow> sum_list ss = t"
  using split_sound by (auto simp: exact_split_def)

lemma split_sign: "split t ws = Inr ss \<Longrightarrow> s \<in> set ss \<Longrightarrow> same_side t s"
  using split_sound by (fastforce simp: exact_split_def in_set_conv_nth)

text \<open>Shares written to distinct places add their total to what was there.\<close>

lemma scatter_split_sum:
  assumes "split t (map w is) = Inr ss" "distinct is" "set is \<subseteq> {..<length base}" "\<forall>i\<in>set is. base ! i = 0"
  shows "sum_list (scatter (\<lambda>v _. v) is ss base) = sum_list base + t"
  using assms by (simp add: scatter_sum split_length [OF assms(1)] split_sum [OF assms(1)])

lemma scatter_split_nth:
  assumes "split t (map w is) = Inr ss" "distinct is" "set is \<subseteq> {..<length base}"
  shows "k \<notin> set is \<Longrightarrow> scatter (\<lambda>v _. v) is ss base ! k = base ! k"
    and "k \<in> set is \<Longrightarrow> same_side t (scatter (\<lambda>v _. v) is ss base ! k)"
    and "k \<in> set is \<Longrightarrow> w k = 0 \<Longrightarrow> scatter (\<lambda>v _. v) is ss base ! k = 0"
proof -
  have len: "length ss = length is" using split_length [OF assms(1)] by simp
  note n = scatter_nth [OF assms(2) len assms(3), of "\<lambda>v _. v" k]
  show "k \<notin> set is \<Longrightarrow> scatter (\<lambda>v _. v) is ss base ! k = base ! k"
    using len by (auto simp: n map_of_eq_None_iff split: option.split dest: map_of_SomeD set_zip_leftD)
  show "k \<in> set is \<Longrightarrow> same_side t (scatter (\<lambda>v _. v) is ss base ! k)"
  proof -
    assume "k \<in> set is"
    with len obtain v where v: "map_of (zip is ss) k = Some v"
      by (metis map_of_zip_is_Some)
    then have "v \<in> set ss" by (auto dest: map_of_SomeD set_zip_rightD)
    with split_sign [OF assms(1)] v show ?thesis by (simp add: n)
  qed
  show "scatter (\<lambda>v _. v) is ss base ! k = 0" if k: "k \<in> set is" "w k = 0"
  proof -
    from k len obtain v where v: "map_of (zip is ss) k = Some v"
      by (metis map_of_zip_is_Some)
    then obtain j where "j < length is" "is ! j = k" "ss ! j = v"
      by (auto dest!: map_of_SomeD simp: in_set_zip)
    moreover have "exact_split t (map w is) ss" using split_sound [OF assms(1)] by simp
    ultimately have "v = 0" using k(2) by (auto simp: exact_split_def)
    with v show ?thesis by (simp add: n)
  qed
qed

end

subsection \<open>\<open>splitTowardZero\<close> is such a split\<close>

lemma last_weighted:
  "\<exists>i\<le>n. ws ! i \<noteq> 0 \<Longrightarrow>
     last_weighted ws n \<le> n \<and> ws ! last_weighted ws n \<noteq> 0 \<and> (\<forall>i. last_weighted ws n < i \<and> i \<le> n \<longrightarrow> ws ! i = 0)"
proof (induction n)
  case (Suc n)
  show ?case
  proof (cases "ws ! Suc n = 0")
    case True
    then have "\<exists>i\<le>n. ws ! i \<noteq> 0" using Suc.prems by (metis le_Suc_eq)
    with Suc.IH True show ?thesis by (auto simp: le_Suc_eq)
  qed simp
qed auto

lemma truncated_share:
  fixes t w s :: int
  assumes "0 \<le> w" "0 < s"
  shows "(t * w) sdiv s = sgn t * ((\<bar>t\<bar> * w) div s)"
  using assms by (cases "w = 0") (simp_all add: signed_divide_int_def sgn_mult abs_mult)

text \<open>The magnitudes of the shares before the rest is given to the last weighted one.\<close>

lemma floor_sum_bounds:
  fixes a s :: int
  assumes "0 < s"
  shows "s * sum_list (map (\<lambda>w. (a * w) div s) ws) \<le> a * sum_list ws"
    and "a * sum_list ws \<le> s * sum_list (map (\<lambda>w. (a * w) div s) ws) + int (length ws) * (s - 1)"
proof -
  define g where "g = (\<lambda>w. (a * w) div s)"
  have g: "s * g w \<le> a * w" "a * w \<le> s * g w + (s - 1)" for w
    using div_bounds [OF assms(1), of "a * w"] by (simp_all add: g_def)
  have "s * sum_list (map g ws) \<le> a * sum_list ws \<and> a * sum_list ws \<le> s * sum_list (map g ws) + int (length ws) * (s - 1)"
  proof (induction ws)
    case (Cons w ws)
    have e: "s * sum_list (map g (w # ws)) = s * g w + s * sum_list (map g ws)"
      "a * sum_list (w # ws) = a * w + a * sum_list ws"
      "int (length (w # ws)) * (s - 1) = (s - 1) + int (length ws) * (s - 1)"
      by (simp_all add: distrib_left distrib_right)
    show ?case unfolding e using Cons.IH g [of w] by linarith
  qed simp
  then show "s * sum_list (map (\<lambda>w. (a * w) div s) ws) \<le> a * sum_list ws"
    and "a * sum_list ws \<le> s * sum_list (map (\<lambda>w. (a * w) div s) ws) + int (length ws) * (s - 1)"
    by (simp_all add: g_def)
qed

lemma usable_some_weight: "usable_weights ws \<Longrightarrow> ws \<noteq> [] \<and> (\<exists>i\<le>length ws - 1. ws ! i \<noteq> 0)"
proof -
  assume u: "usable_weights ws"
  then have "ws \<noteq> []" by (auto simp: usable_weights_def)
  moreover have "\<exists>w\<in>set ws. w \<noteq> 0"
  proof (rule ccontr)
    assume "\<not> (\<exists>w\<in>set ws. w \<noteq> 0)"
    then have "map (\<lambda>w. w) ws = map (\<lambda>w. 0) ws" by (intro map_cong) simp_all
    then have "sum_list ws = 0" by (metis list.map_ident sum_list_0)
    with u show False by (simp add: usable_weights_def)
  qed
  then have "\<exists>i<length ws. ws ! i \<noteq> 0" by (auto simp: in_set_conv_nth)
  ultimately show ?thesis by (metis One_nat_def Suc_pred length_greater_0_conv less_Suc_eq_le)
qed

definition split_share :: "int \<Rightarrow> int list \<Rightarrow> nat \<Rightarrow> int" where
  "split_share t ws i =
     (let a = \<lambda>w. (\<bar>t\<bar> * w) div sum_list ws in
      sgn t * (a (ws ! i) + (if i = last_weighted ws (length ws - 1) then \<bar>t\<bar> - sum_list (map a ws) else 0)))"

lemma splitTowardZero_eq:
  assumes "usable_weights ws"
  shows "splitTowardZero t ws = Inr (map (split_share t ws) [0..<length ws])"
proof -
  define a where "a = (\<lambda>w. (\<bar>t\<bar> * w) div sum_list ws)"
  define l where "l = last_weighted ws (length ws - 1)"
  have nn: "list_all (\<lambda>w. 0 \<le> w) ws" "0 < sum_list ws" using assms(1) by (simp_all add: usable_weights_def)
  have l: "l < length ws"
    using last_weighted [of "length ws - 1" ws] usable_some_weight [OF assms(1)] unfolding l_def
    by (metis One_nat_def Suc_pred length_greater_0_conv less_Suc_eq_le)
  have shares: "map (\<lambda>w. (t * w) sdiv sum_list ws) ws = map (\<lambda>w. sgn t * a w) ws"
    using nn by (simp add: a_def truncated_share list_all_iff)
  have shl: "(t * ws ! l) sdiv sum_list ws = sgn t * a (ws ! l)"
    using nn l by (simp add: a_def truncated_share list_all_length)
  have sum: "sum_list (map (\<lambda>w. sgn t * a w) ws) = sgn t * sum_list (map a ws)"
    by (simp add: sum_list_const_mult)
  have t: "t = sgn t * \<bar>t\<bar>" by (simp add: sgn_mult_abs)
  have "\<not> list_ex (\<lambda>w. w < 0) ws" using nn(1) by (auto simp: list_ex_iff list_all_iff)
  then have "splitTowardZero t ws =
      Inr ((map (\<lambda>w. sgn t * a w) ws)[l := sgn t * a (ws ! l) + (t - sgn t * sum_list (map a ws))])"
    using nn(2) l by (simp add: splitTowardZero_def Let_def foldl_plus shares shl sum l_def [symmetric, simplified])
  also have "sgn t * a (ws ! l) + (t - sgn t * sum_list (map a ws)) = sgn t * (a (ws ! l) + (\<bar>t\<bar> - sum_list (map a ws)))"
    by (subst (2) t) (simp add: algebra_simps)
  also have "(map (\<lambda>w. sgn t * a w) ws)[l := sgn t * (a (ws ! l) + (\<bar>t\<bar> - sum_list (map a ws)))]
      = map (split_share t ws) [0..<length ws]"
    by (rule nth_equalityI) (auto simp: nth_list_update l split_share_def a_def l_def)
  finally show ?thesis .
qed

lemma splitTowardZero_usable: "splitTowardZero t ws = Inr ss \<Longrightarrow> usable_weights ws"
  by (auto simp: splitTowardZero_def Let_def rguard_eq_Inr foldl_plus usable_weights_def list_ex_iff list_all_iff not_less)

lemma splitTowardZero_exact:
  assumes "usable_weights ws" "splitTowardZero t ws = Inr ss"
  shows "exact_split t ws ss"
proof -
  define s where "s = sum_list ws"
  define a where "a = (\<lambda>w. (\<bar>t\<bar> * w) div s)"
  define l where "l = last_weighted ws (length ws - 1)"
  have nn: "list_all (\<lambda>w. 0 \<le> w) ws" "0 < s" using assms(1) by (simp_all add: usable_weights_def s_def)
  have l: "l < length ws" "ws ! l \<noteq> 0"
    using last_weighted [of "length ws - 1" ws] usable_some_weight [OF assms(1)] unfolding l_def
    by (metis One_nat_def Suc_pred length_greater_0_conv less_Suc_eq_le)+
  have share: "split_share t ws i = sgn t * (a (ws ! i) + (if i = l then \<bar>t\<bar> - sum_list (map a ws) else 0))" for i
    by (simp add: split_share_def a_def l_def s_def Let_def)
  have ss: "ss = map (split_share t ws) [0..<length ws]"
    using splitTowardZero_eq [OF assms(1), of t] assms(2) by simp
  have "s * sum_list (map a ws) \<le> \<bar>t\<bar> * s"
    using floor_sum_bounds(1) [OF nn(2), of "\<bar>t\<bar>" ws] by (simp add: a_def s_def)
  then have A: "sum_list (map a ws) \<le> \<bar>t\<bar>" using nn(2) by (simp add: mult.commute)
  have a0: "0 \<le> a (ws ! i)" if "i < length ws" for i
    using that nn by (simp add: a_def list_all_length pos_imp_zdiv_nonneg_iff)
  have "ss = map (\<lambda>x. sgn t * x) ((map a ws)[l := a (ws ! l) + (\<bar>t\<bar> - sum_list (map a ws))])"
    unfolding ss by (rule nth_equalityI) (auto simp: share nth_list_update l)
  then have "sum_list ss = sgn t * \<bar>t\<bar>"
    using l by (simp add: sum_list_const_mult sum_list_update_group del: map_update)
  then have sum: "sum_list ss = t" by (simp add: sgn_mult_abs)
  have side: "same_side t (ss ! i)" if "i < length ws" for i
    using that a0 [OF that] a0 [OF l(1)] A by (auto simp: ss share same_side_def sgn_if)
  have "ws ! i = 0 \<longrightarrow> ss ! i = 0" if "i < length ws" for i
    using that l by (auto simp: ss share a_def)
  with side sum show ?thesis by (simp add: exact_split_def ss)
qed

interpretation toward_zero: splitter splitTowardZero
proof
  show "usable_weights ws \<Longrightarrow> \<exists>ss. splitTowardZero t ws = Inr ss" for t ws
    using splitTowardZero_eq by blast
  show "splitTowardZero t ws = Inr ss \<Longrightarrow> usable_weights ws \<and> exact_split t ws ss" for t ws ss
    using splitTowardZero_usable splitTowardZero_exact by blast
qed

subsection \<open>The months of a period\<close>

lemma MONTHS_props [simp]: "length MONTHS = 12" "distinct MONTHS" "set MONTHS \<subseteq> {1..12}"
  by (simp_all add: MONTHS_def)

lemma sorted_MONTHS: "sorted MONTHS"
  by (simp add: MONTHS_def)

lemma month_date_iso:
  assumes "1000 \<le> y" "y < 10000" "0 \<le> m"
  shows "month_date y m (two_digits d) = iso_date y m d"
proof -
  have "pad_start 4 (CHR ''0'') (show_nat (nat y)) = show_nat (nat y)"
    using pad_show_exact [of 3 "nat y"] assms by (simp add: nat_less_iff le_nat_iff)
  with assms show ?thesis
    by (simp add: month_date_def iso_date_def show_int_def two_digits_def)
qed

lemma two_digits_const: "two_digits 1 = ''01''" "two_digits 15 = ''15''" "two_digits 31 = ''31''"
  by code_simp+

lemma ISO_DATE_iso:
  assumes "0 \<le> y" "y < 10000" "0 \<le> m" "m < 100" "0 \<le> d" "d < 100"
  shows "ISO_DATE (iso_date y m d) = Some (y, m, d)"
proof -
  have l: "length (pad_start 4 (CHR ''0'') (show_nat (nat y))) = 4" "length (two_digits m) = 2" "length (two_digits d) = 2"
    using assms by (simp_all add: year_digits two_digits_length)
  define ys ms ds where "ys = pad_start 4 (CHR ''0'') (show_nat (nat y))" and "ms = two_digits m" and "ds = two_digits d"
  note l' = l [folded ys_def ms_def ds_def]
  have e: "iso_date y m d = ys @ CHR ''-'' # ms @ CHR ''-'' # ds" by (simp add: iso_date_def ys_def ms_def ds_def)
  have t: "take 4 (iso_date y m d) = ys" "take 2 (drop 5 (iso_date y m d)) = ms" "drop 8 (iso_date y m d) = ds"
    "iso_date y m d ! 4 = CHR ''-''" "iso_date y m d ! 7 = CHR ''-''" "length (iso_date y m d) = 10"
    unfolding e using l' by (simp_all add: nth_append)
  have "all_digits ys" "all_digits ms" "all_digits ds" by (simp_all add: ys_def ms_def ds_def)
  moreover have "nat_of_digits ys = nat y" "nat_of_digits ms = nat m" "nat_of_digits ds = nat d"
    by (simp_all add: ys_def ms_def ds_def)
  ultimately show ?thesis using assms by (simp add: ISO_DATE_def Let_def t)
qed

lemma ISO_DATE_form:
  assumes "ISO_DATE s = Some (y, m, d)"
  shows "s = iso_date y m d \<and> 0 \<le> y \<and> y < 10000 \<and> 0 \<le> m \<and> m < 100 \<and> 0 \<le> d \<and> d < 100"
proof -
  define ys ms ds where "ys = take 4 s" and "ms = take 2 (drop 5 s)" and "ds = drop 8 s"
  have a: "length s = 10" "all_digits ys" "s ! 4 = CHR ''-''" "all_digits ms" "s ! 7 = CHR ''-''" "all_digits ds"
    "y = int (nat_of_digits ys)" "m = int (nat_of_digits ms)" "d = int (nat_of_digits ds)"
    using assms by (auto simp: ISO_DATE_def Let_def ys_def ms_def ds_def split: if_splits)
  have l: "length ys = 4" "length ms = 2" "length ds = 2" using a(1) by (simp_all add: ys_def ms_def ds_def)
  have "s = take 4 s @ [s ! 4] @ take 2 (drop 5 s) @ [s ! 7] @ drop 8 s"
  proof -
    have "s = take 4 s @ drop 4 s" by simp
    also have "drop 4 s = s ! 4 # drop 5 s" using a(1) by (simp add: Cons_nth_drop_Suc [symmetric])
    also have "drop 5 s = take 2 (drop 5 s) @ drop 2 (drop 5 s)" by (simp only: append_take_drop_id)
    also have "drop 2 (drop 5 s) = drop 7 s" by simp
    also have "drop 7 s = s ! 7 # drop 8 s" using a(1) by (simp add: Cons_nth_drop_Suc [symmetric])
    finally show ?thesis by simp
  qed
  then have s: "s = ys @ CHR ''-'' # ms @ CHR ''-'' # ds" using a by (simp add: ys_def ms_def ds_def)
  have pad: "pad_start k (CHR ''0'') (show_nat (nat_of_digits t)) = t" if "all_digits t" "length t = k" "0 < k" for t k
  proof -
    have "nat_of_digits t < 10 ^ k" using nat_of_digits_less [OF that(1)] that(2) by simp
    then have "length (pad_start k (CHR ''0'') (show_nat (nat_of_digits t))) = length t"
      using that by (simp add: pad_show_length)
    then show ?thesis using that(1) by (subst digits_eq_iff) simp_all
  qed
  have "nat_of_digits ys < 10 ^ 4" "nat_of_digits ms < 10 ^ 2" "nat_of_digits ds < 10 ^ 2"
    using nat_of_digits_less a(2,4,6) l by metis+
  then show ?thesis
    using a(7-9) l pad a(2,4,6) by (simp add: s iso_date_def two_digits_def)
qed

lemma iso_date_trim:
  assumes "0 \<le> y" "y < 10000" "0 \<le> m" "m < 100" "0 \<le> d" "d < 100"
  shows "js_trim (iso_date y m d) = iso_date y m d"
proof (rule js_trim_id)
  have "list_all plain_char (iso_date y m d)"
    by (simp add: iso_date_def plain_digits) (simp add: plain_char_def)
  then show "list_all (\<lambda>c. \<not> js_space c) (iso_date y m d)"
    unfolding list_all_iff using plain_char_props by blast
qed

text \<open>The real days of a year of four digits are what a bound may be.\<close>

lemma assertDateInYear_iff:
  assumes "1000 \<le> year" "year < 10000"
  shows "assertDateInYear s year label = Inr t \<longleftrightarrow>
    (\<exists>m d. valid_date year m d \<and> js_trim s = iso_date year m d \<and> t = js_trim s)"
proof
  assume a: "assertDateInYear s year label = Inr t"
  obtain y m d where I: "ISO_DATE (js_trim s) = Some (y, m, d)"
    using a by (cases "ISO_DATE (js_trim s)") (auto simp: assertDateInYear_def Let_def rguard_eq_Inr)
  with a have b: "y = year" "t = js_trim s" "year_from_day (date_utc y (m - 1) d) = y"
    "month_from_day (date_utc y (m - 1) d) = m" "date_from_day (date_utc y (m - 1) d) = d"
    by (auto simp add: assertDateInYear_def Let_def rguard_eq_Inr)
  with assms make_day_roundtrip_iff [of year m d] have "valid_date year m d" by simp
  with ISO_DATE_form [OF I] b show "\<exists>m d. valid_date year m d \<and> js_trim s = iso_date year m d \<and> t = js_trim s"
    by blast
next
  assume "\<exists>m d. valid_date year m d \<and> js_trim s = iso_date year m d \<and> t = js_trim s"
  then obtain m d where v: "valid_date year m d" "js_trim s = iso_date year m d" "t = js_trim s" by blast
  have "ISO_DATE (js_trim s) = Some (year, m, d)"
    unfolding v(2) by (rule ISO_DATE_iso) (use assms valid_date_bounds [OF v(1)] in simp_all)
  moreover have "date_utc year (m - 1) d = make_day year (m - 1) d" using assms by simp
  ultimately show "assertDateInYear s year label = Inr t"
    using v make_day_getters [OF v(1)] by (simp add: assertDateInYear_def Let_def rguard_eq_Inr)
qed

lemma assertDateInYear_iso:
  assumes "1000 \<le> year" "year < 10000" "valid_date year m d"
  shows "assertDateInYear (iso_date year m d) year label = Inr (iso_date year m d)"
proof -
  have "js_trim (iso_date year m d) = iso_date year m d"
    by (rule iso_date_trim) (use assms(1,2) valid_date_bounds [OF assms(3)] in simp_all)
  with assms show ?thesis by (auto simp: assertDateInYear_iff)
qed

lemma valid_fifteenth: "1 \<le> m \<Longrightarrow> m \<le> 12 \<Longrightarrow> valid_date y m 15"
  using month_days_range [of m y] by (simp add: valid_date_def)

text \<open>A bound as the code reads it: its day, with the first and the last day of the year for a missing one.\<close>

definition bound_day :: "int \<Rightarrow> int \<Rightarrow> int \<Rightarrow> string option \<Rightarrow> int \<Rightarrow> bool" where
  "bound_day year dm dd b t \<longleftrightarrow>
     (case b of
        None \<Rightarrow> t = make_day year (dm - 1) dd
      | Some s \<Rightarrow> \<exists>m d. valid_date year m d \<and> js_trim s = iso_date year m d \<and> t = make_day year (m - 1) d)"

lemma activeMonths_iff:
  assumes "1000 \<le> year" "year < 10000"
  shows "activeMonths year start end' = Inr ms \<longleftrightarrow>
    (\<exists>a b. bound_day year 1 1 start a \<and> bound_day year 12 31 end' b \<and> a \<le> b
       \<and> ms = filter (\<lambda>m. a \<le> make_day year (m - 1) 15 \<and> make_day year (m - 1) 15 \<le> b) MONTHS)"
proof -
  define D where "D = (\<lambda>dm dd b. (case b of None \<Rightarrow> Inr (month_date year dm (two_digits dd)) | Some s \<Rightarrow> assertDateInYear s year (if dm = 1 then ''start'' else ''end'')))"
  have jan: "valid_date year 1 1" "valid_date year 12 31" by (simp_all add: valid_date_def month_days_def)
  have bound: "D dm dd b = Inr t \<longleftrightarrow>
      (\<exists>m d. valid_date year m d \<and> t = iso_date year m d \<and> bound_day year dm dd b (make_day year (m - 1) d))"
    if v: "valid_date year dm dd" for dm dd b t
  proof (cases b)
    case None
    have "month_date year dm (two_digits dd) = iso_date year dm dd"
      using assms valid_date_bounds [OF v] by (simp add: month_date_iso)
    moreover have "make_day year (m - 1) d = make_day year (dm - 1) dd \<longleftrightarrow> m = dm \<and> d = dd" if "valid_date year m d" for m d
      using make_day_getters [OF v] make_day_getters [OF that] by metis
    ultimately show ?thesis using None v by (auto simp: D_def bound_day_def)
  next
    case (Some s)
    have same: "m = m' \<and> d = d'" if "valid_date year m d" "valid_date year m' d'"
      "make_day year (m - 1) d = make_day year (m' - 1) d'" for m d m' d'
      using make_day_getters [OF that(1)] make_day_getters [OF that(2)] that(3) by metis
    show ?thesis unfolding Some D_def
      by (simp add: assertDateInYear_iff [OF assms] bound_day_def) (metis same)
  qed
  have fif: "iso_date year m1 d1 \<le> month_date year m ''15'' \<longleftrightarrow> make_day year (m1 - 1) d1 \<le> make_day year (m - 1) 15"
    "month_date year m ''15'' \<le> iso_date year m1 d1 \<longleftrightarrow> make_day year (m - 1) 15 \<le> make_day year (m1 - 1) d1"
    if v: "valid_date year m1 d1" and m: "m \<in> set MONTHS" for m1 d1 m
  proof -
    have m': "1 \<le> m" "m \<le> 12" using subsetD [OF MONTHS_props(3) m] by simp_all
    have "month_date year m ''15'' = iso_date year m 15"
      using month_date_iso [of year m 15] assms m' by (simp add: two_digits_const)
    with iso_date_day_le [OF v valid_fifteenth [OF m', of year]] iso_date_day_le [OF valid_fifteenth [OF m', of year] v]
    show "iso_date year m1 d1 \<le> month_date year m ''15'' \<longleftrightarrow> make_day year (m1 - 1) d1 \<le> make_day year (m - 1) 15"
      "month_date year m ''15'' \<le> iso_date year m1 d1 \<longleftrightarrow> make_day year (m - 1) 15 \<le> make_day year (m1 - 1) d1"
      using assms by simp_all
  qed
  have filt: "filter (\<lambda>m. month_date year m ''15'' \<ge> iso_date year m1 d1 \<and> month_date year m ''15'' \<le> iso_date year m2 d2) MONTHS
      = filter (\<lambda>m. make_day year (m1 - 1) d1 \<le> make_day year (m - 1) 15 \<and> make_day year (m - 1) 15 \<le> make_day year (m2 - 1) d2) MONTHS"
    if "valid_date year m1 d1" "valid_date year m2 d2" for m1 d1 m2 d2
    using fif [OF that(1)] fif [OF that(2)] by (intro filter_cong) simp_all
  have act: "activeMonths year start end' = Inr ms \<longleftrightarrow>
      (\<exists>f t. D 1 1 start = Inr f \<and> D 12 31 end' = Inr t \<and> \<not> f > t
         \<and> ms = filter (\<lambda>m. month_date year m ''15'' \<ge> f \<and> month_date year m ''15'' \<le> t) MONTHS)"
    by (auto simp: activeMonths_def D_def result_simps two_digits_const Let_def)
  have has_day: "\<exists>m d. valid_date year m d \<and> t = make_day year (m - 1) d" if "bound_day year dm dd b t" "valid_date year dm dd" for dm dd b t
    using that by (auto simp: bound_day_def split: option.splits)
  show ?thesis (is "?L \<longleftrightarrow> ?R")
  proof
    assume ?L
    then obtain m1 d1 m2 d2 where v: "valid_date year m1 d1" "bound_day year 1 1 start (make_day year (m1 - 1) d1)"
      "valid_date year m2 d2" "bound_day year 12 31 end' (make_day year (m2 - 1) d2)"
      and le: "\<not> iso_date year m1 d1 > iso_date year m2 d2"
      and ms: "ms = filter (\<lambda>m. month_date year m ''15'' \<ge> iso_date year m1 d1 \<and> month_date year m ''15'' \<le> iso_date year m2 d2) MONTHS"
      unfolding act bound [OF jan(1)] bound [OF jan(2)] by blast
    have "make_day year (m1 - 1) d1 \<le> make_day year (m2 - 1) d2"
      using le iso_date_day_le [OF v(1,3)] assms by (simp add: not_less)
    with v(2,4) trans [OF ms filt [OF v(1,3)]] show ?R by blast
  next
    assume ?R
    then obtain a b where ab: "bound_day year 1 1 start a" "bound_day year 12 31 end' b" "a \<le> b"
      and ms: "ms = filter (\<lambda>m. a \<le> make_day year (m - 1) 15 \<and> make_day year (m - 1) 15 \<le> b) MONTHS" by blast
    from has_day [OF ab(1) jan(1)] has_day [OF ab(2) jan(2)] obtain m1 d1 m2 d2
      where v: "valid_date year m1 d1" "a = make_day year (m1 - 1) d1" "valid_date year m2 d2" "b = make_day year (m2 - 1) d2" by blast
    have "\<not> iso_date year m1 d1 > iso_date year m2 d2"
      using iso_date_day_le [OF v(1,3)] assms ab(3) v by (simp add: not_less)
    moreover have "ms = filter (\<lambda>m. month_date year m ''15'' \<ge> iso_date year m1 d1 \<and> month_date year m ''15'' \<le> iso_date year m2 d2) MONTHS"
      unfolding filt [OF v(1,3)] using ms v by simp
    moreover have "D 1 1 start = Inr (iso_date year m1 d1)" "D 12 31 end' = Inr (iso_date year m2 d2)"
      unfolding bound [OF jan(1)] bound [OF jan(2)] using v ab by blast+
    ultimately show ?L unfolding act by blast
  qed
qed

text \<open>For a year of four digits, the active months are those whose 15th lies between the two bounds,
  both included; the call is refused unless both bounds are real days of the year, in order.\<close>

theorem activeMonths_correct:
  assumes "1000 \<le> year" "year < 10000"
  shows "activeMonths year start end' = Inr ms \<longleftrightarrow>
    (\<exists>a b. bound_day year 1 1 start a \<and> bound_day year 12 31 end' b \<and> a \<le> b
       \<and> ms = filter (\<lambda>m. a \<le> make_day year (m - 1) 15 \<and> make_day year (m - 1) 15 \<le> b) MONTHS)"
  by (rule activeMonths_iff [OF assms])

lemma activeMonths_correct_witness:
  "activeMonths 2024 (Some ''2024-02-15'') None = Inr [2, 3, 4, 5, 6, 7, 8, 9, 10, 11, 12]"
proof (subst activeMonths_correct)
  have v: "valid_date 2024 2 15" "js_trim ''2024-02-15'' = iso_date 2024 2 15" by code_simp+
  have f: "[2, 3, 4, 5, 6, 7, 8, 9, 10, 11, 12] = filter (\<lambda>m. make_day 2024 (2 - 1) 15 \<le> make_day 2024 (m - 1) 15
      \<and> make_day 2024 (m - 1) 15 \<le> make_day 2024 (12 - 1) 31) MONTHS" "make_day 2024 (2 - 1) 15 \<le> make_day 2024 (12 - 1) 31"
    by code_simp+
  have "bound_day 2024 1 1 (Some ''2024-02-15'') (make_day 2024 (2 - 1) 15)" "bound_day 2024 12 31 None (make_day 2024 (12 - 1) 31)"
    unfolding bound_day_def option.case using v by blast+
  with f show "\<exists>a b. bound_day 2024 1 1 (Some ''2024-02-15'') a \<and> bound_day 2024 12 31 None b \<and> a \<le> b
       \<and> [2, 3, 4, 5, 6, 7, 8, 9, 10, 11, 12] = filter (\<lambda>m. a \<le> make_day 2024 (m - 1) 15 \<and> make_day 2024 (m - 1) 15 \<le> b) MONTHS"
    by blast
qed simp_all

subsection \<open>Yearly and quarterly spreads\<close>

lemma windowMonths_months: "windowMonths year w = Inr ms \<Longrightarrow> ms \<noteq> [] \<and> (\<exists>P. ms = filter P MONTHS)"
  by (auto simp: windowMonths_def activeMonths_def result_simps)

definition column :: "spread_measure \<Rightarrow> spread_row list \<Rightarrow> int option list" where
  "column meas rows = map (\<lambda>r. row_amounts r meas) rows"

text \<open>What one measure's turn leaves in the rows.\<close>

lemma spread_measure_rows_column:
  assumes "usable_weights active" "length active = length idx" "set idx \<subseteq> {..<length rows}"
  shows "\<exists>rows'. spread_measure_rows totals windowed idx active meas rows = Inr rows'
    \<and> map row_period rows' = map row_period rows
    \<and> (\<forall>m. m \<noteq> meas \<longrightarrow> column m rows' = column m rows)
    \<and> (totals meas = None \<longrightarrow> rows' = rows)
    \<and> (\<forall>t. totals meas = Some t \<longrightarrow> (\<exists>ss. splitTowardZero t active = Inr ss
         \<and> column meas rows' = scatter (\<lambda>v _. Some v) idx ss (if windowed then map (\<lambda>_. Some 0) rows else column meas rows)))"
proof (cases "totals meas")
  case None
  then show ?thesis by (simp add: spread_measure_rows_def)
next
  case (Some t)
  obtain ss where ss: "splitTowardZero t active = Inr ss" using toward_zero.split_total [OF assms(1)] by blast
  define cleared where "cleared = (if windowed then map (set_amount meas 0) rows else rows)"
  define rows' where "rows' = scatter (set_amount meas) idx ss cleared"
  have len: "length cleared = length rows" by (simp add: cleared_def)
  have sub: "set idx \<subseteq> {..<length cleared}" using assms(3) len by simp
  have p: "map row_period cleared = map row_period rows" by (simp add: cleared_def set_amount_def)
  have c: "column m cleared = column m rows" if "m \<noteq> meas" for m
    using that by (simp add: cleared_def column_def set_amount_def)
  have cm: "column meas cleared = (if windowed then map (\<lambda>_. Some 0) rows else column meas rows)"
    by (simp add: cleared_def column_def set_amount_def)
  have "map row_period rows' = map row_period rows"
    unfolding rows'_def p [symmetric] by (rule scatter_keep [OF _ sub]) (simp add: set_amount_def)
  moreover have "column m rows' = column m rows" if "m \<noteq> meas" for m
    unfolding c [OF that, symmetric] unfolding column_def rows'_def
    by (rule scatter_keep [OF _ sub]) (simp add: set_amount_def that)
  moreover have "column meas rows' = scatter (\<lambda>v _. Some v) idx ss (column meas cleared)"
    unfolding column_def rows'_def by (rule scatter_map [OF _ sub]) (simp add: set_amount_def)
  moreover have "spread_measure_rows totals windowed idx active meas rows = Inr rows'"
    by (simp add: spread_measure_rows_def Some ss rows'_def cleared_def)
  ultimately show ?thesis using ss Some cm by auto
qed

lemma spread_loop_column:
  assumes "usable_weights active" "length active = length idx" "set idx \<subseteq> {..<length rows}" "distinct ms"
  shows "\<exists>rows'. spread_loop totals windowed idx active ms rows = Inr rows'
    \<and> map row_period rows' = map row_period rows
    \<and> (\<forall>m. m \<notin> set ms \<or> totals m = None \<longrightarrow> column m rows' = column m rows)
    \<and> (\<forall>m t. m \<in> set ms \<longrightarrow> totals m = Some t \<longrightarrow> (\<exists>ss. splitTowardZero t active = Inr ss
         \<and> column m rows' = scatter (\<lambda>v _. Some v) idx ss (if windowed then map (\<lambda>_. Some 0) rows else column m rows)))"
  using assms(3,4)
proof (induction ms arbitrary: rows)
  case (Cons m ms)
  obtain r where R: "spread_measure_rows totals windowed idx active m rows = Inr r
    \<and> map row_period r = map row_period rows
    \<and> (\<forall>m'. m' \<noteq> m \<longrightarrow> column m' r = column m' rows)
    \<and> (totals m = None \<longrightarrow> r = rows)
    \<and> (\<forall>t. totals m = Some t \<longrightarrow> (\<exists>ss. splitTowardZero t active = Inr ss
         \<and> column m r = scatter (\<lambda>v _. Some v) idx ss (if windowed then map (\<lambda>_. Some 0) rows else column m rows)))"
    using spread_measure_rows_column [OF assms(1,2) Cons.prems(1), of totals windowed m] by (elim exE) (rule that)
  then have r: "spread_measure_rows totals windowed idx active m rows = Inr r"
    "map row_period r = map row_period rows" "\<And>m'. m' \<noteq> m \<Longrightarrow> column m' r = column m' rows"
    "totals m = None \<Longrightarrow> r = rows"
    "\<And>t. totals m = Some t \<Longrightarrow> \<exists>ss. splitTowardZero t active = Inr ss
         \<and> column m r = scatter (\<lambda>v _. Some v) idx ss (if windowed then map (\<lambda>_. Some 0) rows else column m rows)"
    by simp_all
  have len: "length r = length rows" using r(2) by (metis length_map)
  then have "set idx \<subseteq> {..<length r}" "distinct ms" using Cons.prems by simp_all
  from Cons.IH [OF this] obtain r' where "spread_loop totals windowed idx active ms r = Inr r'
    \<and> map row_period r' = map row_period r
    \<and> (\<forall>m. m \<notin> set ms \<or> totals m = None \<longrightarrow> column m r' = column m r)
    \<and> (\<forall>m t. m \<in> set ms \<longrightarrow> totals m = Some t \<longrightarrow> (\<exists>ss. splitTowardZero t active = Inr ss
         \<and> column m r' = scatter (\<lambda>v _. Some v) idx ss (if windowed then map (\<lambda>_. Some 0) r else column m r)))"
    by (elim exE) (rule that)
  then have r': "spread_loop totals windowed idx active ms r = Inr r'" "map row_period r' = map row_period r"
    "\<And>m'. m' \<notin> set ms \<or> totals m' = None \<Longrightarrow> column m' r' = column m' r"
    "\<And>m' t. m' \<in> set ms \<Longrightarrow> totals m' = Some t \<Longrightarrow> \<exists>ss. splitTowardZero t active = Inr ss
         \<and> column m' r' = scatter (\<lambda>v _. Some v) idx ss (if windowed then map (\<lambda>_. Some 0) r else column m' r)"
    by simp_all
  have m: "m \<notin> set ms" using Cons.prems(2) by simp
  have zeros: "map (\<lambda>_. Some (0::int)) r = map (\<lambda>_. Some 0) rows" using len by (simp add: map_replicate_const)
  have "column m' r' = column m' rows" if "m' \<notin> set (m # ms) \<or> totals m' = None" for m'
    using that r'(3) [of m'] r(3) [of m'] r(4) by (cases "m' = m") auto
  moreover have "\<exists>ss. splitTowardZero t active = Inr ss
         \<and> column m' r' = scatter (\<lambda>v _. Some v) idx ss (if windowed then map (\<lambda>_. Some 0) rows else column m' rows)"
    if "m' \<in> set (m # ms)" "totals m' = Some t" for m' t
  proof (cases "m' = m")
    case True
    with m r'(3) [of m] r(5) [of t] that show ?thesis by (cases windowed) simp_all
  next
    case False
    with r'(4) [of m' t] r(3) [of m'] that zeros show ?thesis by (cases windowed) simp_all
  qed
  ultimately show ?case using r r' by (intro exI [of _ r']) simp
qed (simp add: column_def)

text \<open>The indexes of some of the twelve months.\<close>

lemma month_indexes:
  assumes "ms = filter P MONTHS"
  shows "distinct (map (\<lambda>m. nat (m - 1)) ms)" "set (map (\<lambda>m. nat (m - 1)) ms) \<subseteq> {..<12}"
    and "k < 12 \<Longrightarrow> k \<in> set (map (\<lambda>m. nat (m - 1)) ms) \<longleftrightarrow> int k + 1 \<in> set ms"
proof -
  have r: "1 \<le> m \<and> m \<le> 12" if "m \<in> set ms" for m
    using that assms subsetD [OF MONTHS_props(3), of m] by simp
  have "inj_on (\<lambda>m. nat (m - 1)) (set ms)"
  proof (rule inj_onI)
    fix x y assume "x \<in> set ms" "y \<in> set ms" "nat (x - 1) = nat (y - 1)"
    with r [of x] r [of y] show "x = y" by (simp add: eq_nat_nat_iff)
  qed
  with assms show "distinct (map (\<lambda>m. nat (m - 1)) ms)" by (simp add: distinct_map)
  show "set (map (\<lambda>m. nat (m - 1)) ms) \<subseteq> {..<12}" using r by fastforce
  show "k < 12 \<Longrightarrow> k \<in> set (map (\<lambda>m. nat (m - 1)) ms) \<longleftrightarrow> int k + 1 \<in> set ms"
    using r by (force simp: image_iff)
qed

text \<open>The months a spread writes to: all of them, or those of the window.\<close>

definition spread_months :: "int \<Rightarrow> spread_window option \<Rightarrow> spread_error + int list" where
  "spread_months year window = (case window of None \<Rightarrow> Inr MONTHS | Some w \<Rightarrow> windowMonths year w)"

lemma spread_months_filter: "spread_months year window = Inr ms \<Longrightarrow> \<exists>P. ms = filter P MONTHS"
  using windowMonths_months by (auto simp: spread_months_def filter_True split: option.splits intro!: exI [of _ "\<lambda>_. True"])

text \<open>A yearly spread is a split of each total over the weights of the window, put at the places of its months.\<close>

lemma annual_rows:
  assumes "length ws = 12" "spread_months year window = Inr ms"
    and "usable_weights (map (\<lambda>m. ws ! nat (m - 1)) ms)"
  defines "idx \<equiv> map (\<lambda>m. nat (m - 1)) ms"
  obtains rows where "spreadAnnualToMonths year totals ws window = Inr rows" "map row_period rows = monthPeriods year"
    and "\<And>m. totals m = None \<Longrightarrow> column m rows = replicate 12 None"
    and "\<And>m t. totals m = Some t \<Longrightarrow> \<exists>ss. splitTowardZero t (map ((!) ws) idx) = Inr ss
         \<and> column m rows = scatter (\<lambda>v _. Some v) idx ss
             (if window \<noteq> None then map (\<lambda>_. Some 0) (empty_rows year) else replicate 12 None)"
proof -
  define active where "active = map ((!) ws) idx"
  obtain P where P: "ms = filter P MONTHS" using spread_months_filter [OF assms(2)] by blast
  note idx = month_indexes [OF P, folded idx_def]
  have act: "usable_weights active" using assms(3) by (simp add: active_def idx_def comp_def)
  have sum: "\<not> foldl (+) 0 active \<le> 0" using act by (simp add: foldl_plus usable_weights_def)
  have all: "[0..<12] = map (\<lambda>m. nat (m - 1)) MONTHS" by code_simp
  have spread: "spreadAnnualToMonths year totals ws window
      = spread_loop totals (window \<noteq> None) idx active SPREAD_MEASURES (empty_rows year)"
    using assms(1,2) sum
    by (cases window) (simp_all add: spreadAnnualToMonths_def spread_months_def all idx_def active_def)
  have e: "length (empty_rows year) = 12" "map row_period (empty_rows year) = monthPeriods year"
    "column meas (empty_rows year) = replicate 12 None" for meas
    by (simp_all add: empty_rows_def monthPeriods_def column_def map_replicate_const comp_def)
  have d: "distinct SPREAD_MEASURES" "meas \<in> set SPREAD_MEASURES" for meas
    by (simp_all add: SPREAD_MEASURES_def) (cases meas; simp)
  have "length active = length idx" "set idx \<subseteq> {..<length (empty_rows year)}"
    using idx(2) by (simp_all add: e active_def)
  from spread_loop_column [OF act this d(1), of totals "window \<noteq> None", unfolded e, folded spread]
  show thesis
    unfolding active_def using d(2) that by blast
qed

text \<open>The shares of one total, put at the places of the months and with nothing elsewhere.\<close>

lemma placed_shares:
  assumes "spread_months year window = Inr ms" and "splitTowardZero t (map ((!) ws) idx) = Inr ss"
    and "idx = map (\<lambda>m. nat (m - 1)) ms"
  defines "amounts \<equiv> scatter (\<lambda>v _. v) idx ss (replicate 12 (0::int))"
  shows "scatter (\<lambda>v _. Some v) idx ss (if window \<noteq> None then map (\<lambda>_. Some 0) (empty_rows year) else replicate 12 None) = map Some amounts"
    and "length amounts = 12" "sum_list amounts = t"
    and "k < 12 \<Longrightarrow> same_side t (amounts ! k) \<and> (int k + 1 \<notin> set ms \<or> ws ! k = 0 \<longrightarrow> amounts ! k = 0)"
proof -
  obtain P where P: "ms = filter P MONTHS" using spread_months_filter [OF assms(1)] by blast
  note idx = month_indexes [OF P, folded assms(3)]
  have sub: "set idx \<subseteq> {..<length (replicate 12 (0::int))}" using idx(2) by simp
  have len: "length ss = length idx" using toward_zero.split_length [OF assms(2)] by simp
  show "scatter (\<lambda>v _. Some v) idx ss (if window \<noteq> None then map (\<lambda>_. Some 0) (empty_rows year) else replicate 12 None) = map Some amounts"
  proof (cases window)
    case None
    then have ms: "ms = MONTHS" using assms(1) by (simp add: spread_months_def)
    show ?thesis
    proof (rule nth_equalityI)
      fix k assume "k < length (scatter (\<lambda>v _. Some v) idx ss (if window \<noteq> None then map (\<lambda>_. Some 0) (empty_rows year) else replicate 12 None))"
      then have k: "k < 12" by (simp add: None)
      then have "int k + 1 \<in> set MONTHS" by (simp add: MONTHS_def) arith
      with k idx(3) have "k \<in> set idx" by (simp add: ms)
      then obtain v where "map_of (zip idx ss) k = Some v" using len by (metis map_of_zip_is_Some)
      then show "scatter (\<lambda>v _. Some v) idx ss (if window \<noteq> None then map (\<lambda>_. Some 0) (empty_rows year) else replicate 12 None) ! k = map Some amounts ! k"
        using k idx(1,2) len by (simp add: None amounts_def scatter_nth)
    qed (simp add: None amounts_def)
  next
    case (Some w)
    have "map (\<lambda>_. Some (0::int)) (empty_rows year) = map Some (replicate 12 0)"
      by (simp add: empty_rows_def monthPeriods_def map_replicate_const)
    then show ?thesis
      unfolding amounts_def using Some by (simp add: scatter_map [OF _ sub, where h = "\<lambda>v _. Some v"])
  qed
  show "length amounts = 12" by (simp add: amounts_def)
  show "sum_list amounts = t"
    unfolding amounts_def using toward_zero.scatter_split_sum [OF assms(2) idx(1) sub] idx(2)
    by (simp add: sum_list_replicate subset_iff)
  show "same_side t (amounts ! k) \<and> (int k + 1 \<notin> set ms \<or> ws ! k = 0 \<longrightarrow> amounts ! k = 0)" if "k < 12"
    using toward_zero.scatter_split_nth [OF assms(2) idx(1) sub, of k] idx(3) [OF that] that
    unfolding amounts_def by (cases "k \<in> set idx") simp_all
qed

text \<open>C2: A yearly spread over the months of the window (all months without one) succeeds for weights
  that are not negative and give those months some weight.  Each measure given has twelve amounts that
  add up to its total, each of the sign of the total or zero, and zero in a month outside the window or
  without weight; a measure not given appears in no row.\<close>

theorem spreadAnnualToMonths_exact:
  assumes "length ws = 12" "spread_months year window = Inr ms"
    and "usable_weights (map (\<lambda>m. ws ! nat (m - 1)) ms)"
  shows "\<exists>rows. spreadAnnualToMonths year totals ws window = Inr rows
    \<and> map row_period rows = monthPeriods year
    \<and> (\<forall>meas. totals meas = None \<longrightarrow> column meas rows = replicate 12 None)
    \<and> (\<forall>meas t. totals meas = Some t \<longrightarrow> (\<exists>amounts. column meas rows = map Some amounts
         \<and> length amounts = 12 \<and> sum_list amounts = t
         \<and> (\<forall>k < 12. same_side t (amounts ! k) \<and> (int k + 1 \<notin> set ms \<or> ws ! k = 0 \<longrightarrow> amounts ! k = 0))))"
proof -
  define idx where "idx = map (\<lambda>m. nat (m - 1)) ms"
  obtain rows where rows: "spreadAnnualToMonths year totals ws window = Inr rows" "map row_period rows = monthPeriods year"
    "\<And>m. totals m = None \<Longrightarrow> column m rows = replicate 12 None"
    "\<And>m t. totals m = Some t \<Longrightarrow> \<exists>ss. splitTowardZero t (map ((!) ws) idx) = Inr ss
         \<and> column m rows = scatter (\<lambda>v _. Some v) idx ss (if window \<noteq> None then map (\<lambda>_. Some 0) (empty_rows year) else replicate 12 None)"
    using annual_rows [OF assms, of totals] unfolding idx_def by blast
  have "\<exists>amounts. column meas rows = map Some amounts \<and> length amounts = 12 \<and> sum_list amounts = t
         \<and> (\<forall>k < 12. same_side t (amounts ! k) \<and> (int k + 1 \<notin> set ms \<or> ws ! k = 0 \<longrightarrow> amounts ! k = 0))"
    if "totals meas = Some t" for meas t
  proof -
    from rows(4) [OF that] obtain ss where "splitTowardZero t (map ((!) ws) idx) = Inr ss"
      and col: "column meas rows = scatter (\<lambda>v _. Some v) idx ss (if window \<noteq> None then map (\<lambda>_. Some 0) (empty_rows year) else replicate 12 None)"
      by blast
    note placed = placed_shares [OF assms(2) this(1) idx_def]
    show ?thesis unfolding col using placed by blast
  qed
  with rows show ?thesis by blast
qed

text \<open>What a quarter is owed: its total over its months, nothing outside the active ones.\<close>

definition quarter_places :: "quarter \<Rightarrow> nat set" where
  "quarter_places q = {k. k < 12 \<and> in_quarter q (int k + 1)}"

definition quarter_served :: "(quarter \<Rightarrow> int option) \<Rightarrow> int list \<Rightarrow> int list \<Rightarrow> quarter \<Rightarrow> bool" where
  "quarter_served quarters ms amounts q \<longleftrightarrow>
     (\<Sum>k\<in>quarter_places q. amounts ! k) = amount_or_zero (quarters q)
     \<and> (\<forall>k\<in>quarter_places q. same_side (amount_or_zero (quarters q)) (amounts ! k)
          \<and> (int k + 1 \<notin> set ms \<longrightarrow> amounts ! k = 0))"

lemma quarter_places_finite [simp]: "finite (quarter_places q)"
  by (simp add: quarter_places_def)

lemma quarter_places_lt: "k \<in> quarter_places q \<Longrightarrow> k < 12"
  by (simp add: quarter_places_def)

lemma quarter_places_disjoint: "k \<in> quarter_places q \<Longrightarrow> k \<in> quarter_places q' \<Longrightarrow> q = q'"
proof -
  assume "k \<in> quarter_places q" "k \<in> quarter_places q'"
  then have "quarter_index q = quarter_index q'" by (simp add: quarter_places_def in_quarter_def)
  then show "q = q'" by (cases q; cases q') simp_all
qed

lemma QUARTER_WEIGHTS_pos: "0 < QUARTER_WEIGHTS d ! nat ((m - 1) mod 3)"
proof -
  define n where "n = nat ((m - 1) mod 3)"
  have "n < 3" by (simp add: n_def nat_less_iff)
  then have "n = 0 \<or> n = 1 \<or> n = 2" by auto
  then have "0 < QUARTER_WEIGHTS d ! n" by (cases d) auto
  then show ?thesis by (simp add: n_def)
qed

lemma usable_quarter_weights: "ms \<noteq> [] \<Longrightarrow> usable_weights (map (\<lambda>m. QUARTER_WEIGHTS d ! nat ((m - 1) mod 3)) ms)"
proof -
  assume "ms \<noteq> []"
  have "list_all (\<lambda>w. 0 \<le> w) (map (\<lambda>m. QUARTER_WEIGHTS d ! nat ((m - 1) mod 3)) ms)"
    using QUARTER_WEIGHTS_pos [of d] by (simp add: list_all_iff order_less_imp_le)
  moreover have "0 < sum_list (map (\<lambda>m. QUARTER_WEIGHTS d ! nat ((m - 1) mod 3)) ms)"
    using \<open>ms \<noteq> []\<close>
  proof (induction ms rule: list_nonempty_induct)
    case (cons m ms)
    then show ?case using QUARTER_WEIGHTS_pos [of d m] by simp
  qed (simp add: QUARTER_WEIGHTS_pos)
  ultimately show ?thesis by (simp add: usable_weights_def)
qed

lemma quarter_step_served:
  assumes ms: "ms = filter P MONTHS" and len: "length shares = 12"
    and zero: "\<forall>k\<in>quarter_places q. shares ! k = 0"
    and some: "filter (in_quarter q) ms = [] \<longrightarrow> amount_or_zero (quarters q) = 0"
  shows "\<exists>s'. quarter_step quarters (QUARTER_WEIGHTS d) ms q shares = Inr s' \<and> length s' = 12
    \<and> quarter_served quarters ms s' q \<and> (\<forall>k<12. k \<notin> quarter_places q \<longrightarrow> s' ! k = shares ! k)"
proof (cases "filter (in_quarter q) ms = []")
  case True
  with some zero len show ?thesis by (simp add: quarter_step_def quarter_served_def)
next
  case False
  define inq where "inq = filter (in_quarter q) ms"
  define idx where "idx = map (\<lambda>m. nat (m - 1)) inq"
  define W where "W = (\<lambda>k. QUARTER_WEIGHTS d ! nat (int k mod 3))"
  have inq: "inq = filter (\<lambda>m. P m \<and> in_quarter q m) MONTHS" by (simp add: inq_def ms conj_commute)
  note idx = month_indexes [OF inq, folded idx_def]
  have pos: "1 \<le> m" if "m \<in> set inq" for m
    using that subsetD [OF MONTHS_props(3), of m] by (simp add: inq)
  have W: "map (\<lambda>m. QUARTER_WEIGHTS d ! nat ((m - 1) mod 3)) inq = map W idx"
    unfolding idx_def map_map
    by (rule map_cong) (use pos in \<open>force simp: W_def\<close>)+
  obtain ss where ss: "splitTowardZero (amount_or_zero (quarters q)) (map W idx) = Inr ss"
    using toward_zero.split_total [OF usable_quarter_weights [of inq d]] False W by (auto simp: inq_def)
  define s' where "s' = scatter (\<lambda>v _. v) idx ss shares"
  have step: "quarter_step quarters (QUARTER_WEIGHTS d) ms q shares = Inr s'"
    unfolding quarter_step_def Let_def inq_def [symmetric] W ss s'_def
    using False [folded inq_def] by (simp add: idx_def)
  have sub: "set idx \<subseteq> {..<length shares}" using idx(2) len by simp
  have mem: "k \<in> set idx \<longleftrightarrow> k \<in> quarter_places q \<and> int k + 1 \<in> set ms" if "k < 12" for k
  proof -
    have "k \<in> set idx \<longleftrightarrow> int k + 1 \<in> set MONTHS \<and> P (int k + 1) \<and> in_quarter q (int k + 1)"
      unfolding idx(3) [OF that] inq by simp
    moreover have "int k + 1 \<in> set ms \<longleftrightarrow> int k + 1 \<in> set MONTHS \<and> P (int k + 1)" by (simp add: ms)
    moreover have "k \<in> quarter_places q \<longleftrightarrow> in_quarter q (int k + 1)" using that by (simp add: quarter_places_def)
    ultimately show ?thesis by blast
  qed
  have z: "\<forall>k\<in>set idx. shares ! k = 0" using idx(2) mem zero by auto
  note nth = toward_zero.scatter_split_nth [OF ss idx(1) sub, folded s'_def]
  have len': "length s' = 12" by (simp add: s'_def len)
  have out: "s' ! k = shares ! k" if "k < 12" "k \<notin> quarter_places q" for k
    using nth(1) [of k] mem [OF that(1)] that(2) by simp
  have total: "sum_list s' = sum_list shares + amount_or_zero (quarters q)"
    unfolding s'_def by (rule toward_zero.scatter_split_sum [OF ss idx(1) sub z])
  have part: "sum_list xs = (\<Sum>k\<in>quarter_places q. xs ! k) + (\<Sum>k\<in>{..<12} - quarter_places q. xs ! k)"
    if "length xs = 12" for xs :: "int list"
  proof -
    have "sum_list xs = (\<Sum>k\<in>{..<12}. xs ! k)" using that by (simp add: sum_list_sum_nth lessThan_atLeast0)
    also have "{..<12} = quarter_places q \<union> ({..<12} - quarter_places q)" using quarter_places_lt by auto
    also have "(\<Sum>k\<in>\<dots>. xs ! k) = (\<Sum>k\<in>quarter_places q. xs ! k) + (\<Sum>k\<in>{..<12} - quarter_places q. xs ! k)"
      by (rule sum.union_disjoint) auto
    finally show ?thesis .
  qed
  have "(\<Sum>k\<in>{..<12} - quarter_places q. s' ! k) = (\<Sum>k\<in>{..<12} - quarter_places q. shares ! k)"
    by (rule sum.cong) (simp_all add: out)
  moreover have "(\<Sum>k\<in>quarter_places q. shares ! k) = 0" using zero by simp
  ultimately have "(\<Sum>k\<in>quarter_places q. s' ! k) = amount_or_zero (quarters q)"
    using total part [OF len] part [OF len'] by simp
  moreover have "same_side (amount_or_zero (quarters q)) (s' ! k) \<and> (int k + 1 \<notin> set ms \<longrightarrow> s' ! k = 0)"
    if "k \<in> quarter_places q" for k
    using nth(1,2) [of k] mem [of k] that zero quarter_places_lt [OF that] by (cases "k \<in> set idx") simp_all
  ultimately show ?thesis using step len' out by (simp add: quarter_served_def)
qed

lemma quarter_served_cong:
  "quarter_served quarters ms s q \<Longrightarrow> (\<And>k. k \<in> quarter_places q \<Longrightarrow> s' ! k = s ! k) \<Longrightarrow> quarter_served quarters ms s' q"
  by (simp add: quarter_served_def)

lemma quarter_loop_served:
  assumes ms: "ms = filter P MONTHS" and some: "\<forall>q\<in>set qs. filter (in_quarter q) ms = [] \<longrightarrow> amount_or_zero (quarters q) = 0"
    and "distinct qs" "length shares = 12" "\<forall>q\<in>set qs. \<forall>k\<in>quarter_places q. shares ! k = 0"
  shows "\<exists>s'. quarter_loop quarters (QUARTER_WEIGHTS d) ms qs shares = Inr s' \<and> length s' = 12
    \<and> (\<forall>q\<in>set qs. quarter_served quarters ms s' q)
    \<and> (\<forall>k<12. (\<forall>q\<in>set qs. k \<notin> quarter_places q) \<longrightarrow> s' ! k = shares ! k)"
  using assms(2-5)
proof (induction qs arbitrary: shares)
  case (Cons q qs)
  obtain s where s: "quarter_step quarters (QUARTER_WEIGHTS d) ms q shares = Inr s" "length s = 12"
    "quarter_served quarters ms s q" "\<And>k. k < 12 \<Longrightarrow> k \<notin> quarter_places q \<Longrightarrow> s ! k = shares ! k"
    using quarter_step_served [OF ms Cons.prems(3), of q quarters d] Cons.prems(1,4) by auto
  have "s ! k = 0" if "q' \<in> set qs" "k \<in> quarter_places q'" for q' k
  proof -
    have "k \<notin> quarter_places q" using that Cons.prems(2) quarter_places_disjoint [of k q q'] by auto
    with s(4) [of k] that Cons.prems(4) quarter_places_lt show ?thesis by simp
  qed
  then have "\<forall>q'\<in>set qs. \<forall>k\<in>quarter_places q'. s ! k = 0" by blast
  with Cons.IH [of s] Cons.prems(1,2) s(2) obtain s' where
    s': "quarter_loop quarters (QUARTER_WEIGHTS d) ms qs s = Inr s'" "length s' = 12"
    "\<forall>q\<in>set qs. quarter_served quarters ms s' q"
    "\<And>k. k < 12 \<Longrightarrow> \<forall>q\<in>set qs. k \<notin> quarter_places q \<Longrightarrow> s' ! k = s ! k"
    by auto
  have "quarter_served quarters ms s' q"
  proof (rule quarter_served_cong [OF s(3)])
    fix k assume k: "k \<in> quarter_places q"
    have "k \<notin> quarter_places q'" if "q' \<in> set qs" for q'
      using Cons.prems(2) quarter_places_disjoint [OF k, of q'] that by (cases "k \<in> quarter_places q'") simp_all
    then show "s' ! k = s ! k" by (intro s'(4) ballI quarter_places_lt [OF k])
  qed
  with s s' show ?case by simp
qed simp

text \<open>Without a window the four quarters are split over all their months: the same as the loop over all twelve.\<close>

lemma unwindowed_quarters:
  "rbind (rmap (\<lambda>q. splitTowardZero (amount_or_zero (quarters q)) (QUARTER_WEIGHTS d)) QUARTERS) (\<lambda>s. Inr (concat s))
   = quarter_loop quarters (QUARTER_WEIGHTS d) MONTHS QUARTERS (replicate 12 0)"
proof -
  have inq: "filter (in_quarter Q1) MONTHS = [1, 2, 3]" "filter (in_quarter Q2) MONTHS = [4, 5, 6]"
    "filter (in_quarter Q3) MONTHS = [7, 8, 9]" "filter (in_quarter Q4) MONTHS = [10, 11, 12]"
    by (simp_all add: MONTHS_def in_quarter_def)
  have w: "map (\<lambda>m. QUARTER_WEIGHTS d ! nat ((m - 1) mod 3)) (filter (in_quarter q) MONTHS) = QUARTER_WEIGHTS d" for q
    by (cases q; cases d) (simp_all add: inq numeral_3_eq_3)
  have u: "usable_weights (QUARTER_WEIGHTS d)" "length (QUARTER_WEIGHTS d) = 3"
    by (cases d; simp add: usable_weights_def)+
  have "\<exists>a b c. splitTowardZero t (QUARTER_WEIGHTS d) = Inr [a, b, c]" for t
  proof -
    obtain ss where ss: "splitTowardZero t (QUARTER_WEIGHTS d) = Inr ss" using toward_zero.split_total [OF u(1)] by blast
    with toward_zero.split_length [OF ss] u(2) show ?thesis by (auto simp: numeral_3_eq_3 length_Suc_conv)
  qed
  then obtain a b c where abc: "\<And>t. splitTowardZero t (QUARTER_WEIGHTS d) = Inr [a t, b t, c t]" by metis
  have step: "quarter_step quarters (QUARTER_WEIGHTS d) MONTHS q s
      = Inr (scatter (\<lambda>v _. v) (map (\<lambda>m. nat (m - 1)) (filter (in_quarter q) MONTHS))
          (let t = amount_or_zero (quarters q) in [a t, b t, c t]) s)" for q s
  proof -
    have "filter (in_quarter q) MONTHS \<noteq> []" by (cases q) (simp_all add: inq)
    then show ?thesis by (simp add: quarter_step_def w abc Let_def)
  qed
  have z: "replicate 12 (0::int) = [0, 0, 0, 0, 0, 0, 0, 0, 0, 0, 0, 0]" by code_simp
  show ?thesis by (simp add: QUARTERS_def abc step inq Let_def z)
qed

text \<open>A quarterly spread succeeds unless a quarter with an amount has no active month.  Then the months
  of each quarter add up to its amount (nothing for a quarter not given), each has the sign of that amount
  or is zero, and the months outside the window are zero.\<close>

theorem spreadQuarterlyToMonths_exact:
  assumes "spread_months year window = Inr ms"
    and "\<forall>q. filter (in_quarter q) ms = [] \<longrightarrow> amount_or_zero (quarters q) = 0"
  shows "\<exists>amounts. spreadQuarterlyToMonths year meas quarters d window = Inr (rows_of_shares year meas amounts)
    \<and> length amounts = 12 \<and> (\<forall>q. quarter_served quarters ms amounts q)"
proof -
  obtain P where P: "ms = filter P MONTHS" using spread_months_filter [OF assms(1)] by blast
  have Q: "q \<in> set QUARTERS" "distinct QUARTERS" for q
    by (cases q) (simp_all add: QUARTERS_def)
  have "\<forall>q\<in>set QUARTERS. \<forall>k\<in>quarter_places q. replicate 12 (0::int) ! k = 0"
    using quarter_places_lt by (auto simp: nth_replicate)
  from quarter_loop_served [OF P _ Q(2) _ this, of quarters d] assms(2) obtain s where
    s: "quarter_loop quarters (QUARTER_WEIGHTS d) ms QUARTERS (replicate 12 0) = Inr s" "length s = 12"
    "\<forall>q. quarter_served quarters ms s q"
    using Q(1) by auto
  have "spreadQuarterlyToMonths year meas quarters d window = Inr (rows_of_shares year meas s)"
  proof (cases window)
    case None
    with assms(1) have ms: "ms = MONTHS" by (simp add: spread_months_def)
    have "rbind (rmap (\<lambda>q. splitTowardZero (amount_or_zero (quarters q)) (QUARTER_WEIGHTS d)) QUARTERS)
        (\<lambda>s. Inr (concat s)) = Inr s"
      unfolding unwindowed_quarters using s(1) by (simp add: ms)
    then show ?thesis by (auto simp: spreadQuarterlyToMonths_def None result_simps)
  next
    case (Some w)
    with assms(1) s(1) show ?thesis by (simp add: spreadQuarterlyToMonths_def spread_months_def)
  qed
  with s show ?thesis by blast
qed

lemma spreadQuarterlyToMonths_exact_witness:
  "\<exists>amounts. spreadQuarterlyToMonths 2025 Planned (\<lambda>q. if q = Q2 then Some 100 else None) D445
       (Some \<lparr>win_start = Some ''2025-04-01'', win_end = Some ''2025-06-10''\<rparr>) = Inr (rows_of_shares 2025 Planned amounts)
     \<and> length amounts = 12
     \<and> (\<forall>q. quarter_served (\<lambda>q. if q = Q2 then Some 100 else None) [4, 5] amounts q)"
proof (rule spreadQuarterlyToMonths_exact)
  show "spread_months 2025 (Some \<lparr>win_start = Some ''2025-04-01'', win_end = Some ''2025-06-10''\<rparr>) = Inr [4, 5]"
    by code_simp
  show "\<forall>q. filter (in_quarter q) [4, 5] = [] \<longrightarrow> amount_or_zero (if q = Q2 then Some 100 else None) = 0"
    by (auto simp: in_quarter_def amount_or_zero_def)
qed

lemma spreadAnnualToMonths_exact_witness:
  "\<exists>rows. spreadAnnualToMonths 2025 (\<lambda>m. if m = Planned then Some (- 700) else None) FLAT_WEIGHTS None = Inr rows
    \<and> map row_period rows = monthPeriods 2025"
proof -
  have "length FLAT_WEIGHTS = 12" "spread_months 2025 None = Inr MONTHS"
    "usable_weights (map (\<lambda>m. FLAT_WEIGHTS ! nat (m - 1)) MONTHS)" by code_simp+
  from spreadAnnualToMonths_exact [OF this, of "\<lambda>m. if m = Planned then Some (- 700) else None"]
  show ?thesis by blast
qed

text \<open>C3: A total is split exactly when no weight is negative and the weights add up to more than zero: one
  share per weight, each of the sign of the total or zero, nothing for a zero weight, adding up to the
  total; otherwise the call throws.\<close>

theorem splitTowardZero_correct:
  "(\<exists>ss. splitTowardZero t ws = Inr ss) = usable_weights ws
   \<and> (case splitTowardZero t ws of Inl _ \<Rightarrow> True | Inr ss \<Rightarrow> exact_split t ws ss)"
  using toward_zero.split_iff [of t ws] toward_zero.split_sound [of t ws] by (auto split: sum.split)

lemma foldl_max_ge: "(a::int) \<le> foldl max a xs" "x \<in> set xs \<Longrightarrow> x \<le> foldl max a xs"
proof -
  show ge: "(a::int) \<le> foldl max a xs" for a xs
  proof (induction xs arbitrary: a)
    case (Cons y ys)
    from Cons [of "max a y"] show ?case by simp
  qed simp
  show "x \<in> set xs \<Longrightarrow> x \<le> foldl max a xs"
  proof (induction xs arbitrary: a)
    case (Cons y ys)
    then show ?case using ge [of "max a y" ys] by auto
  qed simp
qed

text \<open>Stored profile weights that are accepted are twelve usable weights: every literal scaled by the
  same power of ten, exactly, and zero for a value that is not a number.\<close>

theorem profileWeights_exact:
  assumes "profileWeights raw = Inr (Some ws)"
  shows "\<exists>vs k. raw = JArr vs \<and> length vs = 12 \<and> length ws = 12 \<and> usable_weights ws
    \<and> (\<forall>i < 12. case profile_literal (vs ! i) of None \<Rightarrow> ws ! i = 0 | Some (m, s) \<Rightarrow> s \<le> k \<and> ws ! i = m * 10 ^ nat (k - s))"
proof -
  obtain vs where raw: "raw = JArr vs" "length vs = 12"
    using assms by (cases raw) (auto simp: profileWeights_def split: if_splits)
  define k where "k = foldl max 0 (map (\<lambda>p. case p of Some (m, s) \<Rightarrow> s | None \<Rightarrow> 0) (map profile_literal vs))"
  have ws: "ws = map (\<lambda>p. case p of Some (m, s) \<Rightarrow> m * 10 ^ nat (k - s) | None \<Rightarrow> 0) (map profile_literal vs)"
    "\<not> list_ex (\<lambda>w. w < 0) ws" "0 < foldl (+) 0 ws"
    using assms raw unfolding k_def by (auto simp: profileWeights_def Let_def rguard_eq_Inr split: if_splits)
  have "s \<le> k" if "i < 12" "profile_literal (vs ! i) = Some (m, s)" for i m s
    unfolding k_def by (rule foldl_max_ge(2)) (use that raw in \<open>auto simp: image_iff intro!: bexI [of _ "vs ! i"]\<close>)
  moreover have "usable_weights ws"
    using ws(2,3) by (auto simp: usable_weights_def foldl_plus list_ex_iff list_all_iff not_less)
  ultimately show ?thesis
    using raw ws(1) by (intro exI [of _ vs] exI [of _ k]) (auto split: option.split)
qed

lemma profileWeights_exact_witness:
  "\<exists>vs k. JArr (replicate 11 JNull @ [JStr ''2.5'']) = JArr vs \<and> length vs = 12
    \<and> length [0, 0, 0, 0, 0, 0, 0, 0, 0, 0, 0, 25::int] = 12 \<and> usable_weights [0, 0, 0, 0, 0, 0, 0, 0, 0, 0, 0, 25::int]
    \<and> (\<forall>i < 12. case profile_literal (vs ! i) of None \<Rightarrow> [0, 0, 0, 0, 0, 0, 0, 0, 0, 0, 0, 25::int] ! i = 0
        | Some (m, s) \<Rightarrow> s \<le> k \<and> [0, 0, 0, 0, 0, 0, 0, 0, 0, 0, 0, 25::int] ! i = m * 10 ^ nat (k - s))"
proof (rule profileWeights_exact)
  show "profileWeights (JArr (replicate 11 JNull @ [JStr ''2.5''])) = Inr (Some [0, 0, 0, 0, 0, 0, 0, 0, 0, 0, 0, 25::int])"
    by code_simp
qed

end
