(* ===== verification/WorkingDays.thy ===== *)
theory WorkingDays
  imports Dates Decimals "HOL-Library.AList"
begin

section \<open>Working-day calendars (working-day-profiles/)\<close>

text \<open>
  The validation of \<open>days_by_year\<close> and its merge (working-day-profiles.util.ts), and the standard
  calendars generated from public holidays (public-holidays.ts).  A \<open>Record\<close> or \<open>Map\<close> is an
  association list.  The \<open>date-holidays\<close> package is not part of the repository: it is the record
  \<open>holiday_lib\<close>, an argument of the definitions that use it.  Country and region display names
  (\<open>Intl\<close>) are not modelled.  A refusal carries its message and the year and month it names.
\<close>

datatype calendar_error = Refusal string "string option" "int option" | CalendarThrow string

definition CALENDAR_YEAR_MIN :: int where "CALENDAR_YEAR_MIN = 2000"
definition CALENDAR_YEAR_MAX :: int where "CALENDAR_YEAR_MAX = 2100"
definition CALENDAR_DAY_DECIMALS :: nat where "CALENDAR_DAY_DECIMALS = 6"

definition MONTH_NAMES :: "string list" where
  "MONTH_NAMES = [''January'', ''February'', ''March'', ''April'', ''May'', ''June'',
     ''July'', ''August'', ''September'', ''October'', ''November'', ''December'']"

definition daysInMonth :: "int \<Rightarrow> int \<Rightarrow> int" where
  "daysInMonth year month = date_from_day (date_utc year month 0)"

subsection \<open>Validation\<close>

text \<open>\<open>text.replace(',', '.')\<close>: the first comma only.\<close>

fun replace_comma :: "string \<Rightarrow> string" where
  "replace_comma [] = []"
| "replace_comma (c # s) = (if c = CHR '','' then CHR ''.'' # s else c # replace_comma s)"

text \<open>\<open>DAY_VALUE = /^(\d*)(?:\.(\d*))?$/\<close>.\<close>

definition DAY_VALUE :: "string \<Rightarrow> (string \<times> string option) option" where
  "DAY_VALUE s =
     (let whole = takeWhile is_digit s in
      case dropWhile is_digit s of
        [] \<Rightarrow> Some (whole, None)
      | c # r \<Rightarrow> if c = CHR ''.'' \<and> all_digits r then Some (whole, Some r) else None)"

text \<open>\<open>replace(/^0+(?=\d)/, '')\<close> on digits: leading zeros, but for the last digit.\<close>

fun strip_leading_zeros :: "string \<Rightarrow> string" where
  "strip_leading_zeros (c # d # r) = (if c = CHR ''0'' then strip_leading_zeros (d # r) else c # d # r)"
| "strip_leading_zeros s = s"

definition enter_all_months :: "string \<Rightarrow> int option \<Rightarrow> calendar_error" where
  "enter_all_months year month = Refusal (''Enter the working days of all twelve months of '' @ year @ ''.'') (Some year) month"

text \<open>The checks on the text of one month, after \<open>trim\<close> and the decimal comma.\<close>

definition normalize_day_text :: "string \<Rightarrow> string \<Rightarrow> int \<Rightarrow> calendar_error + string" where
  "normalize_day_text t year month =
     (let label = MONTH_NAMES ! nat (month - 1) @ '' '' @ year;
          refusal = (\<lambda>message. Refusal message (Some year) (Some month));
          not_number = refusal (''Enter a number of days for '' @ label @ ''.'')
      in rguard (starts_with ''-'' t) (refusal (''Enter 0 or more days for '' @ label @ ''.''))
         (case DAY_VALUE t of
            None \<Rightarrow> Inl not_number
          | Some (m1, m2) \<Rightarrow>
              let frac = (case m2 of None \<Rightarrow> [] | Some f \<Rightarrow> f) in
              rguard (m1 = [] \<and> frac = []) not_number
              (let whole = (let w = strip_leading_zeros m1 in if w = [] then ''0'' else w);
                   fraction = strip_trailing_zeros frac;
                   mx = daysInMonth (int (nat_of_digits year)) month;
                   above = (length whole > 3 \<or> int (nat_of_digits whole) > mx);
                   equal = (\<not> length whole > 3 \<and> int (nat_of_digits whole) = mx)
               in rguard (length fraction > CALENDAR_DAY_DECIMALS) (refusal ''Use at most 6 decimals.'')
                  (rguard (above \<or> equal \<and> fraction \<noteq> [])
                     (refusal (label @ '' has '' @ show_int mx @ '' days: enter '' @ show_int mx @ '' or less.''))
                  (Inr (if fraction \<noteq> [] then whole @ CHR ''.'' # fraction else whole))))))"

definition normalizeDay :: "jsval \<Rightarrow> string \<Rightarrow> int \<Rightarrow> calendar_error + string" where
  "normalizeDay raw year month =
     (let label = MONTH_NAMES ! nat (month - 1) @ '' '' @ year;
          not_number = Inl (Refusal (''Enter a number of days for '' @ label @ ''.'') (Some year) (Some month))
      in case raw of
           JNull \<Rightarrow> Inl (enter_all_months year (Some month))
         | JUndef \<Rightarrow> Inl (enter_all_months year (Some month))
         | JStr s \<Rightarrow> if js_trim s = [] then Inl (enter_all_months year (Some month))
                    else normalize_day_text (replace_comma (js_trim s)) year month
         | JNum n \<Rightarrow> if \<not> num_finite n then not_number else normalize_day_text (num_text n) year month
         | _ \<Rightarrow> not_number)"

text \<open>\<open>YEAR_KEY = /^\d{4}$/\<close> and the range.\<close>

definition year_key :: "string \<Rightarrow> bool" where
  "year_key s \<longleftrightarrow> length s = 4 \<and> all_digits s
     \<and> CALENDAR_YEAR_MIN \<le> int (nat_of_digits s) \<and> int (nat_of_digits s) \<le> CALENDAR_YEAR_MAX"

type_synonym year_patch = "(string \<times> string list option) list"
type_synonym calendar_days = "(string \<times> string list) list"

text \<open>One turn of the loop over \<open>Object.entries(raw)\<close>; \<open>result\<close> is what it has built.\<close>

definition normalize_year :: "bool \<Rightarrow> year_patch \<Rightarrow> string \<times> jsval \<Rightarrow> calendar_error + year_patch" where
  "normalize_year partial result entry =
     (let (rawKey, value) = entry; year = js_trim rawKey in
      rguard (\<not> year_key year)
        (Refusal (rawKey @ '' is not a year between '' @ show_int CALENDAR_YEAR_MIN @ '' and '' @ show_int CALENDAR_YEAR_MAX @ ''.'')
           (Some rawKey) None)
      (rguard (year \<in> fst ` set result) (Refusal (year @ '' is given twice.'') (Some year) None)
      (if value = JNull \<and> partial then Inr (result @ [(year, None)])
       else case value of
              JArr days \<Rightarrow>
                if length days \<noteq> 12 then Inl (enter_all_months year None)
                else rbind (rmap (\<lambda>(day, month). normalizeDay day year month) (zip days [1..12]))
                       (\<lambda>texts. Inr (result @ [(year, Some texts)]))
            | _ \<Rightarrow> Inl (enter_all_months year None))))"

fun normalize_years :: "bool \<Rightarrow> year_patch \<Rightarrow> (string \<times> jsval) list \<Rightarrow> calendar_error + year_patch" where
  "normalize_years partial result [] = Inr result"
| "normalize_years partial result (e # es) =
     rbind (normalize_year partial result e) (\<lambda>r. normalize_years partial r es)"

definition normalizeDaysByYear :: "jsval \<Rightarrow> bool \<Rightarrow> calendar_error + year_patch" where
  "normalizeDaysByYear raw partial =
     (case raw of
        JObj entries \<Rightarrow> normalize_years partial [] entries
      | _ \<Rightarrow> Inl (Refusal ''Give the working days per year.'' None None))"

text \<open>
  A year key is four digits, on which \<open>localeCompare\<close> is the order of the code units.
  The stored years are missing (\<open>null\<close>) or a record.
\<close>

fun merge_years :: "year_patch \<Rightarrow> calendar_days \<Rightarrow> calendar_days" where
  "merge_years [] merged = merged"
| "merge_years ((year, None) # patch) merged = merge_years patch (AList.delete year merged)"
| "merge_years ((year, Some months) # patch) merged = merge_years patch (AList.update year months merged)"

definition mergeDaysByYear :: "calendar_days option \<Rightarrow> year_patch \<Rightarrow> calendar_days" where
  "mergeDaysByYear stored patch =
     sort_key fst (merge_years patch (case stored of None \<Rightarrow> [] | Some days \<Rightarrow> days))"

subsection \<open>Public holidays\<close>

record holiday =
  hol_type :: string
  hol_date :: string
  hol_name :: string
  hol_duration :: "int option"  \<comment> \<open>milliseconds from \<open>start\<close> to \<open>end\<close>; none when not a number\<close>

text \<open>What the code uses of the package: its country codes, its region codes, its holidays of a year.\<close>

record holiday_lib =
  lib_countries :: "string list"
  lib_states :: "string \<Rightarrow> string list"
  lib_holidays :: "string \<Rightarrow> string option \<Rightarrow> string \<Rightarrow> int \<Rightarrow> holiday list"

record holiday_day =
  hd_date :: string
  hd_name :: string
  hd_weekend :: bool

record generated_year =
  gen_days :: "string list"
  gen_holidays :: "holiday_day list"

definition FIRST_YEAR :: int where "FIRST_YEAR = 2000"
definition LAST_YEAR :: int where "LAST_YEAR = 2100"
definition DAY_MS :: int where "DAY_MS = 86400000"
definition EVENING_HOUR :: nat where "EVENING_HOUR = 18"
definition CACHE_LIMIT :: nat where "CACHE_LIMIT = 5000"

definition is_letter :: "char \<Rightarrow> bool" where
  "is_letter c \<longleftrightarrow> (let n = (of_char c :: nat) in 65 \<le> n \<and> n \<le> 90 \<or> 97 \<le> n \<and> n \<le> 122)"

text \<open>
  \<open>/^\s*([a-z]{2,3})(?:[-_]|\s*$)/i\<close>: three letters are tried first, then two; a third letter is
  neither a separator nor a blank, so two letters only match when no third one follows.
\<close>

definition holidayLanguage :: "string \<Rightarrow> string" where
  "holidayLanguage raw =
     (let s = dropWhile js_space raw;
          letters = takeWhile is_letter s;
          rest = drop (length letters) s
      in if (length letters = 2 \<or> length letters = 3)
            \<and> (list_all js_space rest \<or> starts_with ''-'' rest \<or> starts_with ''_'' rest)
         then js_lower letters else ''en'')"

definition canonicalCountry :: "holiday_lib \<Rightarrow> string \<Rightarrow> string option" where
  "canonicalCountry lib code =
     (let upper = map upper_char (js_trim code) in
      if upper \<in> set (lib_countries lib) then Some upper else None)"

definition canonicalRegion :: "holiday_lib \<Rightarrow> string \<Rightarrow> string \<Rightarrow> string option" where
  "canonicalRegion lib country region =
     (case canonicalCountry lib country of
        None \<Rightarrow> None
      | Some countryCode \<Rightarrow>
          let wanted = js_lower (js_trim region) in
          if wanted = [] then None
          else List.find (\<lambda>code. js_lower code = wanted) (lib_states lib countryCode))"

definition isKnownCountry :: "holiday_lib \<Rightarrow> string \<Rightarrow> bool" where
  "isKnownCountry lib code \<longleftrightarrow> canonicalCountry lib code \<noteq> None"

definition isKnownRegion :: "holiday_lib \<Rightarrow> string \<Rightarrow> string \<Rightarrow> bool" where
  "isKnownRegion lib country region \<longleftrightarrow> canonicalRegion lib country region \<noteq> None"

text \<open>\<open>/^(\d{4})-(\d{2})-(\d{2})(?: (\d{2}):(\d{2}):(\d{2}))?/\<close>: the day, and the time when one follows.\<close>

definition number_at :: "string \<Rightarrow> nat \<Rightarrow> nat \<Rightarrow> nat" where
  "number_at s i n = nat_of_digits (take n (drop i s))"

definition digits_at :: "string \<Rightarrow> nat \<Rightarrow> nat \<Rightarrow> bool" where
  "digits_at s i n \<longleftrightarrow> i + n \<le> length s \<and> all_digits (take n (drop i s))"

definition char_at :: "string \<Rightarrow> nat \<Rightarrow> char \<Rightarrow> bool" where
  "char_at s i c \<longleftrightarrow> i < length s \<and> s ! i = c"

definition holiday_date :: "string \<Rightarrow> ((int \<times> int \<times> int) \<times> (nat \<times> nat \<times> nat)) option" where
  "holiday_date s =
     (if digits_at s 0 4 \<and> char_at s 4 (CHR ''-'') \<and> digits_at s 5 2 \<and> char_at s 7 (CHR ''-'') \<and> digits_at s 8 2
      then Some ((int (number_at s 0 4), int (number_at s 5 2), int (number_at s 8 2)),
        if char_at s 10 (CHR '' '') \<and> digits_at s 11 2 \<and> char_at s 13 (CHR '':'') \<and> digits_at s 14 2
           \<and> char_at s 16 (CHR '':'') \<and> digits_at s 17 2
        then (number_at s 11 2, number_at s 14 2, number_at s 17 2) else (0, 0, 0))
      else None)"

text \<open>\<open>Math.round(x / DAY_MS)\<close> of an integer.\<close>

definition round_days :: "int \<Rightarrow> int" where
  "round_days x = (2 * x + DAY_MS) div (2 * DAY_MS)"

definition add_name :: "string \<Rightarrow> (string \<times> string list) list \<Rightarrow> string \<Rightarrow> (string \<times> string list) list" where
  "add_name name days day =
     (let names = (case map_of days day of None \<Rightarrow> [] | Some ns \<Rightarrow> ns) in
      AList.update day (if name \<in> set names then names else names @ [name]) days)"

definition add_holiday :: "int \<Rightarrow> (string \<times> string list) list \<Rightarrow> holiday \<Rightarrow> (string \<times> string list) list" where
  "add_holiday year days holiday =
     (if hol_type holiday \<noteq> ''public'' then days
      else case holiday_date (hol_date holiday) of
             None \<Rightarrow> days
           | Some ((y, m, d), (h, mi, s)) \<Rightarrow>
               let first = date_utc y (m - 1) d;
                   sinceMidnight = int ((h * 60 + mi) * 60 + s) * 1000;
                   len = (case hol_duration holiday of None \<Rightarrow> 1 | Some duration \<Rightarrow> max 1 (round_days (sinceMidnight + duration)));
                   start = (if h \<ge> EVENING_HOUR then 1 else 0)
               in foldl (\<lambda>ds offset.
                    let time = first + offset in
                    if year_from_day time \<noteq> year then ds else add_name (hol_name holiday) ds (iso_day time))
                  days [start..len - 1])"

definition publicHolidayDays :: "(int \<Rightarrow> holiday list) \<Rightarrow> int \<Rightarrow> (string \<times> string list) list" where
  "publicHolidayDays getHolidays year =
     foldl (add_holiday year) [] (getHolidays (year - 1) @ getHolidays year)"

definition weekend_day :: "int \<Rightarrow> bool" where
  "weekend_day t \<longleftrightarrow> week_day t = 0 \<or> week_day t = 6"

definition working_days_of_month :: "(string \<times> string list) list \<Rightarrow> int \<Rightarrow> int \<Rightarrow> nat" where
  "working_days_of_month holidayDays year month =
     (let last = date_from_day (date_utc year (month + 1) 0) in
      length (filter (\<lambda>date. let time = date_utc year month date in
                \<not> weekend_day time \<and> iso_day time \<notin> fst ` set holidayDays) [1..last]))"

definition day_of_text :: "string \<Rightarrow> int" where
  "day_of_text s = date_utc (int (number_at s 0 4)) (int (number_at s 5 2) - 1) (int (number_at s 8 2))"

text \<open>The body once the country, the region and the year are checked.\<close>

definition generate_year :: "holiday_lib \<Rightarrow> string \<Rightarrow> string option \<Rightarrow> int \<Rightarrow> string \<Rightarrow> generated_year" where
  "generate_year lib countryCode regionCode year language =
     (let holidayDays = publicHolidayDays (lib_holidays lib countryCode regionCode language) year in
      \<lparr>gen_days = map (\<lambda>month. show_nat (working_days_of_month holidayDays year month)) [0..11],
       gen_holidays = concat (map (\<lambda>date.
          map (\<lambda>name. \<lparr>hd_date = date, hd_name = name, hd_weekend = weekend_day (day_of_text date)\<rparr>)
            (the (map_of holidayDays date))) (sort (map fst holidayDays)))\<rparr>)"

type_synonym holiday_cache = "(string \<times> generated_year) list"

definition cache_key :: "string \<Rightarrow> string option \<Rightarrow> int \<Rightarrow> string \<Rightarrow> string" where
  "cache_key countryCode regionCode year language =
     countryCode @ CHR ''|'' # (case regionCode of None \<Rightarrow> [] | Some r \<Rightarrow> r) @ CHR ''|'' # show_int year @ CHR ''|'' # language"

text \<open>The lookup in the cache, oldest entry first, and what is kept.  A copy of a value is the value.\<close>

definition cached_year :: "holiday_lib \<Rightarrow> string \<Rightarrow> string option \<Rightarrow> int \<Rightarrow> string \<Rightarrow> holiday_cache \<Rightarrow> generated_year \<times> holiday_cache" where
  "cached_year lib countryCode regionCode year language cache =
     (let key = cache_key countryCode regionCode year language in
      case map_of cache key of
        Some cached \<Rightarrow> (cached, cache)
      | None \<Rightarrow>
          let result = generate_year lib countryCode regionCode year language;
              room = (if length cache \<ge> CACHE_LIMIT then tl cache else cache)
          in (result, AList.update key result room))"

definition region_given :: "string option \<Rightarrow> bool" where
  "region_given region \<longleftrightarrow> region \<noteq> None \<and> region \<noteq> Some []"

text \<open>\<open>generateWorkingDays\<close> with the cache as its state.  The year is an integer.\<close>

definition generateWorkingDays ::
  "holiday_lib \<Rightarrow> string \<Rightarrow> string option \<Rightarrow> int \<Rightarrow> string \<Rightarrow> holiday_cache \<Rightarrow> (calendar_error + generated_year) \<times> holiday_cache" where
  "generateWorkingDays lib country region year lang cache =
     (case canonicalCountry lib country of
        None \<Rightarrow> (Inl (CalendarThrow (''No public holiday rules for country '' @ country @ ''.'')), cache)
      | Some countryCode \<Rightarrow>
          let regionCode = (if region_given region then canonicalRegion lib countryCode (the region) else None)
          in if region_given region \<and> (regionCode = None \<or> regionCode = Some [])
             then (Inl (CalendarThrow (''No public holiday rules for region '' @ the region @ '' of '' @ countryCode @ ''.'')), cache)
             else if year < FIRST_YEAR \<or> year > LAST_YEAR
             then (Inl (CalendarThrow (''Standard working days exist for the years '' @ show_int FIRST_YEAR @ '' to '' @ show_int LAST_YEAR @ ''.'')), cache)
             else let (result, cache') = cached_year lib countryCode regionCode year (holidayLanguage lang) cache
                  in (Inr result, cache'))"

subsection \<open>The days a computation reads\<close>

record profile_info =
  pi_id :: string
  pi_days_by_year :: calendar_days
  pi_country :: "string option"
  pi_region :: "string option"

definition calendarDaysFor ::
  "holiday_lib \<Rightarrow> profile_info \<Rightarrow> int \<Rightarrow> holiday_cache \<Rightarrow> (calendar_error + string list option) \<times> holiday_cache" where
  "calendarDaysFor lib info year cache =
     (case map_of (pi_days_by_year info) (show_int year) of
        Some stored \<Rightarrow> (Inr (Some stored), cache)
      | None \<Rightarrow>
          case pi_country info of
            None \<Rightarrow> (Inr None, cache)
          | Some country \<Rightarrow>
              if country = [] \<or> year < CALENDAR_YEAR_MIN \<or> year > CALENDAR_YEAR_MAX then (Inr None, cache)
              else if \<not> isKnownCountry lib country
                   \<or> (case pi_region info of None \<Rightarrow> False | Some r \<Rightarrow> r \<noteq> [] \<and> \<not> isKnownRegion lib country r)
              then (Inr None, cache)
              else (let (r, cache') = generateWorkingDays lib country (pi_region info) year ''en'' cache
                    in (rbind r (\<lambda>g. Inr (Some (gen_days g))), cache')))"

subsection \<open>A month's days\<close>

lemma daysInMonth_eq:
  assumes "100 \<le> y" "1 \<le> m" "m \<le> 12"
  shows "daysInMonth y m = month_days y m"
proof -
  have v: "valid_date y m (month_days y m)" using assms month_days_range [of m y] by (simp add: valid_date_def)
  have "make_day y m 0 = make_day y (m - 1) (month_days y m)"
  proof (cases "m = 12")
    case True
    then show ?thesis
      by (simp add: make_day_def leap_day_from_year month_days_def)
  next
    case False
    then have "make_day y (m + 1 - 1) 0 = day_from_year y + days_before y (m + 1) + 0 - 1"
      using assms by (intro make_day_in_year) simp_all
    moreover have "make_day y (m - 1) (month_days y m) = day_from_year y + days_before y m + month_days y m - 1"
      using assms by (intro make_day_in_year) simp_all
    ultimately show ?thesis by (simp add: month_days_def)
  qed
  with assms make_day_getters(3) [OF v] show ?thesis by (simp add: daysInMonth_def)
qed

lemma show_nat_canonical:
  "all_digits s \<Longrightarrow> s \<noteq> [] \<Longrightarrow> hd s \<noteq> CHR ''0'' \<or> length s = 1 \<Longrightarrow> show_nat (nat_of_digits s) = s"
proof (induction s rule: rev_induct)
  case (snoc c s)
  show ?case
  proof (cases "s = []")
    case True
    with snoc.prems show ?thesis
      by (subst show_nat.simps) (simp add: nat_of_digits_def)
  next
    case False
    with snoc.prems have h: "hd s \<noteq> CHR ''0''" by simp
    have n0: "nat_of_digits s \<noteq> 0"
    proof
      assume z: "nat_of_digits s = 0"
      with snoc h False have "show_nat 0 = s" by simp
      moreover have "show_nat 0 = ''0''" by code_simp
      ultimately show False using h by auto
    qed
    have c: "digit_val c < 10" using snoc.prems by simp
    have "show_nat (nat_of_digits (s @ [c])) = show_nat (nat_of_digits s) @ [digit_char (digit_val c)]"
      using n0 c by (subst show_nat.simps) simp
    with snoc h False show ?thesis by simp
  qed
qed simp

lemma strip_leading_zeros_show:
  "all_digits s \<Longrightarrow> s \<noteq> [] \<Longrightarrow> strip_leading_zeros s = show_nat (nat_of_digits s)"
proof (induction s rule: strip_leading_zeros.induct, goal_cases)
  case (1 c d r)
  show ?case
  proof (cases "c = CHR ''0''")
    case True
    with 1 show ?thesis by (simp add: nat_of_digits_Cons) (simp add: digit_val_def)
  next
    case False
    with 1 show_nat_canonical [of "c # d # r"] show ?thesis by simp
  qed
next
  case (3 c)
  then show ?case using show_nat_canonical [of "[c]"] by simp
qed simp

lemma DAY_VALUE_form:
  "DAY_VALUE s = Some (m1, m2) \<Longrightarrow> all_digits m1 \<and> (case m2 of None \<Rightarrow> True | Some f \<Rightarrow> all_digits f)"
  by (auto simp: DAY_VALUE_def Let_def all_digits_def list_all_iff dest: set_takeWhileD split: list.splits if_splits)

lemma DAY_VALUE_canonical:
  "all_digits w \<Longrightarrow> all_digits f \<Longrightarrow> DAY_VALUE (w @ frac_part f) = Some (w, if f = [] then None else Some f)"
  by (simp add: DAY_VALUE_def frac_part_def text_simps)

lemma strip_trailing_zeros_idem [simp]: "strip_trailing_zeros (strip_trailing_zeros s) = strip_trailing_zeros s"
  by (induction s rule: rev_induct) auto

text \<open>The canonical days of a month: no needless zero, at most 6 decimals, at most the month's days.\<close>

definition canonical_days :: "string \<Rightarrow> string \<Rightarrow> int \<Rightarrow> bool" where
  "canonical_days t year month \<longleftrightarrow>
     (\<exists>whole frac. t = show_nat whole @ frac_part frac \<and> all_digits frac \<and> length frac \<le> 6
        \<and> strip_trailing_zeros frac = frac
        \<and> (int whole < month_days (int (nat_of_digits year)) month
           \<or> int whole = month_days (int (nat_of_digits year)) month \<and> frac = []))"

lemma show_nat_short: "n < 1000 \<Longrightarrow> length (show_nat n) \<le> 3"
  using show_nat_length_le [of n 3] by simp

lemma year_key_bounds: "year_key y \<Longrightarrow> 2000 \<le> int (nat_of_digits y) \<and> int (nat_of_digits y) \<le> 2100"
  by (simp add: year_key_def CALENDAR_YEAR_MIN_def CALENDAR_YEAR_MAX_def)

lemma normalize_day_text_canonical:
  assumes "normalize_day_text s year month = Inr t" "year_key year" "1 \<le> month" "month \<le> 12"
  shows "canonical_days t year month"
proof -
  define y where "y = int (nat_of_digits year)"
  have mx: "daysInMonth y month = month_days y month"
    using assms(3,4) year_key_bounds [OF assms(2)] by (intro daysInMonth_eq) (simp_all add: y_def)
  obtain m1 m2 where D: "DAY_VALUE s = Some (m1, m2)"
    using assms(1) by (cases "DAY_VALUE s") (auto simp: normalize_day_text_def Let_def rguard_eq_Inr)
  define frac where "frac = (case m2 of None \<Rightarrow> [] | Some f \<Rightarrow> f)"
  define fraction where "fraction = strip_trailing_zeros frac"
  define whole where "whole = (let w = strip_leading_zeros m1 in if w = [] then ''0'' else w)"
  have dig: "all_digits m1" "all_digits frac" using DAY_VALUE_form [OF D] by (auto simp: frac_def split: option.splits)
  have fr: "all_digits fraction" "strip_trailing_zeros fraction = fraction"
    using strip_trailing_zeros_digits [OF dig(2)] by (simp_all add: fraction_def)
  have z: "''0'' = show_nat 0" by code_simp
  have w: "whole = show_nat (nat_of_digits m1)"
  proof (cases "m1 = []")
    case True
    then show ?thesis by (simp add: whole_def z)
  next
    case False
    with dig strip_leading_zeros_show [of m1] show ?thesis by (simp add: whole_def)
  qed
  have b: "length fraction \<le> 6"
    "\<not> (length whole > 3 \<or> int (nat_of_digits whole) > daysInMonth y month)"
    "\<not> (\<not> length whole > 3 \<and> int (nat_of_digits whole) = daysInMonth y month \<and> fraction \<noteq> [])"
    "t = (if fraction \<noteq> [] then whole @ CHR ''.'' # fraction else whole)"
    using assms(1) unfolding normalize_day_text_def Let_def D option.case prod.case
      frac_def [symmetric] fraction_def [symmetric] whole_def [unfolded Let_def, symmetric] y_def [symmetric]
    by (auto simp: rguard_eq_Inr CALENDAR_DAY_DECIMALS_def)
  then have "t = show_nat (nat_of_digits m1) @ frac_part fraction"
    by (simp add: w frac_part_def)
  moreover have "int (nat_of_digits m1) < month_days y month
      \<or> int (nat_of_digits m1) = month_days y month \<and> fraction = []"
    using b by (auto simp: w mx)
  ultimately show ?thesis using fr b(1) unfolding canonical_days_def y_def by blast
qed

lemma normalize_day_text_id:
  assumes "canonical_days t year month" "year_key year" "1 \<le> month" "month \<le> 12"
  shows "normalize_day_text t year month = Inr t"
proof -
  define y where "y = int (nat_of_digits year)"
  have mx: "daysInMonth y month = month_days y month" "month_days y month \<le> 31"
    using assms(3,4) year_key_bounds [OF assms(2)] month_days_range [OF assms(3,4), of y]
    by (simp_all add: y_def daysInMonth_eq)
  obtain whole frac where t: "t = show_nat whole @ frac_part frac" "all_digits frac" "length frac \<le> 6"
    "strip_trailing_zeros frac = frac" "int whole < month_days y month \<or> int whole = month_days y month \<and> frac = []"
    using assms(1) unfolding canonical_days_def y_def by blast
  have D: "DAY_VALUE t = Some (show_nat whole, if frac = [] then None else Some frac)"
    unfolding t(1) by (rule DAY_VALUE_canonical) (use t in simp_all)
  have sl: "strip_leading_zeros (show_nat whole) = show_nat whole"
    by (simp add: strip_leading_zeros_show)
  have short: "length (show_nat whole) \<le> 3" using t(5) mx(2) by (intro show_nat_short) auto
  have "\<not> starts_with ''-'' t"
  proof -
    obtain c r where c: "show_nat whole = c # r" by (cases "show_nat whole") auto
    with show_nat_digits [of whole] have "is_digit c" by simp
    then show ?thesis by (auto simp: starts_with_def t(1) c)
  qed
  with short t(3-5) show ?thesis
    unfolding normalize_day_text_def Let_def D y_def [symmetric]
    by (cases "frac = []") (auto simp: sl mx CALENDAR_DAY_DECIMALS_def t(1) frac_part_def)
qed

lemma canonical_plain: "canonical_days t year month \<Longrightarrow> list_all plain_char t"
  using plain_digits by (auto simp: canonical_days_def frac_part_def plain_char_def)

lemma replace_comma_id: "CHR '','' \<notin> set s \<Longrightarrow> replace_comma s = s"
  by (induction s) auto

text \<open>The days stored for a month are canonical (no needless zero, at most 6 decimals, between 0 and the
  month's length), and normalising a stored value again gives it back.\<close>

theorem normalizeDay_canonical:
  assumes "normalizeDay raw year month = Inr t" "year_key year" "1 \<le> month" "month \<le> 12"
  shows "canonical_days t year month \<and> normalizeDay (JStr t) year month = Inr t"
proof -
  obtain s where "normalize_day_text s year month = Inr t"
    using assms(1) by (cases raw) (auto simp: normalizeDay_def Let_def split: if_splits)
  then have c: "canonical_days t year month" by (rule normalize_day_text_canonical [OF _ assms(2-4)])
  have "list_all (\<lambda>c. \<not> js_space c) t" "CHR '','' \<notin> set t"
    using canonical_plain [OF c] plain_char_props unfolding list_all_iff by blast+
  moreover have "t \<noteq> []" using c by (auto simp: canonical_days_def)
  ultimately show ?thesis
    using c normalize_day_text_id [OF c assms(2-4)]
    by (simp add: normalizeDay_def js_trim_id replace_comma_id)
qed

lemma normalizeDay_canonical_witness:
  "canonical_days ''19.5'' ''2026'' 2 \<and> normalizeDay (JStr ''19.5'') ''2026'' 2 = Inr ''19.5''"
proof (rule normalizeDay_canonical)
  show "normalizeDay (JStr '' 019,500 '') ''2026'' 2 = Inr ''19.5''" by code_simp
  show "year_key ''2026''" by code_simp
qed simp_all

subsection \<open>Years and their merge\<close>

lemma merge_years_lookup:
  "distinct (map fst merged) \<Longrightarrow> distinct (map fst patch) \<Longrightarrow>
     distinct (map fst (merge_years patch merged))
     \<and> map_of (merge_years patch merged) y = (case map_of patch y of None \<Rightarrow> map_of merged y | Some v \<Rightarrow> v)"
proof (induction patch merged rule: merge_years.induct)
  case (2 year patch merged)
  then have "distinct (map fst (AList.delete year merged))" by (simp add: distinct_delete)
  moreover have "map_of patch year = None" using 2(3) by (simp add: map_of_eq_None_iff)
  ultimately show ?case using 2 by (auto simp: delete_conv' split: option.split)
next
  case (3 year months patch merged)
  then have "distinct (map fst (AList.update year months merged))" by (simp add: distinct_update)
  moreover have "map_of patch year = None" using 3(3) by (simp add: map_of_eq_None_iff)
  ultimately show ?case using 3 by (auto simp: update_conv' split: option.split)
qed simp

text \<open>Merging a patch replaces the years it gives, removes those it gives as null and keeps the others;
  the result lists each year once, in order.\<close>

theorem mergeDaysByYear_lookup:
  assumes "distinct (map fst patch)" "\<And>days. stored = Some days \<Longrightarrow> distinct (map fst days)"
  shows "map_of (mergeDaysByYear stored patch) y =
      (case map_of patch y of
         Some v \<Rightarrow> v
       | None \<Rightarrow> (case stored of None \<Rightarrow> None | Some days \<Rightarrow> map_of days y))
    \<and> sorted (map fst (mergeDaysByYear stored patch)) \<and> distinct (map fst (mergeDaysByYear stored patch))"
proof -
  define base where "base = (case stored of None \<Rightarrow> [] | Some days \<Rightarrow> days)"
  have d: "distinct (map fst base)" using assms(2) by (auto simp: base_def split: option.split)
  note m = merge_years_lookup [OF d assms(1), of y]
  have s: "set (mergeDaysByYear stored patch) = set (merge_years patch base)"
    by (simp add: mergeDaysByYear_def base_def)
  have dist: "distinct (map fst (mergeDaysByYear stored patch))"
    using m by (simp add: mergeDaysByYear_def flip: base_def) (metis distinct_map distinct_sort set_sort)
  have "map_of (mergeDaysByYear stored patch) = map_of (merge_years patch base)"
    using m dist s by (intro map_of_inject_set [THEN iffD2]) auto
  with m dist show ?thesis
    by (auto simp: mergeDaysByYear_def base_def split: option.split)
qed

lemma mergeDaysByYear_lookup_witness:
  "map_of (mergeDaysByYear (Some [(''2026'', [''20'']), (''2025'', [''19''])]) [(''2026'', None)]) ''2025'' = Some [''19'']"
  using mergeDaysByYear_lookup [of "[(''2026'', None)]" "Some [(''2026'', [''20'']), (''2025'', [''19''])]" "''2025''"] by simp

subsection \<open>Generated years\<close>

definition good_lib :: "holiday_lib \<Rightarrow> bool" where
  "good_lib lib \<longleftrightarrow> (\<forall>c \<in> set (lib_countries lib). CHR ''|'' \<notin> set c \<and> (\<forall>r \<in> set (lib_states lib c). CHR ''|'' \<notin> set r))"

definition cache_sound :: "holiday_lib \<Rightarrow> holiday_cache \<Rightarrow> bool" where
  "cache_sound lib cache \<longleftrightarrow>
     (\<forall>c r y l. c \<in> set (lib_countries lib) \<longrightarrow> (\<forall>rc. r = Some rc \<longrightarrow> rc \<noteq> [] \<and> rc \<in> set (lib_states lib c)) \<longrightarrow>
        (case map_of cache (cache_key c r y (holidayLanguage l)) of
           None \<Rightarrow> True | Some g \<Rightarrow> g = generate_year lib c r y (holidayLanguage l)))"

lemma show_int_inj: "show_int a = show_int b \<Longrightarrow> a = b"
  by (metis exponent_value_show)

lemma bar_not_in_show: "CHR ''|'' \<notin> set (show_int i)"
  using plain_show_int [of i] by (auto simp: list_all_iff plain_char_def is_digit_def)

text \<open>Two generated years never share a key.\<close>

lemma cache_key_inj:
  assumes "good_lib lib" "c \<in> set (lib_countries lib)" "c' \<in> set (lib_countries lib)"
    and "\<forall>rc. r = Some rc \<longrightarrow> rc \<noteq> [] \<and> rc \<in> set (lib_states lib c)"
    and "\<forall>rc. r' = Some rc \<longrightarrow> rc \<noteq> [] \<and> rc \<in> set (lib_states lib c')"
    and "cache_key c r y l = cache_key c' r' y' l'"
  shows "c = c' \<and> r = r' \<and> y = y' \<and> l = l'"
proof -
  have bar: "CHR ''|'' \<notin> set c" "CHR ''|'' \<notin> set c'"
    "CHR ''|'' \<notin> set (case r of None \<Rightarrow> [] | Some r \<Rightarrow> r)" "CHR ''|'' \<notin> set (case r' of None \<Rightarrow> [] | Some r \<Rightarrow> r)"
    using assms(1-5) by (auto simp: good_lib_def split: option.split)
  have 1: "c = c'" and rest: "(case r of None \<Rightarrow> [] | Some r \<Rightarrow> r) @ CHR ''|'' # show_int y @ CHR ''|'' # l
      = (case r' of None \<Rightarrow> [] | Some r \<Rightarrow> r) @ CHR ''|'' # show_int y' @ CHR ''|'' # l'"
    using split_at_bar [OF bar(1,2)] assms(6) unfolding cache_key_def by blast+
  from split_at_bar [OF bar(3,4) rest] have 2: "(case r of None \<Rightarrow> [] | Some r \<Rightarrow> r) = (case r' of None \<Rightarrow> [] | Some r \<Rightarrow> r)"
    and rest2: "show_int y @ CHR ''|'' # l = show_int y' @ CHR ''|'' # l'" by blast+
  from split_at_bar [OF bar_not_in_show bar_not_in_show rest2] have "show_int y = show_int y'" "l = l'" by blast+
  moreover have "r = r'" using 2 assms(4,5) by (auto split: option.splits)
  ultimately show ?thesis using 1 show_int_inj by blast
qed

lemma canonicalCountry_known: "canonicalCountry lib code = Some c \<Longrightarrow> c \<in> set (lib_countries lib)"
  by (auto simp: canonicalCountry_def Let_def split: if_splits)

lemma canonicalRegion_known:
  "canonicalRegion lib c region = Some r \<Longrightarrow>
     r \<noteq> [] \<and> (\<exists>cc. canonicalCountry lib c = Some cc \<and> r \<in> set (lib_states lib cc))"
  by (auto simp: canonicalRegion_def Let_def js_lower_def split: option.splits if_splits dest!: find_some)

lemma upper_char_space: "js_space (upper_char c) = js_space c"
proof (cases "upper_char c = c")
  case False
  define n where "n = (of_char c :: nat)"
  have n: "97 \<le> n \<and> n \<le> 122 \<or> 224 \<le> n \<and> n \<le> 254 \<and> n \<noteq> 247" "upper_char c = char_of (n - 32)"
    using False by (auto simp: upper_char_def n_def Let_def split: if_splits)
  have sp: "js_space d \<longleftrightarrow> (of_char d :: nat) \<in> {9, 10, 11, 12, 13, 32, 160}" for d
    unfolding js_space_def of_char_eq_iff [where 'a = nat, symmetric] by auto
  have "(of_char (upper_char c) :: nat) = n - 32" using n(1) by (auto simp: n(2))
  then show ?thesis using n(1) unfolding sp n_def [symmetric] by auto
qed simp

lemma upper_char_idem: "upper_char (upper_char c) = upper_char c"
proof (cases "upper_char c = c")
  case False
  define n where "n = (of_char c :: nat)"
  have n: "97 \<le> n \<and> n \<le> 122 \<or> 224 \<le> n \<and> n \<le> 254 \<and> n \<noteq> 247" "upper_char c = char_of (n - 32)"
    using False by (auto simp: upper_char_def n_def Let_def split: if_splits)
  have "(of_char (upper_char c) :: nat) = n - 32" using n(1) by (auto simp: n(2))
  then have "upper_char (upper_char c) = (let m = n - 32 in if 97 \<le> m \<and> m \<le> 122 \<or> 224 \<le> m \<and> m \<le> 254 \<and> m \<noteq> 247
      then char_of (m - 32) else upper_char c)"
    by (simp add: upper_char_def [of "upper_char c"])
  also have "\<dots> = upper_char c" using n(1) by (auto simp: Let_def)
  finally show ?thesis .
qed simp

lemma canonicalCountry_idem: "canonicalCountry lib code = Some c \<Longrightarrow> canonicalCountry lib c = Some c"
proof -
  assume "canonicalCountry lib code = Some c"
  then have c: "c = map upper_char (js_trim code)" "c \<in> set (lib_countries lib)"
    by (auto simp: canonicalCountry_def Let_def split: if_splits)
  have "js_trim c = c"
    using js_trim_result_ends [of code] unfolding c(1)
    by (intro js_trim_ends) (auto simp: hd_map last_map upper_char_space)
  moreover have "map upper_char c = c" by (simp add: c(1) comp_def upper_char_idem)
  ultimately show ?thesis using c(2) by (simp add: canonicalCountry_def)
qed

lemma canonicalRegion_canonical:
  "canonicalCountry lib code = Some c \<Longrightarrow> canonicalRegion lib c region = canonicalRegion lib code region"
  by (simp add: canonicalRegion_def canonicalCountry_idem)

definition cache_ok :: "holiday_lib \<Rightarrow> holiday_cache \<Rightarrow> bool" where
  "cache_ok lib cache \<longleftrightarrow> distinct (map fst cache) \<and> length cache \<le> CACHE_LIMIT \<and> cache_sound lib cache"

lemma map_of_tl_Some: "distinct (map fst xs) \<Longrightarrow> map_of (tl xs) k = Some v \<Longrightarrow> map_of xs k = Some v"
  by (cases xs) (auto dest: map_of_SomeD simp: image_iff)

lemma cache_ok_add:
  assumes "good_lib lib" "cache_ok lib cache" "map_of cache (cache_key c r y (holidayLanguage l)) = None"
    and c: "c \<in> set (lib_countries lib)" "\<forall>rc. r = Some rc \<longrightarrow> rc \<noteq> [] \<and> rc \<in> set (lib_states lib c)"
  shows "cache_ok lib (AList.update (cache_key c r y (holidayLanguage l)) (generate_year lib c r y (holidayLanguage l))
    (if length cache \<ge> CACHE_LIMIT then tl cache else cache))"
proof -
  define room where "room = (if length cache \<ge> CACHE_LIMIT then tl cache else cache)"
  define k where "k = cache_key c r y (holidayLanguage l)"
  have d: "distinct (map fst room)" and len: "length room < CACHE_LIMIT"
    using assms(2) by (auto simp: room_def cache_ok_def map_tl distinct_tl CACHE_LIMIT_def)
  have sub: "map_of room k' = Some v \<Longrightarrow> map_of cache k' = Some v" for k' v
    using assms(2) map_of_tl_Some [of cache k' v] by (auto simp: room_def cache_ok_def split: if_splits)
  have "map_of room k = None" using sub assms(3) by (cases "map_of room k") (auto simp: k_def)
  then have "length (AList.update k g room) = Suc (length room)" for g
    by (simp add: map_of_eq_None_iff) (induction room; auto)
  moreover have "cache_sound lib (AList.update k (generate_year lib c r y (holidayLanguage l)) room)"
    unfolding cache_sound_def
  proof (intro allI impI)
    fix c' r' y' l' assume c': "c' \<in> set (lib_countries lib)" "\<forall>rc. r' = Some rc \<longrightarrow> rc \<noteq> [] \<and> rc \<in> set (lib_states lib c')"
    show "case map_of (AList.update k (generate_year lib c r y (holidayLanguage l)) room) (cache_key c' r' y' (holidayLanguage l')) of
        None \<Rightarrow> True | Some g \<Rightarrow> g = generate_year lib c' r' y' (holidayLanguage l')"
    proof (cases "cache_key c' r' y' (holidayLanguage l') = k")
      case True
      then have "c' = c \<and> r' = r \<and> y' = y \<and> holidayLanguage l' = holidayLanguage l"
        unfolding k_def by (rule cache_key_inj [OF assms(1) c'(1) c(1) c'(2) c(2)])
      with True show ?thesis by (simp add: update_conv')
    next
      case False
      have "case map_of cache (cache_key c' r' y' (holidayLanguage l')) of None \<Rightarrow> True
        | Some g \<Rightarrow> g = generate_year lib c' r' y' (holidayLanguage l')"
        using assms(2) c' unfolding cache_ok_def cache_sound_def by blast
      with False sub [of "cache_key c' r' y' (holidayLanguage l')"] show ?thesis
        by (auto simp: update_conv' split: option.splits)
    qed
  qed
  ultimately show ?thesis
    using d len by (simp add: cache_ok_def distinct_update k_def room_def)
qed

text \<open>What a call returns, whatever the cache holds.\<close>

definition uncached_year ::
  "holiday_lib \<Rightarrow> string \<Rightarrow> string option \<Rightarrow> int \<Rightarrow> string \<Rightarrow> calendar_error + generated_year" where
  "uncached_year lib country region year lang = fst (generateWorkingDays lib country region year lang [])"

lemma generateWorkingDays_transparent:
  assumes "good_lib lib" "cache_ok lib cache"
  shows "fst (generateWorkingDays lib country region year lang cache) = uncached_year lib country region year lang
    \<and> cache_ok lib (snd (generateWorkingDays lib country region year lang cache))"
proof (cases "canonicalCountry lib country")
  case None
  with assms show ?thesis by (simp add: generateWorkingDays_def uncached_year_def)
next
  case (Some c)
  define rc where "rc = (if region_given region then canonicalRegion lib c (the region) else None)"
  define bad where "bad \<longleftrightarrow> region_given region \<and> (rc = None \<or> rc = Some []) \<or> year < FIRST_YEAR \<or> year > LAST_YEAR"
  show ?thesis
  proof (cases bad)
    case True
    with assms show ?thesis
      by (auto simp: generateWorkingDays_def uncached_year_def Some rc_def bad_def region_given_def Let_def)
  next
    case False
    define k where "k = cache_key c rc year (holidayLanguage lang)"
    define g where "g = generate_year lib c rc year (holidayLanguage lang)"
    have gen: "generateWorkingDays lib country region year lang ch =
        (Inr (fst (cached_year lib c rc year (holidayLanguage lang) ch)), snd (cached_year lib c rc year (holidayLanguage lang) ch))" for ch
      using False by (auto simp: generateWorkingDays_def Some rc_def bad_def split: prod.split)
    have c: "c \<in> set (lib_countries lib)" by (rule canonicalCountry_known [OF Some])
    have r: "\<forall>x. rc = Some x \<longrightarrow> x \<noteq> [] \<and> x \<in> set (lib_states lib c)"
      using canonicalRegion_known [of lib c] canonicalCountry_idem [OF Some] by (fastforce simp: rc_def split: if_splits)
    have sound: "case map_of cache k of None \<Rightarrow> True | Some v \<Rightarrow> v = g"
      using assms(2) c r unfolding cache_ok_def cache_sound_def k_def g_def by blast
    have u: "uncached_year lib country region year lang = Inr g"
      by (simp add: uncached_year_def gen cached_year_def g_def Let_def)
    show ?thesis
    proof (cases "map_of cache k")
      case None
      with cache_ok_add [OF assms None [unfolded k_def] c r] show ?thesis
        by (simp add: gen u cached_year_def k_def g_def Let_def)
    qed (use sound assms in \<open>simp add: gen u cached_year_def k_def g_def Let_def\<close>)
  qed
qed

text \<open>C4: The cache of generated calendars is transparent: a call answers what it would answer with an empty
  cache, and leaves a cache that is again sound, free of duplicate keys and within its limit.\<close>

theorem generateWorkingDays_cache:
  assumes "good_lib lib" "cache_ok lib cache"
  shows "fst (generateWorkingDays lib country region year lang cache) = uncached_year lib country region year lang
    \<and> cache_ok lib (snd (generateWorkingDays lib country region year lang cache))"
  by (rule generateWorkingDays_transparent [OF assms])

text \<open>The days a computation reads are the stored year, else the generated one; \<open>calendarDaysFor\<close> never
  throws and answers null exactly where the generator would throw or no country is set.\<close>

theorem calendarDaysFor_spec:
  assumes "good_lib lib" "cache_ok lib cache"
  shows "fst (calendarDaysFor lib info year cache) = Inr
    (case map_of (pi_days_by_year info) (show_int year) of
       Some stored \<Rightarrow> Some stored
     | None \<Rightarrow>
         (case pi_country info of
            None \<Rightarrow> None
          | Some country \<Rightarrow>
              if country = [] then None
              else case uncached_year lib country (pi_region info) year ''en'' of
                     Inl _ \<Rightarrow> None | Inr g \<Rightarrow> Some (gen_days g)))"
proof (cases "map_of (pi_days_by_year info) (show_int year) = None \<and> (\<exists>country. pi_country info = Some country \<and> country \<noteq> [])")
  case True
  then obtain country where Some: "pi_country info = Some country" "country \<noteq> []" by blast
  define known where "known \<longleftrightarrow> \<not> (year < CALENDAR_YEAR_MIN \<or> year > CALENDAR_YEAR_MAX) \<and> isKnownCountry lib country
      \<and> (region_given (pi_region info) \<longrightarrow> isKnownRegion lib country (the (pi_region info)))"
  have k: "fst (calendarDaysFor lib info year cache) =
      (if known then rbind (fst (generateWorkingDays lib country (pi_region info) year ''en'' cache)) (\<lambda>g. Inr (Some (gen_days g))) else Inr None)"
    using True Some
    by (auto simp: calendarDaysFor_def known_def region_given_def split: option.splits prod.split)
  have gen: "fst (generateWorkingDays lib country (pi_region info) year ''en'' cache) = uncached_year lib country (pi_region info) year ''en''"
    using generateWorkingDays_transparent [OF assms] by blast
  have inr: "known \<longleftrightarrow> (\<exists>g. uncached_year lib country (pi_region info) year ''en'' = Inr g)"
  proof (cases "canonicalCountry lib country")
    case c: (Some c)
    have reg: "region_given (pi_region info) \<Longrightarrow>
        isKnownRegion lib country (the (pi_region info)) \<longleftrightarrow>
        \<not> (canonicalRegion lib c (the (pi_region info)) = None \<or> canonicalRegion lib c (the (pi_region info)) = Some [])"
      using canonicalRegion_canonical [OF c] canonicalRegion_known [of lib country "the (pi_region info)"]
      by (auto simp: isKnownRegion_def)
    show ?thesis
      using reg by (auto simp: known_def uncached_year_def generateWorkingDays_def c isKnownCountry_def
          CALENDAR_YEAR_MIN_def CALENDAR_YEAR_MAX_def FIRST_YEAR_def LAST_YEAR_def Let_def split: prod.split)
  qed (simp add: known_def isKnownCountry_def uncached_year_def generateWorkingDays_def)
  show ?thesis using True Some inr by (auto simp: k gen split: sum.split)
qed (auto simp: calendarDaysFor_def split: option.splits)

lemma calendarDaysFor_spec_witness:
  "fst (calendarDaysFor \<lparr>lib_countries = [''FR''], lib_states = (\<lambda>_. []), lib_holidays = (\<lambda>_ _ _ _. [])\<rparr>
     \<lparr>pi_id = ''a'', pi_days_by_year = [], pi_country = Some ''fr'', pi_region = None\<rparr> 1999 []) = Inr None"
proof (subst calendarDaysFor_spec)
  show "good_lib \<lparr>lib_countries = [''FR''], lib_states = (\<lambda>_. []), lib_holidays = (\<lambda>_ _ _ _. [])\<rparr>"
    "cache_ok \<lparr>lib_countries = [''FR''], lib_states = (\<lambda>_. []), lib_holidays = (\<lambda>_ _ _ _. [])\<rparr> []"
    by (simp_all add: good_lib_def cache_ok_def cache_sound_def)
qed code_simp

lemma generateWorkingDays_cache_witness:
  "cache_ok \<lparr>lib_countries = [''FR''], lib_states = (\<lambda>_. []), lib_holidays = (\<lambda>_ _ _ _. [])\<rparr>
     (snd (generateWorkingDays \<lparr>lib_countries = [''FR''], lib_states = (\<lambda>_. []), lib_holidays = (\<lambda>_ _ _ _. [])\<rparr>
        ''FR'' None 2026 ''en'' []))"
proof -
  have "good_lib \<lparr>lib_countries = [''FR''], lib_states = (\<lambda>_. []), lib_holidays = (\<lambda>_ _ _ _. [])\<rparr>"
    "cache_ok \<lparr>lib_countries = [''FR''], lib_states = (\<lambda>_. []), lib_holidays = (\<lambda>_ _ _ _. [])\<rparr> []"
    by (simp_all add: good_lib_def cache_ok_def cache_sound_def)
  from generateWorkingDays_cache [OF this] show ?thesis by blast
qed

subsection \<open>Generated days are stored days\<close>

lemma working_days_le:
  assumes "100 \<le> y" "0 \<le> m" "m \<le> 11"
  shows "int (working_days_of_month hs y m) \<le> month_days y (m + 1)"
proof -
  have "date_from_day (date_utc y (m + 1) 0) = month_days y (m + 1)"
    using daysInMonth_eq [of y "m + 1"] assms by (simp add: daysInMonth_def)
  moreover have "working_days_of_month hs y m \<le> length [1..date_from_day (date_utc y (m + 1) 0)]"
    unfolding working_days_of_month_def Let_def by (rule length_filter_le)
  moreover have "0 \<le> month_days y (m + 1)" using month_days_range [of "m + 1" y] assms by simp
  ultimately show ?thesis by simp
qed

lemma show_nat_canonical_days:
  "int n \<le> month_days (int (nat_of_digits year)) month \<Longrightarrow> canonical_days (show_nat n) year month"
  unfolding canonical_days_def by (intro exI [of _ n] exI [of _ "[]"]) (auto simp: frac_part_def)

lemma year_text:
  assumes "2000 \<le> year" "year \<le> 2100"
  shows "year_key (show_int year)" "nat_of_digits (show_int year) = nat year" "js_trim (show_int year) = show_int year"
proof -
  have e: "show_int year = show_nat (nat year)" using assms by (simp add: show_int_def)
  have "length (show_nat (nat year)) = 4"
    using show_nat_length_ge [of 3 "nat year"] show_nat_length_le [of "nat year" 4] assms by (simp add: le_nat_iff nat_less_iff)
  then show "year_key (show_int year)" using assms by (simp add: e year_key_def CALENDAR_YEAR_MIN_def CALENDAR_YEAR_MAX_def)
  show "nat_of_digits (show_int year) = nat year" by (simp add: e)
  have "list_all (\<lambda>c. \<not> js_space c) (show_int year)"
    using plain_show_int [of year] plain_char_props unfolding list_all_iff by blast
  then show "js_trim (show_int year) = show_int year" by (rule js_trim_id)
qed

text \<open>The working days generated for a year are a year the validation accepts and stores unchanged: the
  page, the file and the computation read the same values.\<close>

theorem generated_year_accepted:
  assumes "2000 \<le> year" "year \<le> 2100"
  shows "normalizeDaysByYear (JObj [(show_int year, JArr (map JStr (gen_days (generate_year lib c r year l))))]) partial
    = Inr [(show_int year, Some (gen_days (generate_year lib c r year l)))]"
proof -
  define ds where "ds = gen_days (generate_year lib c r year l)"
  note y = year_text [OF assms]
  have up: "length [0..11::int] = 12" "length [1..12::int] = 12" by simp_all
  have len: "length ds = 12" by (simp add: ds_def generate_year_def Let_def)
  have day: "normalizeDay (JStr (ds ! i)) (show_int year) ([1..12] ! i) = Inr (ds ! i)" if "i < 12" for i
  proof -
    have m: "[1..12] ! i = int i + 1" "[0..11] ! i = int i" using that by (simp_all add: nth_upto)
    have "ds ! i = show_nat (working_days_of_month (publicHolidayDays (lib_holidays lib c r l) year) year (int i))"
      using that up m by (simp add: ds_def generate_year_def Let_def)
    moreover have "int (working_days_of_month (publicHolidayDays (lib_holidays lib c r l) year) year (int i)) \<le> month_days year (int i + 1)"
      using that assms by (intro working_days_le) simp_all
    ultimately have can: "canonical_days (ds ! i) (show_int year) (int i + 1)"
      using assms by (simp add: show_nat_canonical_days y)
    have nt: "normalize_day_text (ds ! i) (show_int year) (int i + 1) = Inr (ds ! i)"
      using that by (intro normalize_day_text_id can y) simp_all
    have "list_all (\<lambda>c. \<not> js_space c) (ds ! i)" "CHR '','' \<notin> set (ds ! i)"
      using canonical_plain [OF can] plain_char_props unfolding list_all_iff by blast+
    moreover have "ds ! i \<noteq> []" using can by (auto simp: canonical_days_def)
    ultimately show ?thesis using nt by (simp add: m normalizeDay_def js_trim_id replace_comma_id)
  qed
  have "rmap (\<lambda>(day, month). normalizeDay day (show_int year) month) (zip (map JStr ds) [1..12]) = Inr ds"
    unfolding rmap_eq_Inr list_all2_conv_all_nth using len up day by (auto simp: nth_upto)
  with len y show ?thesis
    unfolding ds_def [symmetric] by (simp add: normalizeDaysByYear_def normalize_year_def)
qed

lemma generated_year_accepted_witness:
  "normalizeDaysByYear (JObj [(show_int 2026, JArr (map JStr (gen_days (generate_year
      \<lparr>lib_countries = [''FR''], lib_states = (\<lambda>_. []), lib_holidays = (\<lambda>_ _ _ _. [])\<rparr> ''FR'' None 2026 ''en''))))]) True
    = Inr [(show_int 2026, Some (gen_days (generate_year
      \<lparr>lib_countries = [''FR''], lib_states = (\<lambda>_. []), lib_holidays = (\<lambda>_ _ _ _. [])\<rparr> ''FR'' None 2026 ''en'')))]"
  by (rule generated_year_accepted) simp_all

end
