(* ===== verification/Costing.thy ===== *)
theory Costing
  imports Spread WorkingDays
begin

section \<open>Quantity and price lines (spend/costing.util.ts)\<close>

text \<open>
  A column's months computed from its lines.  Decimals are those of Decimals, the active months and
  the equal splits those of Spread.  \<open>CostThrow\<close> stands for an error the code does not mean for
  the user.  A value that may be missing is an option.
\<close>

datatype costing_error = CostingInputError string | CostThrow string

datatype quantity_unit = Days | People | Pieces
datatype price_basis = PerDay | PerMonth | PerPiece
datatype frequency = EachMonth | Once

fun unit_text :: "quantity_unit \<Rightarrow> string" where
  "unit_text Days = ''days''" | "unit_text People = ''people''" | "unit_text Pieces = ''pieces''"

fun basis_text :: "price_basis \<Rightarrow> string" where
  "basis_text PerDay = ''per_day''" | "basis_text PerMonth = ''per_month''" | "basis_text PerPiece = ''per_piece''"

fun frequency_text :: "frequency \<Rightarrow> string" where
  "frequency_text EachMonth = ''per_month''" | "frequency_text Once = ''once''"

definition QUANTITY_UNITS :: "quantity_unit list" where "QUANTITY_UNITS = [Days, People, Pieces]"
definition PRICE_BASES :: "price_basis list" where "PRICE_BASES = [PerDay, PerMonth, PerPiece]"
definition FREQUENCIES :: "frequency list" where "FREQUENCIES = [EachMonth, Once]"

fun BASES_BY_UNIT :: "quantity_unit \<Rightarrow> price_basis list" where
  "BASES_BY_UNIT Days = [PerDay]"
| "BASES_BY_UNIT People = [PerDay, PerMonth]"
| "BASES_BY_UNIT Pieces = [PerPiece]"

fun FREQUENCIES_BY_UNIT :: "quantity_unit \<Rightarrow> frequency list" where
  "FREQUENCIES_BY_UNIT Days = [Once]"
| "FREQUENCIES_BY_UNIT People = [EachMonth]"
| "FREQUENCIES_BY_UNIT Pieces = [EachMonth, Once]"

definition DAYS_PER_MONTH_MAX :: string where "DAYS_PER_MONTH_MAX = ''31''"
definition MAX_LINES :: nat where "MAX_LINES = 50"
definition LABEL_MAX_LENGTH :: nat where "LABEL_MAX_LENGTH = 200"

record cost_line =
  cl_label :: string
  cl_unit :: quantity_unit
  cl_quantity :: string
  cl_unit_price :: string
  cl_basis :: price_basis
  cl_frequency :: frequency
  cl_days_per_month :: "string option"
  cl_start :: string
  cl_end :: string
  cl_profile :: "string option"

record line_result =
  lr_active :: "int list"
  lr_day_counts :: "string list option"
  lr_total_days :: "string option"
  lr_month_cents :: "int list"
  lr_total_cents :: int
  lr_fte_months :: "string list"
  lr_fte :: string
  lr_fte_period :: string

record column_result =
  cr_lines :: "line_result list"
  cr_active :: "int list"
  cr_month_cents :: "int list"
  cr_total_cents :: int
  cr_fte_months :: "string list"
  cr_fte :: string
  cr_fte_period :: string

record line_calendar =
  cal_name :: string
  cal_days :: "string list option"

definition QUANTITY_LIMITS :: decimal_limits where
  "QUANTITY_LIMITS = \<lparr>lim_label = ''quantity'', lim_decimals = 3, lim_min = Some ''0'',
     lim_minMessage = Some ''quantity cannot be negative.'', lim_maxAbs = ''1000000000''\<rparr>"

definition UNIT_PRICE_LIMITS :: decimal_limits where
  "UNIT_PRICE_LIMITS = \<lparr>lim_label = ''unit price'', lim_decimals = 4, lim_min = None,
     lim_minMessage = None, lim_maxAbs = ''100000000000000''\<rparr>"

definition FTE_LIMIT :: string where "FTE_LIMIT = ''10000000''"
definition COMPUTED_TOO_LARGE_MESSAGE :: string where "COMPUTED_TOO_LARGE_MESSAGE = ''The computed amount is too large.''"
definition FTE_TOO_LARGE_MESSAGE :: string where "FTE_TOO_LARGE_MESSAGE = ''The lines add up to too many FTE.''"

fun BASIS_FOR_UNIT :: "quantity_unit \<Rightarrow> string" where
  "BASIS_FOR_UNIT Days = ''a price for days is per day.''"
| "BASIS_FOR_UNIT People = ''a price for people is per day or per month.''"
| "BASIS_FOR_UNIT Pieces = ''a price for pieces is per piece.''"

text \<open>Pieces take both frequencies: they have no sentence, and none is ever asked for.\<close>

fun FREQUENCY_FOR_UNIT :: "quantity_unit \<Rightarrow> string" where
  "FREQUENCY_FOR_UNIT Days = ''days are counted once over their period.''"
| "FREQUENCY_FOR_UNIT People = ''people are counted per month.''"
| "FREQUENCY_FOR_UNIT Pieces = []"

definition missingCalendarYearMessage :: "string \<Rightarrow> int \<Rightarrow> string" where
  "missingCalendarYearMessage calendarName year =
     calendarName @ '' has no working days for '' @ show_int year @ ''. Add them on the Working-day calendars page.''"

definition lineError :: "int \<Rightarrow> string \<Rightarrow> costing_error" where
  "lineError n t = CostingInputError (''Line '' @ show_int n @ '': '' @ t)"

definition continued :: "string \<Rightarrow> string" where
  "continued sentence = map js_lower_char (take 1 sentence) @ drop 1 sentence"

fun isBlank :: "jsval \<Rightarrow> bool" where
  "isBlank JUndef = True"
| "isBlank JNull = True"
| "isBlank (JStr s) = (js_trim s = [])"
| "isBlank _ = False"

subsection \<open>Reading a line\<close>

fun dec_message :: "dec_error \<Rightarrow> string" where
  "dec_message (DecError m) = m"
| "dec_message (DecimalLimitError m) = m"

fun throw_decimal :: "dec_error \<Rightarrow> costing_error" where
  "throw_decimal e = CostThrow (dec_message e)"

definition dec :: "dec_error + 'a \<Rightarrow> costing_error + 'a" where
  "dec r = rcatch throw_decimal r"

definition limited :: "jsval \<Rightarrow> decimal_limits \<Rightarrow> int \<Rightarrow> costing_error + string" where
  "limited value limits n =
     (case parseLimitedDecimal value limits of
        Inr d \<Rightarrow> Inr (decimal_toString d)
      | Inl (DecimalLimitError m) \<Rightarrow> Inl (lineError n m)
      | Inl (DecError m) \<Rightarrow> Inl (CostThrow m))"

text \<open>A choice among the values of an enumeration, by their texts.\<close>

definition choice :: "('t \<Rightarrow> string) \<Rightarrow> jsval \<Rightarrow> 't list \<Rightarrow> int \<Rightarrow> string \<Rightarrow> string \<Rightarrow> costing_error + 't" where
  "choice text_of value allowed n what blank =
     rguard (isBlank value) (lineError n blank)
     (case (case value of JStr s \<Rightarrow> List.find (\<lambda>a. text_of a = js_lower (js_trim s)) allowed | _ \<Rightarrow> None) of
        Some a \<Rightarrow> Inr a
      | None \<Rightarrow> Inl (lineError n (''unknown '' @ what @ '' '' @ quoted (js_string value) @ ''. Use ''
          @ join '', '' (map text_of (butlast allowed)) @ '' or '' @ text_of (last allowed) @ ''.'')))"

definition presence_checks :: "int \<Rightarrow> int \<Rightarrow> int \<Rightarrow> costing_error + string" where
  "presence_checks m0 s0 n =
     (let (mantissa, scale) = drop_zeros m0 s0 in
      rguard (scale > 3) (lineError n ''days per month accepts at most 3 decimals.'')
      (rbind (dec (decimal_from (DLit (NText (lit_text mantissa scale))))) (\<lambda>days.
       rbind (dec (decimal_cmp days (DLit (NNum (JFin ''0''))))) (\<lambda>low.
       rbind (dec (decimal_cmp days (DLit (NText DAYS_PER_MONTH_MAX)))) (\<lambda>high.
       rguard (low \<le> 0 \<or> high > 0) (lineError n ''days per month must be more than 0 and at most 31.'')
       (Inr (decimal_toString days)))))))"

definition presence_literal :: "jsval \<Rightarrow> (int \<times> int) option" where
  "presence_literal value =
     (if isBlank value then None
      else case value of
             JStr s \<Rightarrow> (case parseDecimalLiteral (NText s) of Inl _ \<Rightarrow> None | Inr p \<Rightarrow> Some p)
           | JNum v \<Rightarrow> (case parseDecimalLiteral (NNum v) of Inl _ \<Rightarrow> None | Inr p \<Rightarrow> Some p)
           | _ \<Rightarrow> None)"

definition parseDaysPerMonth :: "jsval \<Rightarrow> int \<Rightarrow> costing_error + string" where
  "parseDaysPerMonth value n =
     (case presence_literal value of
        None \<Rightarrow> Inl (lineError n ''enter the days per month, or tick Full time.'')
      | Some (m0, s0) \<Rightarrow> presence_checks m0 s0 n)"

text \<open>
  The months of a line.  \<open>Number(period_start.slice(5, 7))\<close> is only reached for a real date, whose
  characters 5 and 6 are digits.
\<close>

definition lineMonths :: "int \<Rightarrow> frequency \<Rightarrow> string \<Rightarrow> string \<Rightarrow> int \<Rightarrow> costing_error + int list" where
  "lineMonths year freq period_start period_end n =
     rbind (case activeMonths year (Some period_start) (Some period_end) of
              Inr months \<Rightarrow> Inr months
            | Inl (SpreadInputError m) \<Rightarrow> Inl (lineError n (continued m))
            | Inl (SpreadError m) \<Rightarrow> Inl (CostThrow m)) (\<lambda>months0.
     let months = (if months0 = [] \<and> freq = Once \<and> period_start = period_end
                   then [int (nat_of_digits (take 2 (drop 5 period_start)))] else months0)
     in rguard (months = []) (lineError n (continued NO_ACTIVE_MONTH_MESSAGE)) (Inr months))"

definition parse_label :: "jsval \<Rightarrow> int \<Rightarrow> costing_error + string" where
  "parse_label labelRaw n =
     (case (if labelRaw = JUndef \<or> labelRaw = JNull then JStr [] else labelRaw) of
        JStr s \<Rightarrow>
          let label = js_trim s in
          rguard (length label > LABEL_MAX_LENGTH)
            (lineError n (''the description is longer than '' @ show_nat LABEL_MAX_LENGTH @ '' characters.''))
            (Inr label)
      | _ \<Rightarrow> Inl (lineError n ''the description must be text.''))"

definition parse_presence :: "quantity_unit \<Rightarrow> price_basis \<Rightarrow> jsval \<Rightarrow> int \<Rightarrow> costing_error + string option" where
  "parse_presence qu basis value n =
     (if qu = People \<and> basis = PerDay
      then (if value \<noteq> JNull \<and> value \<noteq> JUndef then rbind (parseDaysPerMonth value n) (\<lambda>d. Inr (Some d)) else Inr None)
      else rguard (\<not> isBlank value) (lineError n ''days per month apply to people priced per day.'') (Inr None))"

definition parse_calendar :: "price_basis \<Rightarrow> jsval \<Rightarrow> int \<Rightarrow> costing_error + string option" where
  "parse_calendar basis calendarRaw n =
     rguard (\<not> isBlank calendarRaw \<and> (case calendarRaw of JStr _ \<Rightarrow> False | _ \<Rightarrow> True))
       (lineError n ''the calendar was not found.'')
     (let profile = (if isBlank calendarRaw then None else case calendarRaw of JStr s \<Rightarrow> Some (js_trim s) | _ \<Rightarrow> None) in
      rguard (basis = PerDay \<and> profile = None) (lineError n ''choose a calendar for a price per day.'')
      (rguard (basis \<noteq> PerDay \<and> profile \<noteq> None) (lineError n ''a calendar is used only with a price per day.'')
      (Inr profile)))"

definition parseCostLine :: "jsval \<Rightarrow> int \<Rightarrow> int \<Rightarrow> costing_error + cost_line" where
  "parseCostLine raw year n =
     (case raw of
        JObj line \<Rightarrow>
          rbind (parse_label (obj_get line ''label'') n) (\<lambda>label.
          rbind (choice unit_text (obj_get line ''quantity_unit'') QUANTITY_UNITS n ''unit'' ''choose a unit: days, people or pieces.'') (\<lambda>qu.
          rbind (limited (obj_get line ''quantity'') QUANTITY_LIMITS n) (\<lambda>quantity.
          rbind (limited (obj_get line ''unit_price'') UNIT_PRICE_LIMITS n) (\<lambda>unit_price.
          rbind (choice basis_text (obj_get line ''price_basis'') PRICE_BASES n ''price basis''
                   ''choose a price basis: per day, per month or per piece.'') (\<lambda>basis.
          rguard (basis \<notin> set (BASES_BY_UNIT qu)) (lineError n (BASIS_FOR_UNIT qu))
          (rbind (if isBlank (obj_get line ''frequency'') \<and> length (FREQUENCIES_BY_UNIT qu) = 1
                  then Inr (hd (FREQUENCIES_BY_UNIT qu))
                  else choice frequency_text (obj_get line ''frequency'') FREQUENCIES n ''frequency''
                         ''choose how often: per month or once.'') (\<lambda>freq.
          rguard (basis = PerMonth \<and> freq \<noteq> EachMonth) (lineError n ''a price per month applies per month.'')
          (rguard (freq \<notin> set (FREQUENCIES_BY_UNIT qu)) (lineError n (FREQUENCY_FOR_UNIT qu))
          (rbind (parse_presence qu basis (obj_get line ''days_per_month'') n) (\<lambda>days_per_month.
          rguard (isBlank (obj_get line ''period_start'') \<or> isBlank (obj_get line ''period_end''))
            (lineError n ''give the start and the end of its period.'')
          (let period_start = js_trim (js_string (obj_get line ''period_start''));
               period_end = js_trim (js_string (obj_get line ''period_end''))
           in rbind (lineMonths year freq period_start period_end n) (\<lambda>_.
              rbind (parse_calendar basis (obj_get line ''working_day_profile_id'') n) (\<lambda>profile.
              Inr \<lparr>cl_label = label, cl_unit = qu, cl_quantity = quantity, cl_unit_price = unit_price,
                cl_basis = basis, cl_frequency = freq, cl_days_per_month = days_per_month,
                cl_start = period_start, cl_end = period_end, cl_profile = profile\<rparr>)))))))))))))
      | _ \<Rightarrow> Inl (lineError n ''send the line as an object.''))"

definition parseCostLines :: "jsval \<Rightarrow> int \<Rightarrow> costing_error + cost_line list" where
  "parseCostLines raw year =
     (case raw of
        JArr entries \<Rightarrow>
          rguard (length entries > MAX_LINES)
            (CostingInputError (''A column holds at most '' @ show_nat MAX_LINES @ '' lines.''))
            (rmap (\<lambda>(entry, n). parseCostLine entry year n) (zip entries [1..int (length entries)]))
      | _ \<Rightarrow> Inl (CostingInputError ''Send the lines as a list.''))"

subsection \<open>Comparing lines\<close>

definition same_value :: "string \<Rightarrow> string \<Rightarrow> costing_error + bool" where
  "same_value a b =
     rbind (dec (decimal_from (DLit (NText a)))) (\<lambda>d.
     rbind (dec (decimal_cmp d (DLit (NText b)))) (\<lambda>c. Inr (c = 0)))"

fun sameDecimal :: "string option \<Rightarrow> string option \<Rightarrow> costing_error + bool" where
  "sameDecimal (Some a) (Some b) = same_value a b"
| "sameDecimal a b = Inr (a = b)"

text \<open>\<open>a && b\<close>: the second is not evaluated when the first is false.\<close>

definition rand :: "'e + bool \<Rightarrow> 'e + bool \<Rightarrow> 'e + bool" where
  "rand a b = rbind a (\<lambda>x. if x then b else Inr False)"

definition same_line :: "cost_line \<Rightarrow> cost_line \<Rightarrow> costing_error + bool" where
  "same_line line other =
     rand (Inr (cl_label line = cl_label other \<and> cl_unit line = cl_unit other))
    (rand (same_value (cl_quantity line) (cl_quantity other))
    (rand (same_value (cl_unit_price line) (cl_unit_price other))
    (rand (Inr (cl_basis line = cl_basis other \<and> cl_frequency line = cl_frequency other))
    (rand (sameDecimal (cl_days_per_month line) (cl_days_per_month other))
          (Inr (cl_start line = cl_start other \<and> cl_end line = cl_end other \<and> cl_profile line = cl_profile other))))))"

fun every_line :: "cost_line list \<Rightarrow> cost_line list \<Rightarrow> costing_error + bool" where
  "every_line (x # xs) (y # ys) = rand (same_line x y) (every_line xs ys)"
| "every_line _ _ = Inr True"

definition sameLines :: "cost_line list \<Rightarrow> cost_line list \<Rightarrow> costing_error + bool" where
  "sameLines a b = (if length a \<noteq> length b then Inr False else every_line a b)"

subsection \<open>Computing a line\<close>

definition divide_dec :: "decimal \<Rightarrow> decimal \<Rightarrow> int \<Rightarrow> costing_error + decimal" where
  "divide_dec a b decimals =
     dec (decimal_from (DLit (NText (lit_text (divRoundHalfAway (units a * 10 ^ nat decimals) (units b)) decimals))))"

definition split_error :: "spread_error \<Rightarrow> costing_error" where
  "split_error e = (case e of SpreadInputError m \<Rightarrow> CostThrow m | SpreadError m \<Rightarrow> CostThrow m)"

definition place_months :: "int list \<Rightarrow> 'a list \<Rightarrow> 'a \<Rightarrow> 'a list" where
  "place_months months vs zero = scatter (\<lambda>v _. v) (map (\<lambda>m. nat (m - 1)) months) vs (replicate 12 zero)"

definition splitCents :: "int \<Rightarrow> int list \<Rightarrow> costing_error + int list" where
  "splitCents tot months =
     rbind (rcatch split_error (splitTowardZero tot (map (\<lambda>_. 1) months))) (\<lambda>shares. Inr (place_months months shares 0))"

definition DAY_SCALE :: int where
  "DAY_SCALE = 10 ^ nat (DECIMAL_SCALE_DIGITS - 6)"

definition splitDays :: "decimal \<Rightarrow> int list \<Rightarrow> costing_error + decimal list" where
  "splitDays quantity months =
     rbind (dec (decimal_divRound quantity 1 6)) (\<lambda>q.
     rbind (rcatch split_error (splitTowardZero (units q sdiv DAY_SCALE) (map (\<lambda>_. 1) months))) (\<lambda>shares.
     rbind (rmap (\<lambda>share. dec (decimal_from (DLit (NText (lit_text share 6))))) shares) (\<lambda>days.
     Inr (place_months months days decimal_ZERO))))"

definition sum_dec :: "decimal list \<Rightarrow> decimal" where
  "sum_dec ds = foldl dplus decimal_ZERO ds"

definition fteAverages :: "decimal list \<Rightarrow> int list \<Rightarrow> costing_error + (decimal \<times> decimal)" where
  "fteAverages fte months =
     rbind (dec (decimal_divRound (sum_dec fte) 12 2)) (\<lambda>y.
     rbind (if months \<noteq> []
            then dec (decimal_divRound (sum_dec (map (\<lambda>m. fte ! nat (m - 1)) months)) (int (length months)) 2)
            else Inr decimal_ZERO) (\<lambda>p. Inr (y, p)))"

definition in_limit :: "int \<Rightarrow> int \<Rightarrow> costing_error + int" where
  "in_limit n cents =
     rguard ((if cents < 0 then - cents else cents) \<ge> CENTS_LIMIT) (lineError n ''the computed amount is too large.'') (Inr cents)"

definition line_days :: "cost_line \<Rightarrow> int \<Rightarrow> line_calendar option \<Rightarrow> int \<Rightarrow> costing_error + decimal list option" where
  "line_days line year calendar n =
     (if cl_basis line \<noteq> PerDay then Inr None
      else case calendar of
             None \<Rightarrow> Inl (lineError n ''choose a calendar for a price per day.'')
           | Some c \<Rightarrow>
               case cal_days c of
                 None \<Rightarrow> Inl (lineError n (missingCalendarYearMessage (cal_name c) year))
               | Some texts \<Rightarrow>
                   rguard (length texts \<noteq> 12)
                     (CostThrow (''Calendar '' @ cal_name c @ '' has '' @ show_nat (length texts) @ '' months for '' @ show_int year @ ''.''))
                   (rbind (rmap (\<lambda>t. dec (decimal_from (DLit (NText t)))) texts) (\<lambda>days. Inr (Some days))))"

text \<open>\<open>days![m - 1]\<close>: reading the calendar of a line that has none is a \<open>TypeError\<close>.\<close>

definition day_of :: "decimal list option \<Rightarrow> int \<Rightarrow> costing_error + decimal" where
  "day_of days m =
     (case days of None \<Rightarrow> Inl (CostThrow ''Cannot read properties of null'') | Some ds \<Rightarrow> Inr (ds ! nat (m - 1)))"

definition month_amount :: "cost_line \<Rightarrow> decimal \<Rightarrow> decimal option \<Rightarrow> decimal list option \<Rightarrow> int \<Rightarrow> costing_error + int" where
  "month_amount line perUnit presence days m =
     (if cl_basis line = PerDay
      then rbind (case presence of Some p \<Rightarrow> Inr p | None \<Rightarrow> day_of days m) (\<lambda>d. Inr (decimal_toCents (dtimes d perUnit)))
      else Inr (decimal_toCents perUnit))"

definition perWorkingDay :: "decimal list option \<Rightarrow> decimal \<Rightarrow> int \<Rightarrow> costing_error + decimal" where
  "perWorkingDay days worked m =
     rbind (day_of days m) (\<lambda>d. if dcmp d decimal_ZERO > 0 then divide_dec worked d 6 else Inr decimal_ZERO)"

definition line_cents :: "cost_line \<Rightarrow> decimal \<Rightarrow> decimal option \<Rightarrow> decimal list option \<Rightarrow> int list \<Rightarrow> int \<Rightarrow> costing_error + int list" where
  "line_cents line perUnit presence days months n =
     (if cl_frequency line = Once
      then rbind (in_limit n (decimal_toCents perUnit)) (\<lambda>c. splitCents c months)
      else rbind (rmap (month_amount line perUnit presence days) months) (\<lambda>amounts. Inr (place_months months amounts 0)))"

definition line_fte :: "cost_line \<Rightarrow> decimal \<Rightarrow> decimal option \<Rightarrow> decimal list option \<Rightarrow> int list \<Rightarrow> costing_error + decimal list" where
  "line_fte line quantity presence days months =
     (case cl_unit line of
        People \<Rightarrow>
          rbind (rmap (\<lambda>m. case presence of Some p \<Rightarrow> perWorkingDay days (dtimes quantity p) m | None \<Rightarrow> Inr quantity) months)
            (\<lambda>ftes. Inr (place_months months ftes decimal_ZERO))
      | Days \<Rightarrow>
          rbind (splitDays quantity months) (\<lambda>bought.
          rbind (rmap (\<lambda>m. perWorkingDay days (bought ! nat (m - 1)) m) months)
            (\<lambda>ftes. Inr (place_months months ftes decimal_ZERO)))
      | Pieces \<Rightarrow> Inr (replicate 12 decimal_ZERO))"

definition computeLine :: "cost_line \<Rightarrow> int \<Rightarrow> line_calendar option \<Rightarrow> int \<Rightarrow> costing_error + line_result" where
  "computeLine line year calendar n =
     rbind (lineMonths year (cl_frequency line) (cl_start line) (cl_end line) n) (\<lambda>months.
     rbind (dec (decimal_from (DLit (NText (cl_quantity line))))) (\<lambda>quantity.
     rbind (dec (decimal_mul quantity (DLit (NText (cl_unit_price line))))) (\<lambda>perUnit.
     rbind (line_days line year calendar n) (\<lambda>days.
     rbind (case cl_days_per_month line of
              None \<Rightarrow> Inr None
            | Some p \<Rightarrow> rbind (dec (decimal_from (DLit (NText p)))) (\<lambda>d. Inr (Some d))) (\<lambda>presence.
     rbind (line_cents line perUnit presence days months n) (\<lambda>month_cents.
     rbind (rmap (in_limit n) month_cents) (\<lambda>_.
     rbind (in_limit n (foldl (+) 0 month_cents)) (\<lambda>total_cents.
     rbind (line_fte line quantity presence days months) (\<lambda>fte.
     rbind (fteAverages fte months) (\<lambda>(fte_year, fte_period).
     Inr \<lparr>lr_active = months,
       lr_day_counts = map_option (map decimal_toString) days,
       lr_total_days = map_option (\<lambda>ds. decimal_toString (sum_dec (map (\<lambda>m. ds ! nat (m - 1)) months))) days,
       lr_month_cents = month_cents,
       lr_total_cents = total_cents,
       lr_fte_months = map decimal_toString fte,
       lr_fte = decimal_toString fte_year,
       lr_fte_period = decimal_toString fte_period\<rparr>))))))))))"

subsection \<open>Computing a column\<close>

definition line_calendar_of :: "(string \<Rightarrow> line_calendar option) \<Rightarrow> cost_line \<Rightarrow> line_calendar option" where
  "line_calendar_of calendars line =
     (case cl_profile line of None \<Rightarrow> None | Some id' \<Rightarrow> if id' = [] then None else calendars id')"

text \<open>The twelve months of the column, line by line.\<close>

definition add_fte_text :: "decimal \<times> string \<Rightarrow> costing_error + decimal" where
  "add_fte_text p = dec (decimal_add (fst p) (DLit (NText (snd p))))"

fun add_results :: "line_result list \<Rightarrow> int list \<Rightarrow> decimal list \<Rightarrow> costing_error + (int list \<times> decimal list)" where
  "add_results [] cents fte = Inr (cents, fte)"
| "add_results (r # rs) cents fte =
     rbind (rmap add_fte_text (zip fte (lr_fte_months r))) (\<lambda>fte'.
     add_results rs (map (\<lambda>(a, b). a + b) (zip cents (lr_month_cents r))) fte')"

text \<open>A \<open>Set\<close> of months in insertion order.\<close>

definition add_to_set :: "int list \<Rightarrow> int list \<Rightarrow> int list" where
  "add_to_set acc ms = foldl (\<lambda>acc m. if m \<in> set acc then acc else acc @ [m]) acc ms"

definition covered_months :: "line_result list \<Rightarrow> int list" where
  "covered_months results = foldl add_to_set [] (map lr_active results)"

definition computeColumn :: "cost_line list \<Rightarrow> int \<Rightarrow> (string \<Rightarrow> line_calendar option) \<Rightarrow> costing_error + column_result" where
  "computeColumn lines year calendars =
     rbind (rmap (\<lambda>(line, n). computeLine line year (line_calendar_of calendars line) n)
              (zip lines [1..int (length lines)])) (\<lambda>results.
     rbind (add_results results (replicate 12 0) (replicate 12 decimal_ZERO)) (\<lambda>(month_cents, fte).
     let active = covered_months results;
         counted = covered_months (map snd (filter (\<lambda>(line, r). cl_unit line \<noteq> Pieces) (zip lines results)));
         total_cents = foldl (+) 0 month_cents
     in rguard (list_ex (\<lambda>c. (if c < 0 then - c else c) \<ge> CENTS_LIMIT) (month_cents @ [total_cents]))
          (CostingInputError COMPUTED_TOO_LARGE_MESSAGE)
        (rbind (fteAverages fte counted) (\<lambda>(fte_year, fte_period).
         rbind (dec (decimal_cmp fte_year (DLit (NText FTE_LIMIT)))) (\<lambda>c.
         rguard (c \<ge> 0) (CostingInputError FTE_TOO_LARGE_MESSAGE)
         (Inr \<lparr>cr_lines = results, cr_active = sort active, cr_month_cents = month_cents, cr_total_cents = total_cents,
           cr_fte_months = map decimal_toString fte, cr_fte = decimal_toString fte_year,
           cr_fte_period = decimal_toString fte_period\<rparr>))))))"

subsection \<open>What an accepted line is\<close>

lemma dec_eq_Inr [simp]: "dec r = Inr x \<longleftrightarrow> r = Inr x"
  by (simp add: dec_def rcatch_eq_Inr)

lemma dec_Inr [simp]: "dec (Inr x) = Inr x"
  by (simp add: dec_def)

lemma choice_Inr: "choice text_of v allowed n what blank = Inr x \<Longrightarrow> x \<in> set allowed"
  by (auto simp: choice_def rguard_eq_Inr split: option.splits jsval.splits dest: find_some)

lemma digits_literal:
  assumes "all_digits s" "s \<noteq> []"
  shows "decimal_of_literal (NText s) = Inr (Decimal (int (nat_of_digits s) * 10 ^ 20))"
  using parse_text_canonical [OF assms, of "[]" "[]"]
  by (simp add: decimal_of_literal_def frac_part_def DECIMAL_SCALE_DIGITS_def rescale_up)

lemma limit_literals:
  "decimal_of_literal (NText ''0'') = Inr (Decimal 0)"
  "decimal_of_literal (NText ''31'') = Inr (Decimal (31 * 10 ^ 20))"
  "decimal_of_literal (NText ''1000000000'') = Inr (Decimal (10 ^ 29))"
  "decimal_of_literal (NText ''100000000000000'') = Inr (Decimal (10 ^ 34))"
  "decimal_of_literal (NText ''10000000'') = Inr (Decimal (10 ^ 27))"
  using digits_literal [of "''0''"] digits_literal [of "''31''"] digits_literal [of "''1000000000''"]
    digits_literal [of "''100000000000000''"] digits_literal [of "''10000000''"]
  by (simp_all add: is_digit_def nat_of_digits_def digit_val_def)

lemma zero_literal: "decimal_of_literal (NNum (JFin ''0'')) = Inr (Decimal 0)"
  by code_simp

lemma parseLimitedDecimal_input: "parseLimitedDecimal v limits = Inr d \<Longrightarrow> limited_input v \<noteq> None"
  by (cases v) (auto simp: parseLimitedDecimal_def split: if_splits)

lemma limited_quantity:
  "limited v QUANTITY_LIMITS n = Inr t \<Longrightarrow>
     \<exists>d. t = decimal_toString d \<and> 10 ^ 17 dvd units d \<and> 0 \<le> units d \<and> units d < 10 ^ 29"
proof -
  assume "limited v QUANTITY_LIMITS n = Inr t"
  then obtain d where d: "parseLimitedDecimal v QUANTITY_LIMITS = Inr d" "t = decimal_toString d"
    by (auto simp: limited_def split: sum.splits dec_error.splits)
  then obtain input where "limited_input v = Some input" using parseLimitedDecimal_input by blast
  from parseLimitedDecimal_iff [OF this, of QUANTITY_LIMITS "Decimal (10 ^ 29)" "Decimal 0" d] d(1)
  have "10 ^ 17 dvd units d \<and> 0 \<le> units d \<and> \<bar>units d\<bar> < 10 ^ 29"
    by (simp add: QUANTITY_LIMITS_def limit_literals del: abs_of_nonneg)
  with d show ?thesis by auto
qed

lemma limited_price:
  "limited v UNIT_PRICE_LIMITS n = Inr t \<Longrightarrow>
     \<exists>d. t = decimal_toString d \<and> 10 ^ 16 dvd units d \<and> \<bar>units d\<bar> < 10 ^ 34"
proof -
  assume "limited v UNIT_PRICE_LIMITS n = Inr t"
  then obtain d where d: "parseLimitedDecimal v UNIT_PRICE_LIMITS = Inr d" "t = decimal_toString d"
    by (auto simp: limited_def split: sum.splits dec_error.splits)
  then obtain input where "limited_input v = Some input" using parseLimitedDecimal_input by blast
  from parseLimitedDecimal_iff [OF this, of UNIT_PRICE_LIMITS "Decimal (10 ^ 34)" "Decimal 0" d] d(1)
  have "10 ^ 16 dvd units d \<and> \<bar>units d\<bar> < 10 ^ 34"
    by (simp add: UNIT_PRICE_LIMITS_def limit_literals)
  with d show ?thesis by auto
qed

lemma parseDaysPerMonth_Inr:
  assumes "parseDaysPerMonth v n = Inr t"
  shows "\<exists>d. t = decimal_toString d \<and> 10 ^ 17 dvd units d \<and> 0 < units d \<and> units d \<le> 31 * 10 ^ 20"
proof -
  obtain m0 s0 where p: "presence_literal v = Some (m0, s0)" and rest: "presence_checks m0 s0 n = Inr t"
    using assms by (auto simp: parseDaysPerMonth_def split: option.splits)
  have lit: "\<exists>i. parseDecimalLiteral i = Inr (m0, s0)"
    using p by (auto simp only: presence_literal_def split: if_splits jsval.splits sum.splits)
  obtain m s where dz: "drop_zeros m0 s0 = (m, s)" by (cases "drop_zeros m0 s0")
  have s: "s \<le> 3" using rest by (simp add: presence_checks_def dz rguard_eq_Inr)
  have "- 400 \<le> s" using drop_zeros_spec [OF dz] lit parseDecimalLiteral_scale by force
  with s have L: "decimal_of_literal (NText (lit_text m s)) = Inr (Decimal (m * 10 ^ nat (20 - s)))"
    by (intro decimal_of_lit_text) simp_all
  define u where "u = m * 10 ^ nat (20 - s)"
  have t: "t = decimal_toString (Decimal u)" "0 < u" "u \<le> 31 * 10 ^ 20"
    using rest s unfolding presence_checks_def dz
    by (auto simp: L limit_literals zero_literal decimal_cmp_def dcmp_def DAYS_PER_MONTH_MAX_def rguard_eq_Inr
         simp flip: u_def split: if_splits)
  have "nat (20 - s) = 17 + nat (3 - s)" using s by simp
  then have "10 ^ 17 dvd u" unfolding u_def by (simp add: power_add)
  with t show ?thesis by (intro exI [of _ "Decimal u"]) simp
qed

text \<open>An accepted line: a unit, basis and frequency that go together, exact decimals in their ranges, a
  calendar exactly for a price per day, a period with a month that counts.\<close>

definition line_ok :: "int \<Rightarrow> cost_line \<Rightarrow> bool" where
  "line_ok year line \<longleftrightarrow>
     length (cl_label line) \<le> 200
     \<and> cl_basis line \<in> set (BASES_BY_UNIT (cl_unit line)) \<and> cl_frequency line \<in> set (FREQUENCIES_BY_UNIT (cl_unit line))
     \<and> (\<exists>d. cl_quantity line = decimal_toString d \<and> 10 ^ 17 dvd units d \<and> 0 \<le> units d \<and> units d < 10 ^ 29)
     \<and> (\<exists>d. cl_unit_price line = decimal_toString d \<and> 10 ^ 16 dvd units d \<and> \<bar>units d\<bar> < 10 ^ 34)
     \<and> (case cl_days_per_month line of
          None \<Rightarrow> True
        | Some t \<Rightarrow> cl_unit line = People \<and> cl_basis line = PerDay
            \<and> (\<exists>d. t = decimal_toString d \<and> 10 ^ 17 dvd units d \<and> 0 < units d \<and> units d \<le> 31 * 10 ^ 20))
     \<and> (cl_profile line \<noteq> None) = (cl_basis line = PerDay)
     \<and> js_trim (cl_start line) = cl_start line
     \<and> (\<exists>months. \<forall>n. lineMonths year (cl_frequency line) (cl_start line) (cl_end line) n = Inr months)"

lemma lineMonths_any: "lineMonths year freq a b n = Inr months \<Longrightarrow> lineMonths year freq a b n' = Inr months"
  by (cases "activeMonths year (Some a) (Some b)")
    (auto simp: lineMonths_def Let_def rguard_eq_Inr split: spread_error.splits if_splits)

lemma parse_calendar_Inr: "parse_calendar basis v n = Inr p \<Longrightarrow> (p \<noteq> None) = (basis = PerDay)"
  by (auto simp: parse_calendar_def Let_def rguard_eq_Inr split: if_splits)

lemma parse_presence_Inr:
  "parse_presence qu basis v n = Inr p \<Longrightarrow>
     (case p of None \<Rightarrow> True | Some t \<Rightarrow> qu = People \<and> basis = PerDay
        \<and> (\<exists>d. t = decimal_toString d \<and> 10 ^ 17 dvd units d \<and> 0 < units d \<and> units d \<le> 31 * 10 ^ 20))"
  by (auto simp: parse_presence_def result_simps split: if_splits dest!: parseDaysPerMonth_Inr)

lemma parse_label_Inr: "parse_label v n = Inr l \<Longrightarrow> length l \<le> 200"
  by (auto simp: parse_label_def Let_def rguard_eq_Inr LABEL_MAX_LENGTH_def split: jsval.splits if_splits)

lemma parseCostLine_line_ok:
  assumes "parseCostLine raw year n = Inr line"
  shows "line_ok year line"
proof -
  obtain kvs where raw: "raw = JObj kvs" using assms by (cases raw) (auto simp: parseCostLine_def)
  from assms [unfolded parseCostLine_def raw jsval.case Let_def]
  obtain label qu quantity price basis freq dpm months profile where
    parts: "parse_label (obj_get kvs ''label'') n = Inr label"
    "limited (obj_get kvs ''quantity'') QUANTITY_LIMITS n = Inr quantity"
    "limited (obj_get kvs ''unit_price'') UNIT_PRICE_LIMITS n = Inr price"
    "basis \<in> set (BASES_BY_UNIT qu)" "freq \<in> set (FREQUENCIES_BY_UNIT qu)"
    "parse_presence qu basis (obj_get kvs ''days_per_month'') n = Inr dpm"
    "lineMonths year freq (js_trim (js_string (obj_get kvs ''period_start'')))
       (js_trim (js_string (obj_get kvs ''period_end''))) n = Inr months"
    "parse_calendar basis (obj_get kvs ''working_day_profile_id'') n = Inr profile" and
    line: "\<lparr>cl_label = label, cl_unit = qu, cl_quantity = quantity, cl_unit_price = price,
                cl_basis = basis, cl_frequency = freq, cl_days_per_month = dpm,
                cl_start = js_trim (js_string (obj_get kvs ''period_start'')),
                cl_end = js_trim (js_string (obj_get kvs ''period_end'')), cl_profile = profile\<rparr> = line"
    apply (simp only: rbind_eq_Inr rguard_eq_Inr sum.inject not_not)
    apply (elim exE conjE)
    by (rule that; assumption)
  show ?thesis
    unfolding line_ok_def line [symmetric] cost_line.simps
    using parse_label_Inr [OF parts(1)] limited_quantity [OF parts(2)] limited_price [OF parts(3)] parts(4,5)
      parse_presence_Inr [OF parts(6)] lineMonths_any [OF parts(7)] parse_calendar_Inr [OF parts(8)] js_trim_idem
    by blast
qed

text \<open>C5: A line that is accepted is well formed, whatever the request held: the rest of the computation relies
  on nothing else.\<close>

theorem parseCostLines_ok:
  assumes "parseCostLines raw year = Inr lines"
  shows "length lines \<le> 50 \<and> list_all (line_ok year) lines"
proof -
  obtain es where raw: "raw = JArr es" using assms by (cases raw) (auto simp: parseCostLines_def)
  have l: "length es \<le> 50" and m: "rmap (\<lambda>(entry, n). parseCostLine entry year n) (zip es [1..int (length es)]) = Inr lines"
    using assms by (auto simp: parseCostLines_def raw rguard_eq_Inr MAX_LINES_def)
  have "line_ok year (lines ! i)" if "i < length lines" for i
  proof -
    have "i < length (zip es [1..int (length es)])" using that rmap_length [OF m] by simp
    from rmap_nth [OF m this] show ?thesis
      by (cases "zip es [1..int (length es)] ! i") (auto intro: parseCostLine_line_ok)
  qed
  with l rmap_length [OF m] show ?thesis by (simp add: list_all_length)
qed

lemma digit_char_simps:
  "digit_char 0 = CHR ''0''" "digit_char (Suc 0) = CHR ''1''" "digit_char 1 = CHR ''1''" "digit_char 2 = CHR ''2''" "digit_char 3 = CHR ''3''"
  "digit_char 4 = CHR ''4''" "digit_char 5 = CHR ''5''" "digit_char 6 = CHR ''6''" "digit_char 7 = CHR ''7''"
  "digit_char 8 = CHR ''8''" "digit_char 9 = CHR ''9''"
  by code_simp+

lemma decimal_texts: "decimal_toString (Decimal (3 * 10 ^ 20)) = ''3''" "decimal_toString (Decimal (105 * 10 ^ 19)) = ''10.5''"
  by (simp_all add: decimal_toString_def Let_def show_nat.simps pad_start_def strip_trailing_zeros_def digit_char_simps)


lemma limited_witness_texts:
  "limited (JNum (JFin ''3'')) QUANTITY_LIMITS n = Inr ''3''"
  "limited (JStr ''10,5'') UNIT_PRICE_LIMITS n = Inr ''10.5''"
proof -
  have p: "parse_text ''3'' = Inr (3, 0)" "parse_text ''10,5'' = Inr (105, 1)"
    "js_trim ''10,5'' \<noteq> []" by code_simp+
  have "parseLimitedDecimal (JNum (JFin ''3'')) QUANTITY_LIMITS = Inr (Decimal (3 * 10 ^ 20))"
    by (subst parseLimitedDecimal_iff [where input = "NNum (JFin ''3'')" and hi = "Decimal (10 ^ 29)" and lo = "Decimal 0"])
      (simp_all add: QUANTITY_LIMITS_def limit_literals p)
  then show "limited (JNum (JFin ''3'')) QUANTITY_LIMITS n = Inr ''3''"
    by (simp only: limited_def sum.case decimal_texts)
  have "parseLimitedDecimal (JStr ''10,5'') UNIT_PRICE_LIMITS = Inr (Decimal (105 * 10 ^ 19))"
    by (subst parseLimitedDecimal_iff [where input = "NText ''10,5''" and hi = "Decimal (10 ^ 34)" and lo = "Decimal 0"])
      (simp_all add: UNIT_PRICE_LIMITS_def limit_literals p)
  then show "limited (JStr ''10,5'') UNIT_PRICE_LIMITS n = Inr ''10.5''"
    by (simp only: limited_def sum.case decimal_texts)
qed

definition sample_line :: cost_line where
  "sample_line = \<lparr>cl_label = [], cl_unit = Pieces, cl_quantity = ''3'', cl_unit_price = ''10.5'', cl_basis = PerPiece,
     cl_frequency = Once, cl_days_per_month = None, cl_start = ''2026-03-02'', cl_end = ''2026-03-02'', cl_profile = None\<rparr>"

lemma sample_line_parses: "\<exists>raw. parseCostLines raw 2026 = Inr [sample_line]"
proof -
  define kvs where "kvs = [(''quantity_unit'', JStr ''pieces''), (''quantity'', JNum (JFin ''3'')),
       (''unit_price'', JStr ''10,5''), (''price_basis'', JStr ''per_piece''), (''frequency'', JStr ''once''),
       (''period_start'', JStr ''2026-03-02''), (''period_end'', JStr ''2026-03-02'')]"
  have get: "obj_get kvs ''label'' = JUndef" "obj_get kvs ''quantity_unit'' = JStr ''pieces''"
    "obj_get kvs ''quantity'' = JNum (JFin ''3'')" "obj_get kvs ''unit_price'' = JStr ''10,5''"
    "obj_get kvs ''price_basis'' = JStr ''per_piece''" "obj_get kvs ''frequency'' = JStr ''once''"
    "obj_get kvs ''period_start'' = JStr ''2026-03-02''" "obj_get kvs ''period_end'' = JStr ''2026-03-02''"
    "obj_get kvs ''days_per_month'' = JUndef" "obj_get kvs ''working_day_profile_id'' = JUndef"
    unfolding kvs_def by code_simp+
  have steps: "parse_label JUndef 1 = Inr []"
    "choice unit_text (JStr ''pieces'') QUANTITY_UNITS 1 ''unit'' ''choose a unit: days, people or pieces.'' = Inr Pieces"
    "choice basis_text (JStr ''per_piece'') PRICE_BASES 1 ''price basis'' ''choose a price basis: per day, per month or per piece.'' = Inr PerPiece"
    "choice frequency_text (JStr ''once'') FREQUENCIES 1 ''frequency'' ''choose how often: per month or once.'' = Inr Once"
    "isBlank (JStr ''once'') = False" "isBlank (JStr ''2026-03-02'') = False"
    "parse_presence Pieces PerPiece JUndef 1 = Inr None" "parse_calendar PerPiece JUndef 1 = Inr None"
    "js_trim (js_string (JStr ''2026-03-02'')) = ''2026-03-02''"
    "lineMonths 2026 Once ''2026-03-02'' ''2026-03-02'' 1 = Inr [3]"
    "basis_text PerPiece = ''per_piece''" "PerPiece \<in> set (BASES_BY_UNIT Pieces)" "Once \<in> set (FREQUENCIES_BY_UNIT Pieces)"
    by code_simp+
  have "parseCostLine (JObj kvs) 2026 1 = Inr \<lparr>cl_label = [], cl_unit = Pieces, cl_quantity = ''3'', cl_unit_price = ''10.5'',
      cl_basis = PerPiece, cl_frequency = Once, cl_days_per_month = None, cl_start = ''2026-03-02'', cl_end = ''2026-03-02'', cl_profile = None\<rparr>"
    unfolding parseCostLine_def jsval.case get steps(1-10) limited_witness_texts rbind_Inr Let_def
    by (simp add: steps)
  then have "parseCostLines (JArr [JObj kvs]) 2026 = Inr [\<lparr>cl_label = [], cl_unit = Pieces, cl_quantity = ''3'', cl_unit_price = ''10.5'',
      cl_basis = PerPiece, cl_frequency = Once, cl_days_per_month = None, cl_start = ''2026-03-02'', cl_end = ''2026-03-02'', cl_profile = None\<rparr>]"
    by (simp add: parseCostLines_def MAX_LINES_def)
  then show ?thesis unfolding kvs_def sample_line_def by blast
qed


lemma sample_line_ok: "line_ok 2026 sample_line"
proof -
  obtain raw where r: "parseCostLines raw 2026 = Inr [sample_line]" using sample_line_parses by blast
  then obtain es where es: "raw = JArr es" by (cases raw) (auto simp: parseCostLines_def)
  with r have m: "rmap (\<lambda>(entry, n). parseCostLine entry 2026 n) (zip es [1..int (length es)]) = Inr [sample_line]"
    by (simp add: parseCostLines_def rguard_eq_Inr)
  have len: "length es = 1" using rmap_length [OF m] by simp
  then have "es \<noteq> []" by auto
  with rmap_nth [OF m, of 0] len have "parseCostLine (es ! 0) 2026 1 = Inr sample_line" by simp
  then show ?thesis by (rule parseCostLine_line_ok)
qed

lemma parseCostLines_ok_witness: "\<exists>raw. parseCostLines raw 2026 = Inr [sample_line] \<and> list_all (line_ok 2026) [sample_line]"
proof -
  obtain raw where r: "parseCostLines raw 2026 = Inr [sample_line]" using sample_line_parses by blast
  from parseCostLines_ok [OF r] r show ?thesis by blast
qed

subsection \<open>Computed lines\<close>

definition months_ok :: "int list \<Rightarrow> bool" where
  "months_ok ms \<longleftrightarrow> ms \<noteq> [] \<and> distinct ms \<and> set ms \<subseteq> {1..12}"

lemma iso_month_part:
  assumes "0 \<le> y" "y < 10000" "0 \<le> m" "m < 100" "0 \<le> d" "d < 100"
  shows "int (nat_of_digits (take 2 (drop 5 (iso_date y m d)))) = m"
proof -
  have "take 2 (drop 5 (iso_date y m d)) = two_digits m"
    using assms by (simp add: iso_date_def year_digits two_digits_length)
  then show ?thesis using assms by simp
qed

lemma lineMonths_ok:
  assumes "lineMonths year freq a b n = Inr ms" "1000 \<le> year" "year < 10000" "js_trim a = a"
  shows "months_ok ms"
proof -
  obtain ms0 where ms0: "activeMonths year (Some a) (Some b) = Inr ms0"
    using assms(1) by (cases "activeMonths year (Some a) (Some b)") (auto simp: lineMonths_def split: spread_error.splits)
  then obtain x y where bd: "bound_day year 1 1 (Some a) x" and
    ms0': "ms0 = filter (\<lambda>m. x \<le> make_day year (m - 1) 15 \<and> make_day year (m - 1) 15 \<le> y) MONTHS"
    unfolding activeMonths_iff [OF assms(2,3)] by blast
  obtain m d where v: "valid_date year m d" "a = iso_date year m d"
    using bd assms(4) by (auto simp: bound_day_def)
  have m: "1 \<le> m" "m \<le> 12" "1 \<le> d" "d \<le> 31" using valid_date_bounds [OF v(1)] by simp_all
  have part: "int (nat_of_digits (take 2 (drop 5 a))) = m"
    unfolding v(2) using assms(2,3) m by (intro iso_month_part) simp_all
  from assms(1) have ms: "ms = (if ms0 = [] \<and> freq = Once \<and> a = b then [int (nat_of_digits (take 2 (drop 5 a)))] else ms0)" "ms \<noteq> []"
    by (auto simp: lineMonths_def ms0 Let_def rguard_eq_Inr split: if_splits)
  note ms = ms [unfolded part]
  show ?thesis
  proof (cases "ms0 = []")
    case True
    with ms m show ?thesis by (auto simp: months_ok_def split: if_splits)
  next
    case False
    have "set ms0 \<subseteq> set MONTHS" by (auto simp: ms0')
    then have "set ms0 \<subseteq> {1..12}" using MONTHS_props(3) by (rule subset_trans)
    moreover have "distinct ms0" by (simp add: ms0')
    ultimately show ?thesis using False ms by (simp add: months_ok_def)
  qed
qed

lemma months_ok_index:
  assumes "months_ok ms"
  shows "distinct (map (\<lambda>m. nat (m - 1)) ms)" "set (map (\<lambda>m. nat (m - 1)) ms) \<subseteq> {..<12}"
    and "k < 12 \<Longrightarrow> k \<in> set (map (\<lambda>m. nat (m - 1)) ms) \<longleftrightarrow> int k + 1 \<in> set ms"
proof -
  have r: "1 \<le> m \<and> m \<le> 12" if "m \<in> set ms" for m using assms that by (auto simp: months_ok_def)
  have "inj_on (\<lambda>m. nat (m - 1)) (set ms)"
  proof (rule inj_onI)
    fix x y assume "x \<in> set ms" "y \<in> set ms" "nat (x - 1) = nat (y - 1)"
    with r [of x] r [of y] show "x = y" by (simp add: eq_nat_nat_iff)
  qed
  with assms show "distinct (map (\<lambda>m. nat (m - 1)) ms)" by (simp add: distinct_map months_ok_def)
  show "set (map (\<lambda>m. nat (m - 1)) ms) \<subseteq> {..<12}" using r by fastforce
  show "k < 12 \<Longrightarrow> k \<in> set (map (\<lambda>m. nat (m - 1)) ms) \<longleftrightarrow> int k + 1 \<in> set ms"
    using r by (force simp: image_iff)
qed

lemma place_months_length [simp]: "length (place_months ms vs z) = 12"
  by (simp add: place_months_def)

lemma place_months_outside:
  assumes "months_ok ms" "length vs = length ms" "k < 12" "int k + 1 \<notin> set ms"
  shows "place_months ms vs z ! k = z"
proof -
  note idx = months_ok_index [OF assms(1)]
  have n: "map_of (zip (map (\<lambda>m. nat (m - 1)) ms) vs) k = None"
    using idx(3) [OF assms(3)] assms(2,4) by (auto simp: map_of_eq_None_iff dest: set_zip_leftD)
  show ?thesis
    unfolding place_months_def using idx(1,2) assms(2,3) by (subst scatter_nth) (simp_all add: n)
qed

lemma place_months_inside:
  assumes "months_ok ms" "length vs = length ms" "i < length ms"
  shows "place_months ms vs z ! nat (ms ! i - 1) = vs ! i"
proof -
  note idx = months_ok_index [OF assms(1)]
  have "map_of (zip (map (\<lambda>m. nat (m - 1)) ms) vs) (map (\<lambda>m. nat (m - 1)) ms ! i) = Some (vs ! i)"
    using idx(1) assms(2,3) by (intro map_of_zip_nth) simp_all
  with assms idx show ?thesis
    unfolding place_months_def by (subst scatter_nth) simp_all
qed

lemma place_months_sum:
  assumes "months_ok ms" "length vs = length ms"
  shows "sum_list (place_months ms vs 0) = sum_list (vs :: int list)"
  unfolding place_months_def using months_ok_index(1,2) [OF assms(1)] assms(2)
  by (subst scatter_sum) (auto simp: sum_list_replicate)

lemma ones_usable: "ms \<noteq> [] \<Longrightarrow> usable_weights (map (\<lambda>_. 1) ms)"
  by (simp add: usable_weights_def list_all_iff sum_list_triv)

lemma splitCents_ok:
  assumes "months_ok ms"
  shows "\<exists>shares. splitCents t ms = Inr (place_months ms shares 0) \<and> length shares = length ms \<and> sum_list shares = t"
proof -
  obtain ss where ss: "splitTowardZero t (map (\<lambda>_. 1) ms) = Inr ss"
    using toward_zero.split_total ones_usable assms by (metis months_ok_def)
  with toward_zero.split_length [OF ss] toward_zero.split_sum [OF ss] show ?thesis
    by (auto simp: splitCents_def)
qed

lemma in_limit_Inr: "in_limit n c = Inr c' \<longleftrightarrow> c' = c \<and> \<bar>c\<bar> < 10 ^ 18"
  by (auto simp: in_limit_def rguard_eq_Inr CENTS_LIMIT_def)

definition read_presence :: "cost_line \<Rightarrow> costing_error + decimal option" where
  "read_presence line = (case cl_days_per_month line of
              None \<Rightarrow> Inr None
            | Some p \<Rightarrow> rbind (dec (decimal_from (DLit (NText p)))) (\<lambda>d. Inr (Some d)))"

lemma line_fte_length: "line_fte line q presence days ms = Inr fte \<Longrightarrow> length fte = 12"
  by (auto simp: line_fte_def result_simps split: quantity_unit.splits)

text \<open>What the successful steps of a line give.\<close>

lemma computeLine_steps:
  assumes "computeLine line year calendar n = Inr r"
    and "decimal_of_literal (NText (cl_quantity line)) = Inr q" "decimal_of_literal (NText (cl_unit_price line)) = Inr p"
  shows "\<exists>presence days fte. lineMonths year (cl_frequency line) (cl_start line) (cl_end line) n = Inr (lr_active r)
    \<and> line_days line year calendar n = Inr days \<and> read_presence line = Inr presence
    \<and> line_cents line (dtimes q p) presence days (lr_active r) n = Inr (lr_month_cents r)
    \<and> (\<forall>c \<in> set (lr_month_cents r). \<bar>c\<bar> < 10 ^ 18)
    \<and> lr_total_cents r = sum_list (lr_month_cents r) \<and> \<bar>lr_total_cents r\<bar> < 10 ^ 18
    \<and> line_fte line q presence days (lr_active r) = Inr fte \<and> lr_fte_months r = map decimal_toString fte"
proof -
  from assms(1) obtain months days presence cents lim tot fte fa where
    s: "lineMonths year (cl_frequency line) (cl_start line) (cl_end line) n = Inr months"
    "line_days line year calendar n = Inr days" "read_presence line = Inr presence"
    "line_cents line (dtimes q p) presence days months n = Inr cents"
    "rmap (in_limit n) cents = Inr lim" "in_limit n (foldl (+) 0 cents) = Inr tot"
    "line_fte line q presence days months = Inr fte" "fteAverages fte months = Inr fa" and
    r: "r = \<lparr>lr_active = months, lr_day_counts = map_option (map decimal_toString) days,
       lr_total_days = map_option (\<lambda>ds. decimal_toString (sum_dec (map (\<lambda>m. ds ! nat (m - 1)) months))) days,
       lr_month_cents = cents, lr_total_cents = tot, lr_fte_months = map decimal_toString fte,
       lr_fte = decimal_toString (fst fa), lr_fte_period = decimal_toString (snd fa)\<rparr>"
    unfolding computeLine_def read_presence_def [symmetric]
    by (auto simp: rbind_eq_Inr assms(2,3) decimal_mul_def split: prod.splits)
  have "\<bar>c\<bar> < 10 ^ 18" if "c \<in> set cents" for c
    using s(5) that by (auto simp: in_set_conv_nth in_limit_Inr dest: rmap_nth)
  with s show ?thesis by (auto simp: r in_limit_Inr foldl_plus)
qed

text \<open>C6: The months of a computed line add up to its total, stay below the column limit and are zero outside
  its active months.  A line counted once totals quantity times price rounded to cents; a line counted
  per month has, in each active month, that month's amount.\<close>

theorem computeLine_amounts:
  assumes "computeLine line year calendar n = Inr r" "1000 \<le> year" "year < 10000" "js_trim (cl_start line) = cl_start line"
    and "decimal_of_literal (NText (cl_quantity line)) = Inr q" "decimal_of_literal (NText (cl_unit_price line)) = Inr p"
  shows "length (lr_month_cents r) = 12 \<and> sum_list (lr_month_cents r) = lr_total_cents r \<and> \<bar>lr_total_cents r\<bar> < 10 ^ 18
    \<and> (\<forall>k < 12. \<bar>lr_month_cents r ! k\<bar> < 10 ^ 18 \<and> (int k + 1 \<notin> set (lr_active r) \<longrightarrow> lr_month_cents r ! k = 0))
    \<and> (cl_frequency line = Once \<longrightarrow> lr_total_cents r = decimal_toCents (dtimes q p))
    \<and> (cl_frequency line = EachMonth \<longrightarrow>
        (\<exists>days presence. line_days line year calendar n = Inr days \<and> read_presence line = Inr presence
          \<and> (\<forall>m \<in> set (lr_active r). month_amount line (dtimes q p) presence days m = Inr (lr_month_cents r ! nat (m - 1)))))"
proof -
  obtain presence days where s: "lineMonths year (cl_frequency line) (cl_start line) (cl_end line) n = Inr (lr_active r)"
    "line_days line year calendar n = Inr days" "read_presence line = Inr presence"
    "line_cents line (dtimes q p) presence days (lr_active r) n = Inr (lr_month_cents r)"
    "\<forall>c \<in> set (lr_month_cents r). \<bar>c\<bar> < 10 ^ 18"
    "lr_total_cents r = sum_list (lr_month_cents r)" "\<bar>lr_total_cents r\<bar> < 10 ^ 18"
    using computeLine_steps [OF assms(1,5,6)] by blast
  have ok: "months_ok (lr_active r)" by (rule lineMonths_ok [OF s(1) assms(2-4)])
  have "\<exists>vs. lr_month_cents r = place_months (lr_active r) vs 0 \<and> length vs = length (lr_active r)
      \<and> (cl_frequency line = Once \<longrightarrow> sum_list vs = decimal_toCents (dtimes q p))
      \<and> (cl_frequency line = EachMonth \<longrightarrow> rmap (month_amount line (dtimes q p) presence days) (lr_active r) = Inr vs)"
  proof (cases "cl_frequency line")
    case EachMonth
    with s(4) show ?thesis by (auto simp: line_cents_def result_simps dest: rmap_length)
  next
    case Once
    with s(4) splitCents_ok [OF ok, of "decimal_toCents (dtimes q p)"] show ?thesis
      by (auto simp: line_cents_def result_simps in_limit_Inr)
  qed
  then obtain vs where vs: "lr_month_cents r = place_months (lr_active r) vs 0" "length vs = length (lr_active r)"
    "cl_frequency line = Once \<longrightarrow> sum_list vs = decimal_toCents (dtimes q p)"
    "cl_frequency line = EachMonth \<longrightarrow> rmap (month_amount line (dtimes q p) presence days) (lr_active r) = Inr vs" by blast
  have len: "length (lr_month_cents r) = 12" by (simp add: vs(1))
  have "month_amount line (dtimes q p) presence days m = Inr (lr_month_cents r ! nat (m - 1))"
    if "cl_frequency line = EachMonth" "m \<in> set (lr_active r)" for m
  proof -
    obtain i where "i < length (lr_active r)" "lr_active r ! i = m" using \<open>m \<in> _\<close> by (auto simp: in_set_conv_nth)
    with rmap_nth vs(2,4) place_months_inside [OF ok vs(2), of i] that(1) show ?thesis by (fastforce simp: vs(1))
  qed
  moreover have "lr_total_cents r = decimal_toCents (dtimes q p)" if "cl_frequency line = Once"
    using that vs place_months_sum [OF ok vs(2)] s(6) by simp
  moreover have "lr_month_cents r ! k = 0" if "k < 12" "int k + 1 \<notin> set (lr_active r)" for k
    unfolding vs(1) by (rule place_months_outside [OF ok vs(2) that])
  ultimately show ?thesis using s len by (auto simp: nth_mem)
qed

subsection \<open>Exactness and progress\<close>

text \<open>A quantity of 3 decimals times a price of 4 has no rounding before the cents.\<close>

lemma dtimes_exact:
  assumes "10 ^ 17 dvd units q" "10 ^ 16 dvd units p"
  shows "units (dtimes q p) * 10 ^ 20 = units q * units p"
proof -
  obtain a b where "units q = 10 ^ 17 * a" "units p = 10 ^ 16 * b" using assms by (auto simp: dvd_def)
  then have "units q * units p = (10 ^ 13 * a * b) * 10 ^ 20" by simp
  then have "divRoundHalfAway (units q * units p) (10 ^ 20) = 10 ^ 13 * a * b"
    by (metis divRoundHalfAway_exact zero_less_power zero_less_numeral)
  with \<open>units q * units p = _\<close> show ?thesis by (simp add: dtimes_def SCALE_def)
qed

lemma line_ok_decimals:
  assumes "line_ok year line"
  obtains q p where "decimal_of_literal (NText (cl_quantity line)) = Inr q" "10 ^ 17 dvd units q" "0 \<le> units q"
    "decimal_of_literal (NText (cl_unit_price line)) = Inr p" "10 ^ 16 dvd units p"
  using assms by (auto simp: line_ok_def decimal_of_toString)

text \<open>The total of an accepted line counted once is the exact product of its quantity and unit price,
  rounded one time to the nearest cent, ties away from zero.\<close>

theorem once_total_rounded_once:
  assumes "line_ok year line" "1000 \<le> year" "year < 10000" "cl_frequency line = Once"
    and "computeLine line year calendar n = Inr r"
  shows "\<exists>q p. decimal_of_literal (NText (cl_quantity line)) = Inr q \<and> decimal_of_literal (NText (cl_unit_price line)) = Inr p
    \<and> (2 * \<bar>10 ^ 38 * lr_total_cents r - units q * units p\<bar> < 10 ^ 38
       \<or> 2 * \<bar>10 ^ 38 * lr_total_cents r - units q * units p\<bar> = 10 ^ 38 \<and> \<bar>units q * units p\<bar> < \<bar>10 ^ 38 * lr_total_cents r\<bar>)"
proof -
  obtain q p where qp: "decimal_of_literal (NText (cl_quantity line)) = Inr q" "10 ^ 17 dvd units q"
    "decimal_of_literal (NText (cl_unit_price line)) = Inr p" "10 ^ 16 dvd units p"
    by (rule line_ok_decimals [OF assms(1)])
  have trim: "js_trim (cl_start line) = cl_start line" using assms(1) by (simp add: line_ok_def)
  obtain presence days where "line_cents line (dtimes q p) presence days (lr_active r) n = Inr (lr_month_cents r)"
    "lr_total_cents r = sum_list (lr_month_cents r)"
    "lineMonths year (cl_frequency line) (cl_start line) (cl_end line) n = Inr (lr_active r)"
    using computeLine_steps [OF assms(5) qp(1,3)] by blast
  moreover from this(3) have ok: "months_ok (lr_active r)" by (rule lineMonths_ok [OF _ assms(2,3) trim])
  ultimately have t: "lr_total_cents r = divRoundHalfAway (units (dtimes q p)) (10 ^ 18)"
    using splitCents_ok [OF ok, of "decimal_toCents (dtimes q p)"] place_months_sum [OF ok] assms(4)
    by (auto simp: line_cents_def result_simps in_limit_Inr decimal_toCents_def DECIMAL_SCALE_DIGITS_def)
  define u where "u = units (dtimes q p)"
  define c where "c = lr_total_cents r"
  have e: "units q * units p = 10 ^ 20 * u" using dtimes_exact [OF qp(2,4)] by (simp add: u_def)
  have "2 * \<bar>10 ^ 18 * c - u\<bar> < 10 ^ 18 \<or> 2 * \<bar>10 ^ 18 * c - u\<bar> = 10 ^ 18 \<and> \<bar>u\<bar> < \<bar>10 ^ 18 * c\<bar>"
    unfolding c_def t u_def by (rule divRoundHalfAway_nearest) simp
  moreover have "10 ^ 38 * c - 10 ^ 20 * u = 10 ^ 20 * (10 ^ 18 * c - u)" by (simp add: algebra_simps)
  then have "\<bar>10 ^ 38 * c - 10 ^ 20 * u\<bar> = 10 ^ 20 * \<bar>10 ^ 18 * c - u\<bar>" by (simp only: abs_mult) simp
  ultimately have "2 * \<bar>10 ^ 38 * c - units q * units p\<bar> < 10 ^ 38
       \<or> 2 * \<bar>10 ^ 38 * c - units q * units p\<bar> = 10 ^ 38 \<and> \<bar>units q * units p\<bar> < \<bar>10 ^ 38 * c\<bar>"
    unfolding e by (auto simp: abs_mult)
  with qp show ?thesis by (auto simp: c_def)
qed

lemma decimal_divRound_Inr: "0 < d \<Longrightarrow> 0 \<le> k \<Longrightarrow> k \<le> 20 \<Longrightarrow> \<exists>r. decimal_divRound x d k = Inr r"
  by (simp add: decimal_divRound_def DECIMAL_SCALE_DIGITS_def Let_def)

lemma fteAverages_Inr: "\<exists>r. fteAverages fte ms = Inr r"
proof -
  obtain y where y: "decimal_divRound (sum_dec fte) 12 2 = Inr y" using decimal_divRound_Inr by fastforce
  obtain p where p: "ms \<noteq> [] \<Longrightarrow> decimal_divRound (sum_dec (map (\<lambda>m. fte ! nat (m - 1)) ms)) (int (length ms)) 2 = Inr p"
    using decimal_divRound_Inr [of "int (length ms)" 2] by (cases "ms = []") auto
  show ?thesis using y p by (cases "ms = []") (auto simp: fteAverages_def)
qed

lemma divide_dec_Inr: "\<exists>r. divide_dec a b 6 = Inr r"
  by (simp add: divide_dec_def decimal_of_lit_text)

lemma splitDays_Inr:
  assumes "months_ok ms"
  shows "\<exists>ds. splitDays q ms = Inr ds"
proof -
  obtain d where d: "decimal_divRound q 1 6 = Inr d" using decimal_divRound_Inr by fastforce
  obtain ss where ss: "splitTowardZero (units d sdiv DAY_SCALE) (map (\<lambda>_. 1) ms) = Inr ss"
    using toward_zero.split_total ones_usable assms by (metis months_ok_def)
  have "\<exists>ys. rmap (\<lambda>share. dec (decimal_from (DLit (NText (lit_text share 6))))) ss = Inr ys"
    by (rule rmap_Inr_ex) (simp add: decimal_of_lit_text)
  with d ss show ?thesis by (auto simp: splitDays_def)
qed

lemma in_limit_or: "inr_or (lineError n ''the computed amount is too large.'') (in_limit n c)"
  by (simp add: in_limit_def inr_or_def rguard_def)

text \<open>The calendar of a line priced per day has twelve numbers for the year.\<close>

definition calendar_ready :: "cost_line \<Rightarrow> line_calendar option \<Rightarrow> bool" where
  "calendar_ready line calendar \<longleftrightarrow> (cl_basis line = PerDay \<longrightarrow>
     (\<exists>c texts. calendar = Some c \<and> cal_days c = Some texts \<and> length texts = 12
        \<and> (\<forall>t \<in> set texts. \<exists>d. decimal_of_literal (NText t) = Inr d)))"

lemma line_days_Inr:
  assumes "calendar_ready line calendar"
  shows "\<exists>days. line_days line year calendar n = Inr days \<and> (cl_basis line = PerDay \<longrightarrow> days \<noteq> None)"
proof (cases "cl_basis line = PerDay")
  case True
  with assms obtain c texts where c: "calendar = Some c" "cal_days c = Some texts" "length texts = 12"
    "\<forall>t \<in> set texts. \<exists>d. decimal_of_literal (NText t) = Inr d" by (auto simp: calendar_ready_def)
  then have "\<exists>ds. rmap (\<lambda>t. dec (decimal_from (DLit (NText t)))) texts = Inr ds" by (intro rmap_Inr_ex) auto
  with c True show ?thesis by (auto simp: line_days_def)
qed (simp add: line_days_def)

lemma perWorkingDay_Inr: "days \<noteq> None \<Longrightarrow> \<exists>d. perWorkingDay days w m = Inr d"
  using divide_dec_Inr by (auto simp: perWorkingDay_def day_of_def)

lemma line_fte_Inr:
  assumes "months_ok ms" "cl_basis line = PerDay \<longrightarrow> days \<noteq> None"
    and "cl_basis line \<in> set (BASES_BY_UNIT (cl_unit line))" "presence \<noteq> None \<longrightarrow> cl_basis line = PerDay"
  shows "\<exists>f. line_fte line q presence days ms = Inr f"
proof (cases "cl_unit line")
  case Days
  with assms(2,3) have d: "days \<noteq> None" by simp
  obtain b where b: "splitDays q ms = Inr b" using splitDays_Inr [OF assms(1)] by blast
  have "\<exists>fs. rmap (\<lambda>m. perWorkingDay days (b ! nat (m - 1)) m) ms = Inr fs"
    by (rule rmap_Inr_ex) (rule perWorkingDay_Inr [OF d])
  with Days b show ?thesis by (auto simp: line_fte_def)
next
  case People
  have "\<exists>fs. rmap (\<lambda>m. case presence of Some p \<Rightarrow> perWorkingDay days (dtimes q p) m | None \<Rightarrow> Inr q) ms = Inr fs"
    using assms(2,4) by (intro rmap_Inr_ex) (auto split: option.split intro: perWorkingDay_Inr)
  with People show ?thesis by (auto simp: line_fte_def)
qed (simp add: line_fte_def)

lemma line_cents_or:
  assumes "months_ok ms" "cl_basis line = PerDay \<longrightarrow> days \<noteq> None"
  shows "inr_or (lineError n ''the computed amount is too large.'') (line_cents line u presence days ms n)"
proof (cases "cl_frequency line = Once")
  case True
  then show ?thesis
    using splitCents_ok [OF assms(1)] by (auto simp: line_cents_def intro!: inr_or_rbind in_limit_or) (metis inr_or_Inr)
next
  case False
  have "\<exists>vs. rmap (month_amount line u presence days) ms = Inr vs"
    by (rule rmap_Inr_ex) (use assms(2) in \<open>auto simp: month_amount_def day_of_def split: option.split\<close>)
  with False show ?thesis by (auto simp: line_cents_def)
qed

text \<open>C7: An accepted line whose calendar is ready always computes: the only refusal left is an amount beyond
  the column's limit.\<close>

theorem computeLine_progress:
  assumes "line_ok year line" "1000 \<le> year" "year < 10000" "calendar_ready line calendar"
  shows "inr_or (lineError n ''the computed amount is too large.'') (computeLine line year calendar n)"
proof -
  obtain months where months: "lineMonths year (cl_frequency line) (cl_start line) (cl_end line) n = Inr months"
    and trim: "js_trim (cl_start line) = cl_start line" and basis: "cl_basis line \<in> set (BASES_BY_UNIT (cl_unit line))"
    using assms(1) by (auto simp: line_ok_def)
  have ok: "months_ok months" by (rule lineMonths_ok [OF months assms(2,3) trim])
  obtain q p where qp: "decimal_of_literal (NText (cl_quantity line)) = Inr q" "decimal_of_literal (NText (cl_unit_price line)) = Inr p"
    by (rule line_ok_decimals [OF assms(1)])
  obtain days where days: "line_days line year calendar n = Inr days" "cl_basis line = PerDay \<longrightarrow> days \<noteq> None"
    using line_days_Inr [OF assms(4)] by blast
  obtain presence where presence: "read_presence line = Inr presence" "presence \<noteq> None \<longrightarrow> cl_basis line = PerDay"
    using assms(1) by (cases "cl_days_per_month line") (auto simp: line_ok_def read_presence_def decimal_of_toString)
  have fte: "\<exists>f. line_fte line q presence days months = Inr f" by (rule line_fte_Inr [OF ok days(2) basis presence(2)])
  have avg: "\<exists>r. fteAverages f months = Inr r" for f by (rule fteAverages_Inr)
  show ?thesis
    unfolding computeLine_def read_presence_def [symmetric]
    using fte avg
    by (auto simp: months qp days presence decimal_mul_def split: prod.split
        intro!: inr_or_rbind line_cents_or [OF ok days(2)] in_limit_or inr_or_rmap)
      (metis inr_or_Inr rbind_Inr)
qed

lemma sample_literals:
  "decimal_of_literal (NText (cl_quantity sample_line)) = Inr (Decimal (3 * 10 ^ 20))"
  "decimal_of_literal (NText (cl_unit_price sample_line)) = Inr (Decimal (105 * 10 ^ 19))"
  by code_simp+

lemma sample_line_computes: "\<exists>r. computeLine sample_line 2026 None 1 = Inr r"
proof -
  define q where "q = Decimal (3 * 10 ^ 20)"
  define p where "p = Decimal (105 * 10 ^ 19)"
  define cents :: "int list" where "cents = [0, 0, 3150, 0, 0, 0, 0, 0, 0, 0, 0, 0]"
  define fte where "fte = replicate 12 decimal_ZERO"
  have s: "lineMonths 2026 (cl_frequency sample_line) (cl_start sample_line) (cl_end sample_line) 1 = Inr [3]"
    "line_days sample_line 2026 None 1 = Inr None" "read_presence sample_line = Inr None"
    "line_cents sample_line (dtimes q p) None None [3] 1 = Inr cents" "rmap (in_limit 1) cents = Inr cents"
    "in_limit 1 (foldl (+) 0 cents) = Inr 3150" "line_fte sample_line q None None [3] = Inr fte"
    unfolding q_def p_def cents_def fte_def by code_simp+
  obtain a where a: "fteAverages fte [3] = Inr a" using fteAverages_Inr by blast
  show ?thesis
    unfolding computeLine_def read_presence_def [symmetric]
    by (simp add: s a sample_literals [folded q_def p_def] decimal_mul_def split: prod.split)
qed

lemma computeLine_amounts_witness:
  "\<exists>r. computeLine sample_line 2026 None 1 = Inr r \<and> lr_total_cents r = decimal_toCents (dtimes (Decimal (3 * 10 ^ 20)) (Decimal (105 * 10 ^ 19)))"
proof -
  obtain r where r: "computeLine sample_line 2026 None 1 = Inr r" using sample_line_computes by blast
  have "js_trim (cl_start sample_line) = cl_start sample_line" "cl_frequency sample_line = Once" by code_simp+
  with computeLine_amounts [OF r _ _ _ sample_literals] r show ?thesis by simp
qed

lemma once_total_rounded_once_witness:
  "\<exists>r q p. computeLine sample_line 2026 None 1 = Inr r \<and> decimal_of_literal (NText (cl_quantity sample_line)) = Inr q
    \<and> decimal_of_literal (NText (cl_unit_price sample_line)) = Inr p"
proof -
  obtain r where r: "computeLine sample_line 2026 None 1 = Inr r" using sample_line_computes by blast
  have "cl_frequency sample_line = Once" by code_simp
  with once_total_rounded_once [OF sample_line_ok _ _ _ r] r show ?thesis by auto
qed

lemma computeLine_progress_witness:
  "inr_or (lineError 4 ''the computed amount is too large.'') (computeLine sample_line 2026 None 4)"
  by (rule computeLine_progress [OF sample_line_ok]) (simp_all add: calendar_ready_def sample_line_def)

subsection \<open>Computed columns\<close>

lemma sum_list_map2_plus:
  "length a = length b \<Longrightarrow> sum_list (map (\<lambda>(x, y). x + y) (zip a b)) = sum_list a + sum_list (b :: int list)"
  by (induction a b rule: list_induct2) simp_all

lemma add_results_cents:
  assumes "add_results rs cents fte = Inr (c, f)" "length cents = 12" "\<forall>r\<in>set rs. length (lr_month_cents r) = 12"
  shows "length c = 12 \<and> (\<forall>k < 12. c ! k = cents ! k + sum_list (map (\<lambda>r. lr_month_cents r ! k) rs))
    \<and> sum_list c = sum_list cents + sum_list (map (\<lambda>r. sum_list (lr_month_cents r)) rs)"
  using assms
proof (induction rs arbitrary: cents fte)
  case (Cons r rs)
  define cents' where "cents' = map (\<lambda>(a, b). a + b) (zip cents (lr_month_cents r))"
  obtain fte' where "add_results rs cents' fte' = Inr (c, f)"
    using Cons.prems(1) by (auto simp: rbind_eq_Inr cents'_def)
  from Cons.IH [OF this] Cons.prems(2,3) show ?case
    by (simp add: cents'_def sum_list_map2_plus)
qed simp

lemma add_to_set_props: "distinct acc \<Longrightarrow> distinct (add_to_set acc ms) \<and> set (add_to_set acc ms) = set acc \<union> set ms"
  unfolding add_to_set_def by (induction ms arbitrary: acc) auto

lemma foldl_add_to_set: "distinct acc \<Longrightarrow>
    distinct (foldl add_to_set acc mss) \<and> set (foldl add_to_set acc mss) = set acc \<union> \<Union>(set (map set mss))"
proof (induction mss arbitrary: acc)
  case (Cons ms mss)
  with add_to_set_props [of acc ms] show ?case by auto
qed simp

lemma covered_months_props: "distinct (covered_months rs) \<and> set (covered_months rs) = (\<Union>r\<in>set rs. set (lr_active r))"
  using foldl_add_to_set [of "[]" "map lr_active rs"] by (auto simp: covered_months_def)

text \<open>C8: A column is the sum of its lines: each month and the total add up over the lines, both stay below the
  limit of the amount columns, and its active months are those of its lines, in order, once each.\<close>

theorem computeColumn_sums:
  assumes "computeColumn lines year calendars = Inr c" "1000 \<le> year" "year < 10000" "list_all (line_ok year) lines"
  shows "length (cr_lines c) = length lines \<and> length (cr_month_cents c) = 12
    \<and> (\<forall>k < 12. cr_month_cents c ! k = sum_list (map (\<lambda>r. lr_month_cents r ! k) (cr_lines c)) \<and> \<bar>cr_month_cents c ! k\<bar> < 10 ^ 18)
    \<and> cr_total_cents c = sum_list (map lr_total_cents (cr_lines c)) \<and> \<bar>cr_total_cents c\<bar> < 10 ^ 18
    \<and> sorted (cr_active c) \<and> distinct (cr_active c) \<and> set (cr_active c) = (\<Union>r\<in>set (cr_lines c). set (lr_active r))"
proof -
  define f where "f = (\<lambda>(line, n). computeLine line year (line_calendar_of calendars line) n)"
  from assms(1) obtain results cents fte fa where
    res: "rmap f (zip lines [1..int (length lines)]) = Inr results"
    and add: "add_results results (replicate 12 0) (replicate 12 decimal_ZERO) = Inr (cents, fte)"
    and lim: "\<not> list_ex (\<lambda>c. (if c < 0 then - c else c) \<ge> CENTS_LIMIT) (cents @ [foldl (+) 0 cents])"
    and c: "cr_lines c = results" "cr_active c = sort (covered_months results)" "cr_month_cents c = cents"
      "cr_total_cents c = foldl (+) 0 cents"
    unfolding computeColumn_def f_def [symmetric] Let_def by (auto simp: rbind_eq_Inr rguard_eq_Inr split: prod.splits)
  have row: "length (lr_month_cents r) = 12 \<and> sum_list (lr_month_cents r) = lr_total_cents r" if r_in: "r \<in> set results" for r
  proof -
    obtain i where i: "i < length results" "results ! i = r" using r_in by (auto simp: in_set_conv_nth)
    define z where "z = zip lines [1..int (length lines)]"
    have iz: "i < length z" using i(1) rmap_length [OF res] by (simp add: z_def)
    have "f (z ! i) = Inr r" using rmap_nth [OF res, of i] iz i by (simp add: z_def)
    then obtain line n where l: "line \<in> set lines" "computeLine line year (line_calendar_of calendars line) n = Inr r"
      using iz by (cases "z ! i") (auto simp: f_def z_def dest: nth_mem set_zip_leftD)
    have ok: "line_ok year line" using assms(4) l(1) by (simp add: list_all_iff)
    obtain q p where qp: "decimal_of_literal (NText (cl_quantity line)) = Inr q" "decimal_of_literal (NText (cl_unit_price line)) = Inr p"
      by (rule line_ok_decimals [OF ok])
    obtain presence days where s: "lineMonths year (cl_frequency line) (cl_start line) (cl_end line) n = Inr (lr_active r)"
      "line_cents line (dtimes q p) presence days (lr_active r) n = Inr (lr_month_cents r)"
      "lr_total_cents r = sum_list (lr_month_cents r)"
      using computeLine_steps [OF l(2) qp] by blast
    have "js_trim (cl_start line) = cl_start line" using ok by (simp add: line_ok_def)
    then have "months_ok (lr_active r)" by (rule lineMonths_ok [OF s(1) assms(2,3)])
    with s splitCents_ok show ?thesis
      by (auto simp: line_cents_def rbind_eq_Inr split: if_splits) (metis Inr_inject place_months_length)+
  qed
  from add_results_cents [OF add] row have
    sums: "length cents = 12" "\<forall>k < 12. cents ! k = sum_list (map (\<lambda>r. lr_month_cents r ! k) results)"
      "sum_list cents = sum_list (map (\<lambda>r. sum_list (lr_month_cents r)) results)"
    by (simp_all add: sum_list_replicate)
  have tot: "sum_list cents = sum_list (map lr_total_cents results)"
    unfolding sums(3) by (rule arg_cong [where f = sum_list], rule map_cong) (use row in auto)
  have small: "\<bar>x\<bar> < 10 ^ 18" if "x \<in> set (cents @ [foldl (+) 0 cents])" for x
    using lim that by (auto simp: list_ex_iff CENTS_LIMIT_def not_le abs_if)
  have len: "length results = length lines" using rmap_length [OF res] by simp
  have each: "\<bar>cents ! k\<bar> < 10 ^ 18" if "k < 12" for k
    using small [of "cents ! k"] that sums(1) by simp
  have total: "\<bar>sum_list cents\<bar> < 10 ^ 18" using small [of "sum_list cents"] by (simp add: foldl_plus)
  show ?thesis
    using sums(1,2) tot each total covered_months_props [of results] len by (simp add: c foldl_plus)
qed

lemma computeColumn_sums_witness:
  "\<exists>c. computeColumn [] 2026 (\<lambda>_. None) = Inr c \<and> cr_total_cents c = 0"
proof -
  define fte where "fte = replicate 12 decimal_ZERO"
  have a: "fteAverages fte [] = Inr (decimal_ZERO, decimal_ZERO)" unfolding fte_def by code_simp
  have "\<exists>c. computeColumn [] 2026 (\<lambda>_. None) = Inr c"
    using limit_literals
    by (simp add: computeColumn_def Let_def covered_months_def decimal_cmp_def dcmp_def a FTE_LIMIT_def
        CENTS_LIMIT_def rguard_def foldl_plus list_ex_iff sum_list_replicate flip: fte_def) (simp add: decimal_ZERO_def)
  then obtain c where "computeColumn [] 2026 (\<lambda>_. None) = Inr c" by blast
  with computeColumn_sums [OF this] show ?thesis by simp
qed

end
