(* ===== verification/Json.thy ===== *)
theory Json
  imports Decimals Dates "HOL-Library.Multiset"
begin

section \<open>JSON values and their stable text\<close>

text \<open>
  Reading values of unknown type (common/object-guards.ts and the small readers the control plane
  keeps beside each service), comparison of numbers, and the canonical JSON text that
  evidence/ai-evidence.service.ts hashes.  A jsonb column is a \<open>jsval\<close>, SQL null being \<open>JNull\<close>.
\<close>

subsection \<open>Readers\<close>

definition isRecord :: "jsval \<Rightarrow> bool" where
  "isRecord v = (case v of JObj _ \<Rightarrow> True | _ \<Rightarrow> False)"

text \<open>\<open>v?.[key]\<close> on a record; anything else has no such property.\<close>

definition js_get :: "jsval \<Rightarrow> string \<Rightarrow> jsval" where
  "js_get v k = (case v of JObj kvs \<Rightarrow> obj_get kvs k | _ \<Rightarrow> JUndef)"

definition non_blank :: "string \<Rightarrow> bool" where
  "non_blank s \<longleftrightarrow> js_trim s \<noteq> []"

fun nonblank_text :: "jsval \<Rightarrow> string option" where
  "nonblank_text (JStr s) = (if non_blank s then Some (js_trim s) else None)"
| "nonblank_text _ = None"

definition stringArray :: "jsval \<Rightarrow> string list" where
  "stringArray v = (case v of JArr vs \<Rightarrow> List.map_filter nonblank_text vs | _ \<Rightarrow> [])"

fun numberValue :: "jsval \<Rightarrow> jsnum option" where
  "numberValue (JNum n) = (if num_finite n then Some n else None)"
| "numberValue _ = None"

definition metadataString :: "jsval \<Rightarrow> string \<Rightarrow> string option" where
  "metadataString v key = nonblank_text (js_get v key)"

definition nestedMetadataString :: "jsval \<Rightarrow> string \<Rightarrow> string \<Rightarrow> string option" where
  "nestedMetadataString v parent key =
     (if isRecord (js_get v parent) then metadataString (js_get v parent) key else None)"

text \<open>\<open>a ?? b\<close>, and \<open>!!s\<close> of a nullable text.\<close>

definition or_else :: "'a option \<Rightarrow> 'a option \<Rightarrow> 'a option" where
  "or_else a b = (case a of None \<Rightarrow> b | Some x \<Rightarrow> Some x)"

definition truthy :: "string option \<Rightarrow> bool" where
  "truthy s \<longleftrightarrow> (case s of None \<Rightarrow> False | Some t \<Rightarrow> t \<noteq> [])"

definition or_null :: "string option \<Rightarrow> jsval" where
  "or_null s = (case s of None \<Rightarrow> JNull | Some t \<Rightarrow> JStr t)"

definition int_num :: "int \<Rightarrow> jsnum" where
  "int_num i = JFin (show_int i)"

subsection \<open>Objects\<close>

text \<open>
  Assignment to a property keeps the place of an existing key.  \<open>spread a b\<close> is
  \<open>{...a, ...b}\<close>, where a value that is no record spreads to nothing.
\<close>

fun obj_put :: "(string \<times> jsval) list \<Rightarrow> string \<Rightarrow> jsval \<Rightarrow> (string \<times> jsval) list" where
  "obj_put [] k v = [(k, v)]"
| "obj_put ((k', v') # kvs) k v = (if k' = k then (k, v) # kvs else (k', v') # obj_put kvs k v)"

definition obj_entries :: "jsval \<Rightarrow> (string \<times> jsval) list" where
  "obj_entries v = (case v of JObj kvs \<Rightarrow> kvs | _ \<Rightarrow> [])"

definition obj_merge :: "(string \<times> jsval) list \<Rightarrow> (string \<times> jsval) list \<Rightarrow> (string \<times> jsval) list" where
  "obj_merge = foldl (\<lambda>acc kv. obj_put acc (fst kv) (snd kv))"

definition spread :: "jsval \<Rightarrow> jsval \<Rightarrow> jsval" where
  "spread a b = JObj (obj_merge (obj_merge [] (obj_entries a)) (obj_entries b))"

lemma obj_get_put [simp]: "obj_get (obj_put kvs k v) k' = (if k' = k then v else obj_get kvs k')"
  by (induction kvs) (auto simp: obj_get_def)

lemma obj_get_Nil [simp]: "obj_get [] k = JUndef"
  by (simp add: obj_get_def)

lemma obj_get_Cons [simp]: "obj_get ((k', v) # kvs) k = (if k = k' then v else obj_get kvs k)"
  by (auto simp: obj_get_def)

lemma obj_get_merge_singleton: "obj_get (obj_merge kvs [(k', v)]) k = (if k = k' then v else obj_get kvs k)"
  by (simp add: obj_merge_def)

lemma js_get_JObj [simp]: "js_get (JObj kvs) k = obj_get kvs k"
  by (simp add: js_get_def)

lemma obj_merge_Cons: "obj_merge kvs (kv # rest) = obj_merge (obj_put kvs (fst kv) (snd kv)) rest"
  by (simp add: obj_merge_def)

lemma obj_merge_Nil [simp]: "obj_merge kvs [] = kvs"
  by (simp add: obj_merge_def)

lemma js_get_spread_put [simp]:
  "js_get (spread a (JObj [(k', v)])) k = (if k = k' then v else obj_get (obj_merge [] (obj_entries a)) k)"
  by (simp add: spread_def obj_entries_def obj_get_merge_singleton)

subsection \<open>Comparing numbers\<close>

text \<open>
  Two doubles compare as the exact values of their shortest round-trip texts do: the texts of
  distinct doubles lie in disjoint rounding intervals.
\<close>

definition scaled_less :: "int \<times> int \<Rightarrow> int \<times> int \<Rightarrow> bool" where
  "scaled_less a b = (let k = max (snd a) (snd b) in
     fst a * 10 ^ nat (k - snd a) < fst b * 10 ^ nat (k - snd b))"

fun num_less :: "jsnum \<Rightarrow> jsnum \<Rightarrow> bool" where
  "num_less (JFin s) (JFin t) =
     (case (parseDecimalLiteral (NNum (JFin s)), parseDecimalLiteral (NNum (JFin t))) of
        (Inr a, Inr b) \<Rightarrow> scaled_less a b
      | _ \<Rightarrow> False)"
| "num_less (JInf neg) (JFin t) = neg"
| "num_less (JFin s) (JInf neg) = (\<not> neg)"
| "num_less (JInf neg) (JInf neg') = (neg \<and> \<not> neg')"
| "num_less JNaN _ = False"
| "num_less _ JNaN = False"

lemma num_less_irrefl [simp]: "\<not> num_less n n"
  by (cases n) (auto simp: scaled_less_def split: sum.splits)

lemma parse_text_show_int: "parse_text (show_int i) = Inr (i, 0)"
proof -
  have s: "sanitize (show_int i) = show_int i"
    by (rule sanitize_plain [OF plain_show_int])
  show ?thesis
  proof (cases "i < 0")
    case True
    then have t: "show_int i = CHR ''-'' # show_nat (nat (- i))" by (simp add: show_int_def)
    have "LITERAL (show_int i) = Some (''-'', show_nat (nat (- i)), None, None)"
      using True by (simp add: t LITERAL_def take_sign_def takeWhile_eq_all_conv dropWhile_eq_Nil_conv all_digits_def
        list_all_iff show_nat_digits [unfolded all_digits_def list_all_iff])
    with True s show ?thesis by (simp add: parse_text_def safe_integer_def MAX_EXPONENT_def)
  next
    case False
    then have t: "show_int i = show_nat (nat i)" by (simp add: show_int_def)
    have d: "take_sign (show_nat (nat i)) = ([], show_nat (nat i))"
      using take_sign_digits_append [OF show_nat_digits show_nat_nonempty, of "nat i" "[]"] by simp
    have "LITERAL (show_int i) = Some ([], show_nat (nat i), None, None)"
      by (simp add: t LITERAL_def d takeWhile_eq_all_conv dropWhile_eq_Nil_conv
        show_nat_digits [unfolded all_digits_def list_all_iff])
    with False s show ?thesis by (simp add: parse_text_def safe_integer_def MAX_EXPONENT_def)
  qed
qed

lemma num_less_int [simp]: "num_less (int_num i) (int_num j) \<longleftrightarrow> i < j"
  by (simp add: int_num_def parse_text_show_int scaled_less_def)

subsection \<open>The stable text\<close>

definition hex_digit :: "nat \<Rightarrow> char" where
  "hex_digit d = char_of (if d < 10 then 48 + d else 87 + d)"

definition json_char :: "char \<Rightarrow> string" where
  "json_char c = (let n = (of_char c :: nat) in
     if n = 34 then [CHR 0x5C, CHR 0x22]
     else if n = 92 then [CHR 0x5C, CHR 0x5C]
     else if n = 8 then [CHR 0x5C, CHR ''b'']
     else if n = 12 then [CHR 0x5C, CHR ''f'']
     else if n = 10 then [CHR 0x5C, CHR ''n'']
     else if n = 13 then [CHR 0x5C, CHR ''r'']
     else if n = 9 then [CHR 0x5C, CHR ''t'']
     else if n < 32 then [CHR 0x5C, CHR ''u'', CHR ''0'', CHR ''0'', hex_digit (n div 16), hex_digit (n mod 16)]
     else [c])"

definition json_text :: "string \<Rightarrow> string" where
  "json_text s = [CHR 0x22] @ concat (map json_char s) @ [CHR 0x22]"

text \<open>One property of an object that is printed: its key and the text of its value.\<close>

definition json_member :: "string \<times> string \<Rightarrow> string" where
  "json_member kt = json_text (fst kt) @ '':'' @ snd kt"

function stableStringify :: "jsval \<Rightarrow> string" where
  "stableStringify JUndef = ''null''"
| "stableStringify JNull = ''null''"
| "stableStringify (JBool b) = (if b then ''true'' else ''false'')"
| "stableStringify (JNum n) = (if num_finite n then num_text n else ''null'')"
| "stableStringify (JStr s) = json_text s"
| "stableStringify (JArr vs) =
     ''['' @ join '','' (map (\<lambda>v. if v = JUndef then ''null'' else stableStringify v) vs) @ '']''"
| "stableStringify (JObj kvs) =
     ''{'' @ join '','' (map json_member (sort_key fst
        (map (\<lambda>kv. (fst kv, stableStringify (snd kv))) (filter (\<lambda>kv. snd kv \<noteq> JUndef) kvs)))) @ ''}''"
  by pat_completeness auto

lemma jsval_size_arr: "v \<in> set vs \<Longrightarrow> size v < size (JArr vs)"
  by (induction vs) auto

lemma jsval_size_obj: "kv \<in> set kvs \<Longrightarrow> size (snd kv) < size (JObj kvs)"
  by (induction kvs) auto

termination stableStringify
  by (relation "measure size") (auto simp: jsval_size_arr jsval_size_obj [simplified] dest: jsval_size_obj simp del: jsval.size)

subsection \<open>Texts of strings do not run together\<close>

definition hex_val :: "char \<Rightarrow> nat" where
  "hex_val c = (if (of_char c :: nat) < 58 then of_char c - 48 else of_char c - 87)"

definition json_first :: "string \<Rightarrow> char \<times> string" where
  "json_first s =
     (case s of
        [] \<Rightarrow> (CHR 0x00, [])
      | c # r \<Rightarrow>
          if c \<noteq> CHR 0x5C then (c, r)
          else case r of
            [] \<Rightarrow> (c, [])
          | d # r' \<Rightarrow>
              if d = CHR ''u'' then (char_of (16 * hex_val (r' ! 2) + hex_val (r' ! 3)), drop 4 r')
              else if d = CHR ''b'' then (CHR 0x08, r')
              else if d = CHR ''f'' then (CHR 0x0C, r')
              else if d = CHR ''n'' then (CHR 0x0A, r')
              else if d = CHR ''r'' then (CHR 0x0D, r')
              else if d = CHR ''t'' then (CHR 0x09, r')
              else (d, r'))"

lemma hex_val_digit: "d < 16 \<Longrightarrow> hex_val (hex_digit d) = d"
  by (simp add: hex_val_def hex_digit_def)

lemma char_is: "of_char c = n \<Longrightarrow> c = char_of (n :: nat)"
  by (metis char_of_char)

lemma char_of_controls:
  "char_of (34 :: nat) = CHR 0x22" "char_of (92 :: nat) = CHR 0x5C" "char_of (8 :: nat) = CHR 0x08" "char_of (12 :: nat) = CHR 0x0C"
  "char_of (10 :: nat) = CHR 0x0A" "char_of (13 :: nat) = CHR 0x0D" "char_of (9 :: nat) = CHR 0x09"
  by code_simp+

lemma json_char_plain:
  "json_char (CHR 0x22) = [CHR 0x5C, CHR 0x22]" "json_char (CHR 0x5C) = [CHR 0x5C, CHR 0x5C]"
  "json_char (CHR 0x08) = [CHR 0x5C, CHR ''b'']" "json_char (CHR 0x0C) = [CHR 0x5C, CHR ''f'']"
  "json_char (CHR 0x0A) = [CHR 0x5C, CHR ''n'']" "json_char (CHR 0x0D) = [CHR 0x5C, CHR ''r'']"
  "json_char (CHR 0x09) = [CHR 0x5C, CHR ''t'']"
  by (simp_all add: json_char_def)

lemma json_first_control: "json_first (CHR 0x5C # CHR ''u'' # z # z' # hex_digit a # hex_digit b # s) =
    (char_of (16 * hex_val (hex_digit a) + hex_val (hex_digit b)), s)"
  by (simp add: json_first_def)

lemma json_first_char: "json_first (json_char c @ s) = (c, s)"
proof -
  obtain n where n: "(of_char c :: nat) = n" by simp
  then have c: "c = char_of n" by (rule char_is)
  consider "n \<in> {34, 92, 8, 12, 10, 13, 9}" | "n < 32" "n \<notin> {8, 12, 10, 13, 9}" | "\<not> n < 32" "n \<noteq> 34" "n \<noteq> 92" by auto
  then show ?thesis
  proof cases
    case 1
    then have "c \<in> {CHR 0x22, CHR 0x5C, CHR 0x08, CHR 0x0C, CHR 0x0A, CHR 0x0D, CHR 0x09}"
      using c char_of_controls by auto
    then show ?thesis by (auto simp: json_char_plain json_first_def)
  next
    case 2
    then have t: "json_char c = [CHR 0x5C, CHR ''u'', CHR ''0'', CHR ''0'', hex_digit (n div 16), hex_digit (n mod 16)]"
      unfolding json_char_def n Let_def by simp
    have "n div 16 < 16" "n mod 16 < 16" using 2(1) by simp_all
    then have "16 * hex_val (hex_digit (n div 16)) + hex_val (hex_digit (n mod 16)) = n"
      by (simp only: hex_val_digit mult_div_mod_eq)
    then show ?thesis unfolding t append_Cons append_Nil json_first_control by (simp only: c [symmetric])
  next
    case 3
    then have "json_char c = [c]" unfolding json_char_def n Let_def by simp
    moreover have "c \<noteq> CHR 0x5C" using n 3 by auto
    ultimately show ?thesis by (simp add: json_first_def)
  qed
qed

lemma json_char_inj: "json_char c @ s = json_char d @ t \<Longrightarrow> c = d \<and> s = t"
  by (metis json_first_char prod.inject)

lemma json_char_not_quote: "json_char c @ s \<noteq> CHR 0x22 # t"
  by (auto simp: json_char_def Let_def)

lemma json_body_inj:
  "concat (map json_char s) @ CHR 0x22 # x = concat (map json_char t) @ CHR 0x22 # y \<Longrightarrow> s = t \<and> x = y"
proof (induction s arbitrary: t)
  case Nil
  show ?case
  proof (cases t)
    case (Cons d t')
    with Nil json_char_not_quote [of d "concat (map json_char t') @ CHR 0x22 # y" x] show ?thesis by simp
  qed (use Nil in simp)
next
  case (Cons c s)
  show ?case
  proof (cases t)
    case Nil
    with Cons.prems json_char_not_quote [of c "concat (map json_char s) @ CHR 0x22 # x" y] show ?thesis by simp
  next
    case (Cons d t')
    with Cons.prems have "json_char c @ (concat (map json_char s) @ CHR 0x22 # x) = json_char d @ (concat (map json_char t') @ CHR 0x22 # y)" by simp
    from json_char_inj [OF this] Cons.IH [of t'] Cons show ?thesis by simp
  qed
qed

lemma json_text_inj: "json_text s @ x = json_text t @ y \<Longrightarrow> s = t \<and> x = y"
  using json_body_inj [of s x t y] by (simp add: json_text_def)

end
