(* ===== verification/Entities.thy ===== *)
theory Entities
  imports Json
begin

section \<open>The tables of the control plane and the operations that read and write them\<close>

text \<open>
  One record per TypeORM entity of src/backend/src/ai/control-plane/entities (and
  ai-mutation-preview.entity.ts), every column a field: uuid and text are \<open>string\<close>, a nullable
  column an option, a jsonb column a \<open>jsval\<close>, a timestamp its milliseconds, a double the
  \<open>jsnum\<close> of its text.  The database is the record \<open>db\<close> of the tables.  A service method is an
  \<open>op\<close>: it returns the new database with its value or with what it throws, since the rows
  written before a throw stay written within the transaction.  One call reads one clock.
\<close>

subsection \<open>Rows\<close>

record ai_action_request =
  act_id :: string
  act_tenant_id :: string
  act_run_id :: "string option"
  act_tool_execution_id :: "string option"
  act_conversation_id :: "string option"
  act_user_id :: "string option"
  act_preview_id :: "string option"
  act_capability_name :: string
  act_capability_version :: string
  act_effect :: string
  act_status :: string
  act_target_type :: "string option"
  act_target_id :: "string option"
  act_target_ref :: "string option"
  act_idempotency_key :: "string option"
  act_action_payload_json :: jsval
  act_provider_kind :: "string option"
  act_provider_key :: "string option"
  act_input_hash :: string
  act_input_summary :: jsval
  act_evidence_ids :: "string list option"
  act_expires_at :: "int option"
  act_approved_at :: "int option"
  act_rejected_at :: "int option"
  act_executed_at :: "int option"
  act_error_message :: "string option"
  act_metadata_json :: jsval
  act_created_at :: int
  act_updated_at :: int

record ai_approval =
  apv_id :: string
  apv_tenant_id :: string
  apv_action_request_id :: string
  apv_capability_name :: string
  apv_capability_version :: string
  apv_source :: string
  apv_status :: string
  apv_actor_user_id :: "string option"
  apv_actor_label :: "string option"
  apv_input_hash :: string
  apv_evidence_ids :: "string list option"
  apv_reason :: "string option"
  apv_matched_policy_id :: "string option"
  apv_matched_policy_version :: "int option"
  apv_decision_json :: jsval
  apv_expires_at :: int
  apv_decided_at :: "int option"
  apv_created_at :: int

record ai_approval_policy =
  pol_id :: string
  pol_tenant_id :: string
  pol_policy_key :: string
  pol_policy_version :: int
  pol_name :: string
  pol_description :: "string option"
  pol_status :: string
  pol_enabled :: bool
  pol_capability_name :: string
  pol_capability_version :: string
  pol_effect :: string
  pol_provider_kind :: "string option"
  pol_provider_key :: "string option"
  pol_environment :: "string option"
  pol_trigger_surface :: "string option"
  pol_trigger_kind :: "string option"
  pol_max_autonomy_level :: string
  pol_target_type :: "string option"
  pol_target_constraints_json :: jsval
  pol_evidence_requirements_json :: jsval
  pol_evaluation_requirements_json :: jsval
  pol_min_confidence :: "jsnum option"
  pol_cooldown_seconds :: int
  pol_budget_constraints_json :: jsval
  pol_live_test_safety :: string
  pol_metadata_json :: jsval
  pol_created_at :: int
  pol_updated_at :: int

record ai_autonomy_ceiling =
  ceil_id :: string
  ceil_tenant_id :: string
  ceil_scope :: string
  ceil_environment :: "string option"
  ceil_capability_name :: "string option"
  ceil_capability_version :: "string option"
  ceil_provider_kind :: "string option"
  ceil_provider_key :: "string option"
  ceil_max_autonomy_level :: string
  ceil_enabled :: bool
  ceil_reason :: "string option"
  ceil_metadata_json :: jsval
  ceil_created_at :: int
  ceil_updated_at :: int

record ai_autonomy_routine =
  rout_id :: string
  rout_tenant_id :: string
  rout_routine_key :: string
  rout_name :: string
  rout_trigger_kind :: string
  rout_workflow_type :: string
  rout_enabled :: bool
  rout_provider_key :: string
  rout_schedule_json :: jsval
  rout_alert_filter_json :: jsval
  rout_input_json :: jsval
  rout_max_runs_per_window :: int
  rout_cooldown_seconds :: int
  rout_metadata_json :: jsval
  rout_last_triggered_at :: "int option"
  rout_created_at :: int
  rout_updated_at :: int

record ai_emergency_pause =
  pause_id :: string
  pause_tenant_id :: "string option"
  pause_scope :: string
  pause_agent_definition_id :: "string option"
  pause_capability_name :: "string option"
  pause_category :: "string option"
  pause_effect :: "string option"
  pause_active :: bool
  pause_reason :: string
  pause_actor_user_id :: "string option"
  pause_actor_label :: "string option"
  pause_expires_at :: "int option"
  pause_revoked_at :: "int option"
  pause_created_at :: int

record ai_evaluation =
  eval_id :: string
  eval_tenant_id :: string
  eval_run_id :: "string option"
  eval_recommendation_id :: "string option"
  eval_decision_id :: "string option"
  eval_status :: string
  eval_outcome :: "string option"
  eval_scores_json :: jsval
  eval_feedback_json :: jsval
  eval_metadata_json :: jsval
  eval_created_at :: int
  eval_updated_at :: int

record ai_recommendation =
  rec_id :: string
  rec_tenant_id :: string
  rec_run_id :: "string option"
  rec_observation_id :: "string option"
  rec_recommendation_type :: string
  rec_status :: string
  rec_summary :: string
  rec_rationale :: "string option"
  rec_confidence :: "jsnum option"
  rec_proposed_action_class :: "string option"
  rec_max_autonomy_level :: string
  rec_evidence_ids :: "string list option"
  rec_metadata_json :: jsval
  rec_created_at :: int
  rec_updated_at :: int

record ai_evidence =
  evi_id :: string
  evi_tenant_id :: string
  evi_run_id :: "string option"
  evi_tool_execution_id :: "string option"
  evi_action_request_id :: "string option"
  evi_source_provider :: string
  evi_source_object_type :: string
  evi_source_object_id :: "string option"
  evi_source_uri :: "string option"
  evi_trust_level :: string
  evi_redaction_status :: string
  evi_content_hash :: string
  evi_summary :: string
  evi_payload_json :: jsval
  evi_retention_class :: string
  evi_collected_at :: int
  evi_created_at :: int

record ai_run =
  run_id :: string
  run_tenant_id :: string
  run_user_id :: "string option"
  run_conversation_id :: "string option"
  run_request_id :: "string option"
  run_ai_api_key_id :: "string option"
  run_invocation_channel :: string
  run_trigger_kind :: string
  run_status :: string
  run_input_summary :: jsval
  run_output_summary :: jsval
  run_usage_json :: jsval
  run_cost_json :: jsval
  run_metadata_json :: jsval
  run_started_at :: int
  run_completed_at :: "int option"
  run_created_at :: int
  run_updated_at :: int

record ai_run_step =
  step_id :: string
  step_tenant_id :: string
  step_run_id :: string
  step_step_index :: int
  step_kind :: string
  step_status :: string
  step_capability_name :: "string option"
  step_capability_version :: "string option"
  step_input_summary :: jsval
  step_output_summary :: jsval
  step_error_message :: "string option"
  step_started_at :: int
  step_completed_at :: "int option"
  step_created_at :: int

record ai_tool_execution =
  tool_id :: string
  tool_tenant_id :: string
  tool_run_id :: string
  tool_step_id :: "string option"
  tool_action_request_id :: "string option"
  tool_approval_id :: "string option"
  tool_capability_name :: string
  tool_capability_version :: string
  tool_surface :: string
  tool_effect :: string
  tool_status :: string
  tool_input_hash :: "string option"
  tool_input_summary :: jsval
  tool_output_summary :: jsval
  tool_error_message :: "string option"
  tool_duration_ms :: "int option"
  tool_usage_json :: jsval
  tool_cost_json :: jsval
  tool_metadata_json :: jsval
  tool_started_at :: int
  tool_completed_at :: "int option"
  tool_created_at :: int

record ai_agent_definition =
  agent_id :: string
  agent_tenant_id :: string
  agent_agent_key :: string
  agent_name :: string
  agent_description :: "string option"
  agent_agent_type :: string
  agent_status :: string
  agent_environment :: string
  agent_provider_bindings_json :: jsval
  agent_llm_model_config_id :: "string option"
  agent_allowed_capabilities_json :: jsval
  agent_forbidden_capabilities_json :: jsval
  agent_max_autonomy_level :: string
  agent_default_approval_requirement :: string
  agent_agent_priority :: int
  agent_trigger_policy_json :: jsval
  agent_scope_policy_json :: jsval
  agent_queue_policy_json :: jsval
  agent_response_policy_json :: jsval
  agent_evaluation_policy_json :: jsval
  agent_persona_json :: jsval
  agent_config_version :: int
  agent_updated_by_user_id :: "string option"
  agent_metadata_json :: jsval
  agent_created_at :: int
  agent_updated_at :: int

record ai_mutation_preview =
  prev_id :: string
  prev_tenant_id :: string
  prev_conversation_id :: "string option"
  prev_user_id :: string
  prev_tool_name :: string
  prev_target_entity_type :: string
  prev_target_entity_id :: "string option"
  prev_mutation_input :: jsval
  prev_current_values :: jsval
  prev_status :: string
  prev_approved_at :: "int option"
  prev_rejected_at :: "int option"
  prev_executed_at :: "int option"
  prev_expires_at :: int
  prev_error_message :: "string option"
  prev_created_at :: int
subsection \<open>Execution context, platform, errors\<close>

record exec_context =
  ctx_tenantId :: string
  ctx_userId :: string
  ctx_surface :: string
  ctx_conversationId :: "string option"
  ctx_requestId :: "string option"
  ctx_aiApiKeyId :: "string option"

text \<open>
  What the code takes from outside: the n-th generated uuid, SHA-256 as hexadecimal text, the
  regular expression a text compiles to (\<open>None\<close> when \<open>new RegExp\<close> throws), the sum of two
  doubles, and the four replacements of \<open>redactString\<close>.
\<close>

record platform =
  uuid :: "nat \<Rightarrow> string"
  sha256 :: "string \<Rightarrow> string"
  regexp :: "string \<Rightarrow> (string \<Rightarrow> bool) option"
  add_num :: "jsnum \<Rightarrow> jsnum \<Rightarrow> jsnum"
  redact_text :: "string \<Rightarrow> string"

datatype ai_error =
    Forbidden string
  | BadRequest string
  | NotFound string
  | PolicyRefused string jsval
  | InvalidInput string "string list"
  | UniqueViolation
  | Thrown string
  | ModelUnavailable string string
  | Coded string string

text \<open>\<open>error.message\<close>.\<close>

fun error_message :: "ai_error \<Rightarrow> string" where
  "error_message (Forbidden m) = m"
| "error_message (BadRequest m) = m"
| "error_message (NotFound m) = m"
| "error_message (PolicyRefused m _) = m"
| "error_message (InvalidInput m _) = m"
| "error_message UniqueViolation = ''duplicate key value violates unique constraint''"
| "error_message (Thrown m) = m"
| "error_message (ModelUnavailable code m) = m"
| "error_message (Coded code m) = m"

record db =
  db_actions :: "ai_action_request list"
  db_approvals :: "ai_approval list"
  db_policies :: "ai_approval_policy list"
  db_ceilings :: "ai_autonomy_ceiling list"
  db_routines :: "ai_autonomy_routine list"
  db_pauses :: "ai_emergency_pause list"
  db_evaluations :: "ai_evaluation list"
  db_recommendations :: "ai_recommendation list"
  db_evidence :: "ai_evidence list"
  db_runs :: "ai_run list"
  db_steps :: "ai_run_step list"
  db_tools :: "ai_tool_execution list"
  db_agents :: "ai_agent_definition list"
  db_previews :: "ai_mutation_preview list"
  db_minted :: nat

subsection \<open>Operations on the database\<close>

type_synonym ('s, 'a) act = "'s \<Rightarrow> 's \<times> (ai_error + 'a)"
type_synonym 'a op = "(db, 'a) act"

definition oret :: "'a \<Rightarrow> ('s, 'a) act" where
  "oret a = (\<lambda>s. (s, Inr a))"

definition othrow :: "ai_error \<Rightarrow> ('s, 'a) act" where
  "othrow e = (\<lambda>s. (s, Inl e))"

definition obind :: "('s, 'a) act \<Rightarrow> ('a \<Rightarrow> ('s, 'b) act) \<Rightarrow> ('s, 'b) act" where
  "obind m f = (\<lambda>s. case m s of (s', r) \<Rightarrow> (case r of Inl e \<Rightarrow> (s', Inl e) | Inr a \<Rightarrow> f a s'))"

definition oread :: "('s \<Rightarrow> 'a) \<Rightarrow> ('s, 'a) act" where
  "oread g = (\<lambda>s. (s, Inr (g s)))"

definition oguard :: "bool \<Rightarrow> ai_error \<Rightarrow> ('s, 'a) act \<Rightarrow> ('s, 'a) act" where
  "oguard bad e m = (if bad then othrow e else m)"

definition otry :: "('s, 'a) act \<Rightarrow> (ai_error \<Rightarrow> ('s, 'a) act) \<Rightarrow> ('s, 'a) act" where
  "otry m h = (\<lambda>s. case m s of (s', r) \<Rightarrow> (case r of Inl e \<Rightarrow> h e s' | Inr a \<Rightarrow> (s', Inr a)))"

text \<open>\<open>for (const x of xs) ys.push(await f(x))\<close>.\<close>

fun omap :: "('a \<Rightarrow> ('s, 'b) act) \<Rightarrow> 'a list \<Rightarrow> ('s, 'b list) act" where
  "omap f [] = oret []"
| "omap f (x # xs) = obind (f x) (\<lambda>y. obind (omap f xs) (\<lambda>ys. oret (y # ys)))"

named_theorems op_simps \<open>unfolding the operations on a state\<close>

lemma oret_apply [simp, op_simps]: "oret a s = (s, Inr a)"
  by (simp add: oret_def)

lemma othrow_apply [simp, op_simps]: "othrow e s = (s, Inl e)"
  by (simp add: othrow_def)

lemma oread_apply [simp, op_simps]: "oread g s = (s, Inr (g s))"
  by (simp add: oread_def)

lemma oguard_apply [op_simps]: "oguard bad e m s = (if bad then (s, Inl e) else m s)"
  by (simp add: oguard_def)

lemma oguard_simps [simp]: "oguard True e m = othrow e" "oguard False e m = m"
  by (simp_all add: oguard_def)

lemma obind_apply [op_simps]:
  "obind m f s = (case m s of (s', Inl e) \<Rightarrow> (s', Inl e) | (s', Inr a) \<Rightarrow> f a s')"
  by (auto simp: obind_def split: prod.splits sum.splits)

lemma obind_simps [simp]: "obind (oret a) f = f a" "obind (othrow e) f = othrow e"
  by (auto simp: obind_def oret_def othrow_def fun_eq_iff)

lemma obind_oread [simp]: "obind (oread g) f s = f (g s) s"
  by (simp add: obind_def)

lemma obind_step: "m s = (s', Inr a) \<Longrightarrow> obind m f s = f a s'"
  by (simp add: obind_def)

lemma obind_Inr_iff:
  "obind m f s = (s'', Inr b) \<longleftrightarrow> (\<exists>s' a. m s = (s', Inr a) \<and> f a s' = (s'', Inr b))"
  by (auto simp: obind_def split: prod.splits sum.splits)

lemma obind_InrE:
  assumes "obind m f s = (s'', Inr b)"
  obtains s' a where "m s = (s', Inr a)" "f a s' = (s'', Inr b)"
  using assms by (auto simp: obind_Inr_iff)

lemma oguard_Inr_iff: "oguard bad e m s = (s', Inr b) \<longleftrightarrow> \<not> bad \<and> m s = (s', Inr b)"
  by (simp add: oguard_def)

text \<open>An invariant of the database that an operation keeps, whatever its outcome.\<close>

definition keeps :: "('s \<Rightarrow> bool) \<Rightarrow> ('s, 'a) act \<Rightarrow> bool" where
  "keeps P m \<longleftrightarrow> (\<forall>s. P s \<longrightarrow> P (fst (m s)))"

lemma keepsI: "(\<And>s. P s \<Longrightarrow> P (fst (m s))) \<Longrightarrow> keeps P m"
  by (simp add: keeps_def)

lemma keepsD: "keeps P m \<Longrightarrow> P s \<Longrightarrow> P (fst (m s))"
  by (simp add: keeps_def)

lemma keeps_oret [simp, intro!]: "keeps P (oret a)"
  and keeps_othrow [simp, intro!]: "keeps P (othrow e)"
  and keeps_oread [simp, intro!]: "keeps P (oread g)"
  by (simp_all add: keeps_def)

lemma keeps_obind [intro]: "keeps P m \<Longrightarrow> (\<And>a. keeps P (f a)) \<Longrightarrow> keeps P (obind m f)"
  by (fastforce simp: keeps_def obind_def split: prod.splits sum.splits)

lemma keeps_oguard [intro]: "keeps P m \<Longrightarrow> keeps P (oguard bad e m)"
  by (simp add: oguard_def)

lemma keeps_otry [intro]: "keeps P m \<Longrightarrow> (\<And>e. keeps P (h e)) \<Longrightarrow> keeps P (otry m h)"
  by (fastforce simp: keeps_def otry_def split: prod.splits sum.splits)

lemma keeps_omap [intro]: "(\<And>x. x \<in> set xs \<Longrightarrow> keeps P (f x)) \<Longrightarrow> keeps P (omap f xs)"
  by (induction xs) (auto intro!: keeps_obind)

subsection \<open>Repositories\<close>

text \<open>
  The repository interface the services call: \<open>find\<close> a row by its id, and \<open>save\<close>, which replaces
  the row of that id or inserts it.
\<close>

locale repository =
  fixes row_id :: "'r \<Rightarrow> string"
    and find_id :: "string \<Rightarrow> 'r list \<Rightarrow> 'r option"
    and save :: "'r \<Rightarrow> 'r list \<Rightarrow> 'r list"
  assumes find_save: "find_id k (save r rows) = (if k = row_id r then Some r else find_id k rows)"
    and find_sound: "find_id k rows = Some r \<Longrightarrow> r \<in> set rows \<and> row_id r = k"
    and save_rows: "set (save r rows) = insert r {x \<in> set rows. row_id x \<noteq> row_id r}"
    and save_ids: "distinct (map row_id rows) \<Longrightarrow> distinct (map row_id (save r rows))"
begin

lemma find_saved [simp]: "find_id (row_id r) (save r rows) = Some r"
  by (simp add: find_save)

lemma saved_in [simp]: "r \<in> set (save r rows)"
  by (simp add: save_rows)

lemma save_all: "\<forall>x\<in>set rows. Q x \<Longrightarrow> Q r \<Longrightarrow> \<forall>x\<in>set (save r rows). Q x"
  by (auto simp: save_rows)

lemma save_other: "x \<in> set rows \<Longrightarrow> row_id x \<noteq> row_id r \<Longrightarrow> x \<in> set (save r rows)"
  by (simp add: save_rows)

lemma save_cases: "x \<in> set (save r rows) \<Longrightarrow> x = r \<or> x \<in> set rows \<and> row_id x \<noteq> row_id r"
  by (auto simp: save_rows)

end

definition find_row :: "('r \<Rightarrow> string) \<Rightarrow> string \<Rightarrow> 'r list \<Rightarrow> 'r option" where
  "find_row row_id k rows = List.find (\<lambda>r. row_id r = k) rows"

definition save_row :: "('r \<Rightarrow> string) \<Rightarrow> 'r \<Rightarrow> 'r list \<Rightarrow> 'r list" where
  "save_row row_id r rows =
     (if row_id r \<in> set (map row_id rows) then map (\<lambda>x. if row_id x = row_id r then r else x) rows
      else rows @ [r])"

lemma find_row_map:
  "find_row i k (map (\<lambda>x. if i x = i r then r else x) rows) =
     (if k = i r \<and> i r \<in> set (map i rows) then Some r else find_row i k rows)"
  by (induction rows) (auto simp: find_row_def)

lemma find_row_append: "find_row i k (rows @ [r]) =
   (case find_row i k rows of Some x \<Rightarrow> Some x | None \<Rightarrow> if i r = k then Some r else None)"
  by (induction rows) (auto simp: find_row_def)

lemma find_row_None: "find_row i k rows = None \<longleftrightarrow> k \<notin> set (map i rows)"
  by (auto simp: find_row_def find_None_iff)

lemma find_row_Some: "find_row i k rows = Some r \<Longrightarrow> r \<in> set rows \<and> i r = k"
  by (auto simp: find_row_def find_Some_iff)

lemma repository_rows: "repository i (find_row i) (save_row i)"
proof
  fix k r rows
  show "find_row i k (save_row i r rows) = (if k = i r then Some r else find_row i k rows)"
  proof (cases "i r \<in> set (map i rows)")
    case True
    then show ?thesis unfolding save_row_def by (simp only: find_row_map if_True) simp
  next
    case False
    then have "find_row i (i r) rows = None" by (simp add: find_row_None)
    with False show ?thesis unfolding save_row_def
      by (simp only: find_row_append if_False) (auto split: option.split)
  qed
  show "set (save_row i r rows) = insert r {x \<in> set rows. i x \<noteq> i r}"
    by (auto simp: save_row_def) (metis image_eqI)
  show "distinct (map i rows) \<Longrightarrow> distinct (map i (save_row i r rows))"
  proof -
    have m: "map i (map (\<lambda>x. if i x = i r then r else x) rows) = map i rows" by (induction rows) auto
    show "distinct (map i rows) \<Longrightarrow> distinct (map i (save_row i r rows))"
      by (cases "i r \<in> set (map i rows)") (simp_all only: save_row_def if_True if_False m, simp)
  qed
qed (rule find_row_Some)

interpretation act_rows: repository act_id "find_row act_id" "save_row act_id" by (rule repository_rows)
interpretation apv_rows: repository apv_id "find_row apv_id" "save_row apv_id" by (rule repository_rows)
interpretation rout_rows: repository rout_id "find_row rout_id" "save_row rout_id" by (rule repository_rows)
interpretation pause_rows: repository pause_id "find_row pause_id" "save_row pause_id" by (rule repository_rows)
interpretation eval_rows: repository eval_id "find_row eval_id" "save_row eval_id" by (rule repository_rows)
interpretation evi_rows: repository evi_id "find_row evi_id" "save_row evi_id" by (rule repository_rows)
interpretation run_rows: repository run_id "find_row run_id" "save_row run_id" by (rule repository_rows)
interpretation step_rows: repository step_id "find_row step_id" "save_row step_id" by (rule repository_rows)
interpretation tool_rows: repository tool_id "find_row tool_id" "save_row tool_id" by (rule repository_rows)

text \<open>\<open>repo.save(row)\<close> on each table, and a fresh uuid for a created row.\<close>

definition save_action :: "ai_action_request \<Rightarrow> ai_action_request op" where
  "save_action r = (\<lambda>s. (s\<lparr>db_actions := save_row act_id r (db_actions s)\<rparr>, Inr r))"

definition save_approval :: "ai_approval \<Rightarrow> ai_approval op" where
  "save_approval r = (\<lambda>s. (s\<lparr>db_approvals := save_row apv_id r (db_approvals s)\<rparr>, Inr r))"

definition save_routine :: "ai_autonomy_routine \<Rightarrow> ai_autonomy_routine op" where
  "save_routine r = (\<lambda>s. (s\<lparr>db_routines := save_row rout_id r (db_routines s)\<rparr>, Inr r))"

definition save_pause :: "ai_emergency_pause \<Rightarrow> ai_emergency_pause op" where
  "save_pause r = (\<lambda>s. (s\<lparr>db_pauses := save_row pause_id r (db_pauses s)\<rparr>, Inr r))"

definition save_evaluation :: "ai_evaluation \<Rightarrow> ai_evaluation op" where
  "save_evaluation r = (\<lambda>s. (s\<lparr>db_evaluations := save_row eval_id r (db_evaluations s)\<rparr>, Inr r))"

definition save_evidence :: "ai_evidence \<Rightarrow> ai_evidence op" where
  "save_evidence r = (\<lambda>s. (s\<lparr>db_evidence := save_row evi_id r (db_evidence s)\<rparr>, Inr r))"

definition save_run :: "ai_run \<Rightarrow> ai_run op" where
  "save_run r = (\<lambda>s. (s\<lparr>db_runs := save_row run_id r (db_runs s)\<rparr>, Inr r))"

definition save_step :: "ai_run_step \<Rightarrow> ai_run_step op" where
  "save_step r = (\<lambda>s. (s\<lparr>db_steps := save_row step_id r (db_steps s)\<rparr>, Inr r))"

definition save_tool :: "ai_tool_execution \<Rightarrow> ai_tool_execution op" where
  "save_tool r = (\<lambda>s. (s\<lparr>db_tools := save_row tool_id r (db_tools s)\<rparr>, Inr r))"

definition mint :: "platform \<Rightarrow> string op" where
  "mint pf = (\<lambda>s. (s\<lparr>db_minted := Suc (db_minted s)\<rparr>, Inr (uuid pf (db_minted s))))"

lemmas save_simps [op_simps] = save_action_def save_approval_def save_routine_def save_pause_def
  save_evaluation_def save_evidence_def save_run_def save_step_def save_tool_def mint_def

subsection \<open>A concrete instance, for the witnesses\<close>

definition sample_platform :: platform where
  "sample_platform = \<lparr> uuid = (\<lambda>n. ''uuid-'' @ show_nat n), sha256 = (\<lambda>t. t), regexp = (\<lambda>p. Some (js_includes p)),
     add_num = (\<lambda>a b. b), redact_text = (\<lambda>t. t) \<rparr>"

definition sample_ctx :: exec_context where
  "sample_ctx = \<lparr> ctx_tenantId = ''t1'', ctx_userId = ''u1'', ctx_surface = ''chat'', ctx_conversationId = None,
     ctx_requestId = None, ctx_aiApiKeyId = None \<rparr>"

definition empty_db :: db where
  "empty_db = \<lparr> db_actions = [], db_approvals = [], db_policies = [], db_ceilings = [], db_routines = [],
     db_pauses = [], db_evaluations = [], db_recommendations = [], db_evidence = [], db_runs = [],
     db_steps = [], db_tools = [], db_agents = [], db_previews = [], db_minted = 0 \<rparr>"

end
