(* ===== verification/Evidence.thy ===== *)
theory Evidence
  imports Entities
begin

section \<open>Evidence (evidence/ai-evidence.service.ts)\<close>

text \<open>
  Redaction of payloads, summaries, the hash of a JSON value and the recording of evidence rows.
  The theorems: a redacted value holds no secret under a secret key at any depth, and the hashed
  text of a value is the text of what a jsonb column gives back for it.
\<close>

definition MAX_SUMMARY_CHARS :: nat where "MAX_SUMMARY_CHARS = 2000"
definition MAX_PAYLOAD_JSON_CHARS :: nat where "MAX_PAYLOAD_JSON_CHARS = 24000"

text \<open>\<open>SECRET_KEY_RE.test(key)\<close>: the expression is a choice of words, letter case apart.\<close>

definition SECRET_WORDS :: "string list" where
  "SECRET_WORDS = [''apikey'', ''api-key'', ''api_key'', ''token'', ''secret'', ''password'',
     ''authorization'', ''cookie'', ''session'']"

definition secret_key :: "string \<Rightarrow> bool" where
  "secret_key key \<longleftrightarrow> list_ex (js_includes (js_lower key)) SECRET_WORDS"

definition hashStableJson :: "platform \<Rightarrow> jsval \<Rightarrow> string" where
  "hashStableJson pf v = sha256 pf (stableStringify v)"

definition pathMatches :: "string \<Rightarrow> string list \<Rightarrow> bool" where
  "pathMatches path redactFields \<longleftrightarrow> path \<in> set redactFields
     \<or> (if starts_with ''/'' path then tl path else path) \<in> set redactFields"

definition REDACTED :: jsval where "REDACTED = JStr ''[REDACTED]''"

definition child_path :: "string \<Rightarrow> string \<Rightarrow> string" where
  "child_path path key = path @ ''/'' @ key"

function redactValue :: "platform \<Rightarrow> jsval \<Rightarrow> string list \<Rightarrow> string \<Rightarrow> jsval" where
  "redactValue pf (JStr s) rf path = JStr (redact_text pf s)"
| "redactValue pf (JArr vs) rf path =
     JArr (map (\<lambda>(i, v). redactValue pf v rf (child_path path (show_nat i))) (List.enumerate 0 vs))"
| "redactValue pf (JObj kvs) rf path =
     JObj (map (\<lambda>(k, v). if secret_key k \<or> pathMatches (child_path path k) rf then (k, REDACTED)
                         else (k, redactValue pf v rf (child_path path k))) kvs)"
| "redactValue pf JUndef rf path = JUndef"
| "redactValue pf JNull rf path = JNull"
| "redactValue pf (JBool b) rf path = JBool b"
| "redactValue pf (JNum n) rf path = JNum n"
  by pat_completeness auto

termination redactValue
proof (relation "measure (\<lambda>(pf, v, rf, path). size v)")
  fix vs z i and v :: jsval assume "z \<in> set (List.enumerate 0 vs)" "(i, v) = z"
  then have "v \<in> set vs" by (auto simp: in_set_enumerate_eq)
  then show "((pf, v, rf, child_path path (show_nat i)), pf, JArr vs, rf, path)
      \<in> measure (\<lambda>(pf, v, rf, path). size v)" for pf rf path
    by (simp only: in_measure prod.case) (rule jsval_size_arr)
next
  fix kvs z and k :: string and v :: jsval assume "z \<in> set kvs" "(k, v) = z"
  then show "((pf, v, rf, child_path path k), pf, JObj kvs, rf, path)
      \<in> measure (\<lambda>(pf, v, rf, path). size v)" for pf rf path
    using jsval_size_obj [of z kvs] by (simp only: in_measure prod.case) (metis snd_conv)
qed (rule wf_measure)

text \<open>\<open>value.replace(/\s+/g, ' ').trim()\<close>, cut to its first characters.\<close>

fun collapse_spaces :: "string \<Rightarrow> string" where
  "collapse_spaces [] = []"
| "collapse_spaces (c # s) =
     (if js_space c
      then (case s of d # _ \<Rightarrow> if js_space d then collapse_spaces s else CHR '' '' # collapse_spaces s
            | [] \<Rightarrow> '' '')
      else c # collapse_spaces s)"

definition truncateText :: "string \<Rightarrow> string" where
  "truncateText t = (let normalized = js_trim (collapse_spaces t) in
     if length normalized > MAX_SUMMARY_CHARS then take (MAX_SUMMARY_CHARS - 3) normalized @ ''...'' else normalized)"

definition object_keys_text :: "(string \<times> jsval) list \<Rightarrow> string" where
  "object_keys_text kvs = (let t = join '', '' (take 20 (map fst kvs)) in if t = [] then ''none'' else t)"

fun summarizePayload :: "jsval \<Rightarrow> string" where
  "summarizePayload JUndef = ''No payload.''"
| "summarizePayload JNull = ''No payload.''"
| "summarizePayload (JStr s) = truncateText s"
| "summarizePayload (JArr vs) = truncateText
     (''Array with '' @ show_nat (length vs) @ '' item(s): '' @ stableStringify (JArr (take 3 vs)))"
| "summarizePayload (JObj kvs) = truncateText (''Object keys: '' @ object_keys_text kvs)"
| "summarizePayload v = truncateText (js_string v)"

definition redact :: "platform \<Rightarrow> jsval \<Rightarrow> string list \<Rightarrow> jsval" where
  "redact pf v redactFields = redactValue pf v redactFields []"

definition summarize :: "platform \<Rightarrow> jsval \<Rightarrow> jsval" where
  "summarize pf v = (let redacted = redact pf v [] in
     JObj [(''hash'', JStr (hashStableJson pf redacted)), (''summary'', JStr (summarizePayload redacted))])"

record evidence_seed =
  es_runId :: "string option"
  es_toolExecutionId :: "string option"
  es_actionRequestId :: "string option"
  es_sourceProvider :: string
  es_sourceObjectType :: string
  es_sourceObjectId :: "string option"
  es_sourceUri :: "string option"
  es_trustLevel :: "string option"
  es_summary :: "string option"
  es_payload :: jsval
  es_retentionClass :: "string option"
  es_redactFields :: "string list"
  es_collectedAt :: "int option"

definition with_default :: "'a \<Rightarrow> 'a option \<Rightarrow> 'a" where
  "with_default d v = (case v of None \<Rightarrow> d | Some x \<Rightarrow> x)"

definition null_if_undef :: "jsval \<Rightarrow> jsval" where
  "null_if_undef v = (if v = JUndef then JNull else v)"

definition stored_payload :: "jsval \<Rightarrow> jsval" where
  "stored_payload v = (if length (stableStringify v) \<le> MAX_PAYLOAD_JSON_CHARS then v else JNull)"

definition evidence_row :: "platform \<Rightarrow> int \<Rightarrow> exec_context \<Rightarrow> evidence_seed \<Rightarrow> string \<Rightarrow> ai_evidence" where
  "evidence_row pf now ctx seed new_id =
     (let redactedPayload = redact pf (null_if_undef (es_payload seed)) (es_redactFields seed) in
        \<lparr> evi_id = new_id,
          evi_tenant_id = ctx_tenantId ctx,
          evi_run_id = es_runId seed,
          evi_tool_execution_id = es_toolExecutionId seed,
          evi_action_request_id = es_actionRequestId seed,
          evi_source_provider = es_sourceProvider seed,
          evi_source_object_type = es_sourceObjectType seed,
          evi_source_object_id = es_sourceObjectId seed,
          evi_source_uri = es_sourceUri seed,
          evi_trust_level = with_default ''system'' (es_trustLevel seed),
          evi_redaction_status = ''redacted'',
          evi_content_hash = hashStableJson pf redactedPayload,
          evi_summary = truncateText (with_default (summarizePayload redactedPayload) (es_summary seed)),
          evi_payload_json = stored_payload redactedPayload,
          evi_retention_class = with_default ''standard'' (es_retentionClass seed),
          evi_collected_at = with_default now (es_collectedAt seed),
          evi_created_at = now \<rparr>)"

definition recordEvidence :: "platform \<Rightarrow> int \<Rightarrow> exec_context \<Rightarrow> evidence_seed \<Rightarrow> ai_evidence op" where
  "recordEvidence pf now ctx seed =
     obind (mint pf) (\<lambda>new_id. save_evidence (evidence_row pf now ctx seed new_id))"

text \<open>
  \<open>AdapterEvidenceSeed\<close> of the providers; its \<open>collectedAt\<close> is the instant its text denotes.
\<close>

record adapter_seed =
  as_sourceProvider :: string
  as_sourceType :: string
  as_sourceId :: "string option"
  as_sourceUri :: "string option"
  as_collectedAt :: int
  as_trustLevel :: string
  as_summary :: string
  as_redactedPayload :: jsval
  as_rawPayloadRetention :: "string option"

record evidence_options =
  eo_runId :: "string option"
  eo_toolExecutionId :: "string option"
  eo_actionRequestId :: "string option"
  eo_retentionClass :: "string option"
  eo_redactFields :: "string list"

definition seed_of_adapter :: "evidence_options \<Rightarrow> adapter_seed \<Rightarrow> evidence_seed" where
  "seed_of_adapter opts seed =
     \<lparr> es_runId = eo_runId opts,
       es_toolExecutionId = eo_toolExecutionId opts,
       es_actionRequestId = eo_actionRequestId opts,
       es_sourceProvider = as_sourceProvider seed,
       es_sourceObjectType = as_sourceType seed,
       es_sourceObjectId = as_sourceId seed,
       es_sourceUri = as_sourceUri seed,
       es_trustLevel = Some (as_trustLevel seed),
       es_summary = Some (as_summary seed),
       es_payload = null_if_undef (as_redactedPayload seed),
       es_retentionClass = Some (with_default (with_default ''standard'' (eo_retentionClass opts)) (as_rawPayloadRetention seed)),
       es_redactFields = eo_redactFields opts,
       es_collectedAt = Some (as_collectedAt seed) \<rparr>"

definition recordAdapterEvidenceSeeds ::
  "platform \<Rightarrow> int \<Rightarrow> exec_context \<Rightarrow> adapter_seed list \<Rightarrow> evidence_options \<Rightarrow> ai_evidence list op" where
  "recordAdapterEvidenceSeeds pf now ctx seeds opts =
     omap (\<lambda>seed. recordEvidence pf now ctx (seed_of_adapter opts seed)) seeds"

subsection \<open>What a jsonb column gives back\<close>

text \<open>
  \<open>stored v w\<close>: \<open>w\<close> is a value the database returns for \<open>v\<close>.  Undefined properties are gone,
  undefined array entries and numbers that are not finite are null, and the properties of an object
  come in an order of the database's own.  The properties of an object have distinct names.
\<close>

inductive stored :: "jsval \<Rightarrow> jsval \<Rightarrow> bool" where
  stored_null: "stored JNull JNull"
| stored_bool: "stored (JBool b) (JBool b)"
| stored_num: "stored (JNum n) (if num_finite n then JNum n else JNull)"
| stored_str: "stored (JStr s) (JStr s)"
| stored_arr: "list_all2 (\<lambda>v w. if v = JUndef then w = JNull else stored v w) vs ws \<Longrightarrow> stored (JArr vs) (JArr ws)"
| stored_obj: "distinct (map fst kvs) \<Longrightarrow>
    list_all2 (\<lambda>kv kw. fst kv = fst kw \<and> stored (snd kv) (snd kw)) (filter (\<lambda>kv. snd kv \<noteq> JUndef) kvs) kws \<Longrightarrow>
    mset kws' = mset kws \<Longrightarrow> stored (JObj kvs) (JObj kws')"

inductive_cases stored_undefE: "stored v JUndef"

lemma stored_defined: "stored v w \<Longrightarrow> w \<noteq> JUndef"
  by (auto elim: stored.cases split: if_splits)

definition member_texts :: "(string \<times> jsval) list \<Rightarrow> (string \<times> string) list" where
  "member_texts kvs = map (\<lambda>kv. (fst kv, stableStringify (snd kv))) (filter (\<lambda>kv. snd kv \<noteq> JUndef) kvs)"

lemma stableStringify_obj:
  "stableStringify (JObj kvs) = ''{'' @ join '','' (map json_member (sort_key fst (member_texts kvs))) @ ''}''"
  by (simp add: member_texts_def)

lemma member_texts_keys: "map fst (member_texts kvs) = map fst (filter (\<lambda>kv. snd kv \<noteq> JUndef) kvs)"
  by (simp add: member_texts_def)

lemma member_texts_inj: "distinct (map fst kvs) \<Longrightarrow> inj_on fst (set (member_texts kvs))"
proof -
  assume "distinct (map fst kvs)"
  then have "distinct (map fst (member_texts kvs))"
    unfolding member_texts_keys by (rule distinct_map_filter)
  then show ?thesis by (simp add: distinct_map)
qed

lemma member_texts_stored:
  assumes "list_all2 (\<lambda>kv kw. fst kv = fst kw \<and> stored (snd kv) (snd kw)
             \<and> stableStringify (snd kv) = stableStringify (snd kw)) (filter (\<lambda>kv. snd kv \<noteq> JUndef) kvs) kws"
  shows "member_texts kws = member_texts kvs"
proof -
  have "\<forall>kw\<in>set kws. snd kw \<noteq> JUndef"
    using assms stored_defined by (auto simp: list_all2_conv_all_nth in_set_conv_nth) (metis snd_conv)
  then have f: "filter (\<lambda>kv. snd kv \<noteq> JUndef) kws = kws" by (simp add: filter_id_conv)
  have "map (\<lambda>kv. (fst kv, stableStringify (snd kv))) (filter (\<lambda>kv. snd kv \<noteq> JUndef) kvs)
      = map (\<lambda>kv. (fst kv, stableStringify (snd kv))) kws"
    using assms by (induction rule: list_all2_induct) auto
  with f show ?thesis by (simp add: member_texts_def)
qed

lemma stableStringify_stored: "stored v w \<Longrightarrow> stableStringify v = stableStringify w"
proof (induction rule: stored.induct)
  case (stored_arr vs ws)
  then have "map (\<lambda>v. if v = JUndef then ''null'' else stableStringify v) vs
      = map (\<lambda>v. if v = JUndef then ''null'' else stableStringify v) ws"
    by (induction rule: list_all2_induct) (auto split: if_splits dest: stored_defined)
  then show ?case by (simp only: stableStringify.simps)
next
  case (stored_obj kvs kws kws')
  have "member_texts kws = member_texts kvs"
    by (rule member_texts_stored, rule list_all2_mono [OF stored_obj.IH]) auto
  moreover have "mset (member_texts kws') = mset (member_texts kws)"
    using stored_obj.hyps(2) by (simp add: member_texts_def)
  ultimately have "sort_key fst (member_texts kvs) = sort_key fst (member_texts kws')"
    using member_texts_inj [OF stored_obj.hyps(1)] sort_key_inj_key_eq [of "member_texts kvs" "sort_key fst (member_texts kws')" fst]
    by simp
  then show ?case by (simp only: stableStringify_obj)
qed auto


definition sample_payload :: jsval where
  "sample_payload = JObj [(''b'', JNum (JFin ''1.5'')), (''x'', JUndef), (''a'', JArr [JUndef, JStr ''t''])]"

definition sample_loaded :: jsval where
  "sample_loaded = JObj [(''a'', JArr [JNull, JStr ''t'']), (''b'', JNum (JFin ''1.5''))]"

lemma sample_stored: "stored sample_payload sample_loaded"
proof -
  have n: "stored (JNum (JFin ''1.5'')) (JNum (JFin ''1.5''))" using stored_num [of "JFin ''1.5''"] by simp
  have a: "stored (JArr [JUndef, JStr ''t'']) (JArr [JNull, JStr ''t''])"
    by (rule stored_arr) (simp add: stored_str)
  show ?thesis unfolding sample_payload_def sample_loaded_def
    by (rule stored_obj [where kws = "[(''b'', JNum (JFin ''1.5'')), (''a'', JArr [JNull, JStr ''t''])]"])
       (simp_all add: n a)
qed


subsection \<open>Redaction\<close>

text \<open>No value stands under a secret key, at any depth.\<close>

function secret_free :: "jsval \<Rightarrow> bool" where
  "secret_free (JArr vs) = (\<forall>v\<in>set vs. secret_free v)"
| "secret_free (JObj kvs) = (\<forall>kv\<in>set kvs. (secret_key (fst kv) \<longrightarrow> snd kv = REDACTED) \<and> secret_free (snd kv))"
| "secret_free JUndef = True"
| "secret_free JNull = True"
| "secret_free (JBool b) = True"
| "secret_free (JNum n) = True"
| "secret_free (JStr s) = True"
  by pat_completeness auto

termination secret_free
  by (relation "measure size") (simp_all only: in_measure wf_measure jsval_size_arr jsval_size_obj)

lemma secret_free_REDACTED [simp]: "secret_free REDACTED"
  by (simp add: REDACTED_def)

lemma redactValue_secret_free: "secret_free (redactValue pf v rf path)"
proof (induction pf v rf path rule: redactValue.induct)
  case (2 pf vs rf path)
  then show ?case by (auto simp: split_beta)
next
  case (3 pf kvs rf path)
  have entry: "(secret_key k \<longrightarrow> w = REDACTED) \<and> secret_free w"
    if z: "(k, w) \<in> set (map (\<lambda>(k, v). if secret_key k \<or> pathMatches (child_path path k) rf then (k, REDACTED)
                         else (k, redactValue pf v rf (child_path path k))) kvs)" for k w
  proof -
    from z obtain v where v: "(k, v) \<in> set kvs" and
      w: "w = (if secret_key k \<or> pathMatches (child_path path k) rf then REDACTED
               else redactValue pf v rf (child_path path k))"
      by (auto split: if_splits)
    show ?thesis
    proof (cases "secret_key k \<or> pathMatches (child_path path k) rf")
      case False
      then show ?thesis using 3 [OF v refl False] w by simp
    qed (simp add: w)
  qed
  show ?case unfolding redactValue.simps secret_free.simps
  proof (rule ballI, goal_cases)
    case (1 kw)
    then show ?case using entry [of "fst kw" "snd kw"] by (simp only: prod.collapse) blast
  qed
qed simp_all

lemma redactValue_keys: "map fst (obj_entries (redactValue pf v rf path)) = map fst (obj_entries v)"
  by (cases v) (auto simp: obj_entries_def)

lemma map_of_redacted:
  "map_of (map (\<lambda>(k, v). if c k then (k, r) else (k, f k v)) kvs) k
     = (case map_of kvs k of None \<Rightarrow> None | Some v \<Rightarrow> Some (if c k then r else f k v))"
  by (induction kvs) auto

lemma redactValue_field:
  "js_get v key \<noteq> JUndef \<Longrightarrow> secret_key key \<or> pathMatches (child_path path key) rf \<Longrightarrow>
   js_get (redactValue pf v rf path) key = REDACTED"
  by (cases v) (auto simp: js_get_def obj_get_def map_of_redacted split: option.splits)

lemma collapse_no_longer: "length (js_trim s) \<le> length s"
proof -
  have "length (js_trim s) \<le> length (dropWhile js_space s)"
    using length_dropWhile_le [of js_space "rev (dropWhile js_space s)"] by (simp add: js_trim_def)
  also have "\<dots> \<le> length s" by (rule length_dropWhile_le)
  finally show ?thesis .
qed

lemma truncateText_bound: "length (truncateText t) \<le> MAX_SUMMARY_CHARS"
  by (simp add: truncateText_def Let_def MAX_SUMMARY_CHARS_def)


subsection \<open>The evidence table\<close>

text \<open>A row as \<open>recordEvidence\<close> leaves it.\<close>

definition evidence_ok :: "platform \<Rightarrow> ai_evidence \<Rightarrow> bool" where
  "evidence_ok pf e \<longleftrightarrow> secret_free (evi_payload_json e) \<and> length (evi_summary e) \<le> MAX_SUMMARY_CHARS
     \<and> (evi_payload_json e = JNull \<or> evi_content_hash e = hashStableJson pf (evi_payload_json e))
     \<and> length (stableStringify (evi_payload_json e)) \<le> MAX_PAYLOAD_JSON_CHARS"

lemma stored_payload_ok:
  "secret_free v \<Longrightarrow> secret_free (stored_payload v) \<and> length (stableStringify (stored_payload v)) \<le> MAX_PAYLOAD_JSON_CHARS
     \<and> (stored_payload v = JNull \<or> stored_payload v = v)"
  by (simp add: stored_payload_def MAX_PAYLOAD_JSON_CHARS_def)

lemma evidence_row_ok: "evidence_ok pf (evidence_row pf now ctx seed new_id)"
  using stored_payload_ok [OF redactValue_secret_free [of pf "null_if_undef (es_payload seed)" "es_redactFields seed" "[]"]]
  by (auto simp: evidence_ok_def evidence_row_def redact_def truncateText_bound Let_def)

lemma recordEvidence_run:
  "recordEvidence pf now ctx seed s =
     (let e = evidence_row pf now ctx seed (uuid pf (db_minted s)) in
      (s\<lparr>db_minted := Suc (db_minted s), db_evidence := save_row evi_id e (db_evidence s)\<rparr>, Inr e))"
  by (simp add: recordEvidence_def op_simps Let_def)

lemma recordEvidence_keeps: "keeps (\<lambda>s. \<forall>e\<in>set (db_evidence s). evidence_ok pf e) (recordEvidence pf now ctx seed)"
proof (rule keepsI, goal_cases)
  case (1 s)
  show ?case using evi_rows.save_all [OF 1 evidence_row_ok] by (simp add: recordEvidence_run Let_def)
qed

text \<open>Recording the evidence of a provider keeps the evidence table sound: every row holds a payload
  without secrets and within the size limit, the hash of exactly that payload, and a bounded summary.\<close>

theorem recordAdapterEvidenceSeeds_invariant:
  assumes "\<forall>e\<in>set (db_evidence s). evidence_ok pf e"
  shows "\<forall>e\<in>set (db_evidence (fst (recordAdapterEvidenceSeeds pf now ctx seeds opts s))). evidence_ok pf e"
  using keepsD [OF keeps_omap, of seeds "\<lambda>s. \<forall>e\<in>set (db_evidence s). evidence_ok pf e", OF recordEvidence_keeps assms]
  unfolding recordAdapterEvidenceSeeds_def .

definition sample_adapter_seed :: adapter_seed where
  "sample_adapter_seed = \<lparr> as_sourceProvider = ''glpi'', as_sourceType = ''ticket'', as_sourceId = None, as_sourceUri = None,
     as_collectedAt = 5, as_trustLevel = ''external'', as_summary = ''a ticket'',
     as_redactedPayload = JObj [(''token'', JStr ''x''), (''title'', JStr ''printer'')], as_rawPayloadRetention = None \<rparr>"

definition no_evidence_options :: evidence_options where
  "no_evidence_options = \<lparr> eo_runId = None, eo_toolExecutionId = None, eo_actionRequestId = None,
     eo_retentionClass = None, eo_redactFields = [] \<rparr>"

theorem recordAdapterEvidenceSeeds_invariant_witness:
  "let s = fst (recordAdapterEvidenceSeeds sample_platform 9 sample_ctx [sample_adapter_seed] no_evidence_options empty_db) in
     (\<forall>e\<in>set (db_evidence s). evidence_ok sample_platform e) \<and> length (db_evidence s) = 1"
  using recordAdapterEvidenceSeeds_invariant [of empty_db sample_platform 9 sample_ctx "[sample_adapter_seed]" no_evidence_options]
  by (simp add: empty_db_def recordAdapterEvidenceSeeds_def obind_apply recordEvidence_run save_row_def Let_def)

end
