(* ===== verification/Contracts.thy ===== *)
theory Contracts
  imports Evidence
begin

section \<open>Capability contracts (capability/capability-contract.ts)\<close>

text \<open>
  The contract of a capability and the conditions the zod schema puts on one.  String enumerations
  stay strings, as the rows they are compared with; the approval strategy is a tagged union.
\<close>

definition CAPABILITY_EFFECTS :: "string list" where
  "CAPABILITY_EFFECTS = [''read'', ''propose'', ''notify'', ''write'', ''remediate'']"

definition CAPABILITY_RISK_LEVELS :: "string list" where
  "CAPABILITY_RISK_LEVELS = [''none'', ''low'', ''medium'', ''high'', ''critical'']"

definition CAPABILITY_SURFACES :: "string list" where
  "CAPABILITY_SURFACES = [''chat'', ''mcp'', ''scheduler'', ''alert'', ''internal'']"

definition CAPABILITY_AUTONOMY_LEVELS :: "string list" where
  "CAPABILITY_AUTONOMY_LEVELS = [''A0'', ''A1'', ''A2'', ''A3'', ''A4'', ''A5'', ''A6'']"

definition CAPABILITY_APPROVALS :: "string list" where
  "CAPABILITY_APPROVALS = [''none'', ''human'', ''policy'']"

definition CAPABILITY_PROVIDER_KINDS :: "string list" where
  "CAPABILITY_PROVIDER_KINDS = [''kanap_domain'', ''ticketing'', ''monitoring'', ''virtualization'', ''directory'',
     ''communication'', ''automation'', ''external_mcp'', ''web'']"

definition LIVE_TEST_SAFETIES :: "string list" where
  "LIVE_TEST_SAFETIES = [''mock_only'', ''live_read'', ''live_write_gated'', ''destructive_gated'']"

definition EXECUTE_APPROVED_PREVIEW_CAPABILITY :: string where
  "EXECUTE_APPROVED_PREVIEW_CAPABILITY = ''kanap.mutation_preview.execute_approved''"

definition TICKETING_INTERNAL_NOTE_ADD_APPROVED_CAPABILITY :: string where
  "TICKETING_INTERNAL_NOTE_ADD_APPROVED_CAPABILITY = ''ticketing.ticket.internal_note.add_approved''"

definition TICKETING_PUBLIC_REPLY_ADD_APPROVED_CAPABILITY :: string where
  "TICKETING_PUBLIC_REPLY_ADD_APPROVED_CAPABILITY = ''ticketing.ticket.public_reply.add_approved''"

definition TICKETING_CLASSIFICATION_UPDATE_APPROVED_CAPABILITY :: string where
  "TICKETING_CLASSIFICATION_UPDATE_APPROVED_CAPABILITY = ''ticketing.ticket.classification_update.approved''"

definition TICKETING_STATUS_UPDATE_APPROVED_CAPABILITY :: string where
  "TICKETING_STATUS_UPDATE_APPROVED_CAPABILITY = ''ticketing.ticket.status_update.approved''"

definition TICKETING_ASSIGNMENT_UPDATE_APPROVED_CAPABILITY :: string where
  "TICKETING_ASSIGNMENT_UPDATE_APPROVED_CAPABILITY = ''ticketing.ticket.assignment_update.approved''"

definition TICKETING_PARTICIPANT_UPDATE_APPROVED_CAPABILITY :: string where
  "TICKETING_PARTICIPANT_UPDATE_APPROVED_CAPABILITY = ''ticketing.ticket.participant_update.approved''"

datatype approval_strategy =
    NoStrategy
  | MutationPreviewStrategy string
  | ActionRequestStrategy string

record evidence_requirement =
  er_persist_input :: bool
  er_persist_output :: bool
  er_redact_fields :: "string list"
  er_retention :: string

record capability_contract =
  c_name :: string
  c_version :: string
  c_description :: string
  c_category :: string
  c_provider_kind :: string
  c_supported_surfaces :: "string list"
  c_input_schema :: jsval
  c_output_schema :: jsval
  c_effect :: string
  c_risk_level :: string
  c_max_autonomy_level :: string
  c_default_approval :: string
  c_approval_strategy :: approval_strategy
  c_evidence :: evidence_requirement
  c_tenant_permissions :: "string list"
  c_business_resources :: "string list"
  c_timeout_seconds :: int
  c_automatic_retry :: bool
  c_max_attempts :: int
  c_execution_phase :: "int option"
  c_idempotency_mode :: string
  c_idempotency_key_fields :: "string list option"
  c_rollback_supported :: bool
  c_rollback_capability_name :: "string option"
  c_estimated_unit_cost :: "jsnum option"
  c_metered :: bool
  c_redaction_fields :: "string list"
  c_mcp_enabled :: bool
  c_mcp_read_only :: bool
  c_live_test_safety :: string
  c_ai_tool_name :: "string option"

text \<open>The messages \<open>superRefine\<close> adds, in order.\<close>

definition MCP_ISSUE :: string where
  "MCP_ISSUE = ''MCP exposure is only allowed for read-only capabilities in Phase 1.''"
definition APPROVAL_ISSUE :: string where
  "APPROVAL_ISSUE = ''Non-read capabilities must either require approval or be capped at A2 proposal-only autonomy.''"
definition IDEMPOTENCY_ISSUE :: string where
  "IDEMPOTENCY_ISSUE = ''Idempotent capabilities must declare key fields.''"

definition refine_issues :: "capability_contract \<Rightarrow> string list" where
  "refine_issues c =
     (if c_mcp_enabled c \<and> (c_effect c \<noteq> ''read'' \<or> \<not> c_mcp_read_only c) then [MCP_ISSUE] else [])
   @ (if c_effect c \<noteq> ''read'' \<and> c_default_approval c = ''none'' \<and> c_max_autonomy_level c \<noteq> ''A2''
      then [APPROVAL_ISSUE] else [])
   @ (if c_idempotency_mode c = ''idempotent'' \<and> with_default [] (c_idempotency_key_fields c) = []
      then [IDEMPOTENCY_ISSUE] else [])"

definition trimmed_text :: "string \<Rightarrow> bool" where
  "trimmed_text s \<longleftrightarrow> s \<noteq> [] \<and> js_trim s = s"

fun strategy_valid :: "approval_strategy \<Rightarrow> bool" where
  "strategy_valid NoStrategy = True"
| "strategy_valid (MutationPreviewStrategy f) = trimmed_text f"
| "strategy_valid (ActionRequestStrategy f) = trimmed_text f"

text \<open>A contract as \<open>CapabilityContractSchema.parse\<close> returns one: texts are trimmed, defaults filled in.\<close>

definition contract_valid :: "capability_contract \<Rightarrow> bool" where
  "contract_valid c \<longleftrightarrow>
     list_all trimmed_text [c_name c, c_version c, c_description c, c_category c]
   \<and> c_provider_kind c \<in> set CAPABILITY_PROVIDER_KINDS
   \<and> c_supported_surfaces c \<noteq> [] \<and> list_all (\<lambda>x. x \<in> set CAPABILITY_SURFACES) (c_supported_surfaces c)
   \<and> isRecord (c_input_schema c) \<and> isRecord (c_output_schema c)
   \<and> c_effect c \<in> set CAPABILITY_EFFECTS
   \<and> c_risk_level c \<in> set CAPABILITY_RISK_LEVELS
   \<and> c_max_autonomy_level c \<in> set CAPABILITY_AUTONOMY_LEVELS
   \<and> c_default_approval c \<in> set CAPABILITY_APPROVALS
   \<and> strategy_valid (c_approval_strategy c)
   \<and> list_all trimmed_text (er_redact_fields (c_evidence c))
   \<and> er_retention (c_evidence c) \<in> {''short'', ''standard'', ''audit''}
   \<and> list_all trimmed_text (c_tenant_permissions c) \<and> list_all trimmed_text (c_business_resources c)
   \<and> 1 \<le> c_timeout_seconds c \<and> c_timeout_seconds c \<le> 1800
   \<and> 1 \<le> c_max_attempts c \<and> c_max_attempts c \<le> 10
   \<and> c_idempotency_mode c \<in> {''idempotent'', ''non_idempotent''}
   \<and> list_all trimmed_text (with_default [] (c_idempotency_key_fields c))
   \<and> pred_option trimmed_text (c_rollback_capability_name c)
   \<and> pred_option (\<lambda>n. num_finite n \<and> \<not> num_less n (int_num 0)) (c_estimated_unit_cost c)
   \<and> list_all trimmed_text (c_redaction_fields c)
   \<and> c_live_test_safety c \<in> set LIVE_TEST_SAFETIES
   \<and> pred_option trimmed_text (c_ai_tool_name c)
   \<and> refine_issues c = []"

lemma contract_valid_refined: "contract_valid c \<Longrightarrow> refine_issues c = []"
  by (simp add: contract_valid_def)

lemma contract_valid_effect: "contract_valid c \<Longrightarrow> c_effect c \<in> set CAPABILITY_EFFECTS"
  by (simp add: contract_valid_def)

lemma contract_valid_mcp: "contract_valid c \<Longrightarrow> c_mcp_enabled c \<Longrightarrow> c_effect c = ''read'' \<and> c_mcp_read_only c"
  using contract_valid_refined [of c] by (auto simp: refine_issues_def split: if_splits)

text \<open>The execution context of one call; \<open>ex_metadata\<close> is undefined, null or an object.\<close>

record execution =
  ex_runId :: "string option"
  ex_toolExecutionId :: "string option"
  ex_stepIndex :: "int option"
  ex_surface :: "string option"
  ex_trigger_kind :: "string option"
  ex_idempotency_key :: "string option"
  ex_metadata :: jsval

definition no_execution :: execution where
  "no_execution = \<lparr> ex_runId = None, ex_toolExecutionId = None, ex_stepIndex = None, ex_surface = None,
     ex_trigger_kind = None, ex_idempotency_key = None, ex_metadata = JUndef \<rparr>"

definition sample_contract :: capability_contract where
  "sample_contract = \<lparr> c_name = ''ticketing.ticket.internal_note.add_approved'', c_version = ''1.0.0'',
     c_description = ''Add a note'', c_category = ''ticketing'', c_provider_kind = ''ticketing'',
     c_supported_surfaces = [''chat'', ''internal''], c_input_schema = JObj [], c_output_schema = JObj [],
     c_effect = ''write'', c_risk_level = ''low'', c_max_autonomy_level = ''A4'', c_default_approval = ''policy'',
     c_approval_strategy = ActionRequestStrategy ''action_request_id'',
     c_evidence = \<lparr> er_persist_input = True, er_persist_output = True, er_redact_fields = [], er_retention = ''standard'' \<rparr>,
     c_tenant_permissions = [], c_business_resources = [], c_timeout_seconds = 30, c_automatic_retry = False,
     c_max_attempts = 1, c_execution_phase = None, c_idempotency_mode = ''idempotent'',
     c_idempotency_key_fields = Some [''action_request_id''], c_rollback_supported = False,
     c_rollback_capability_name = None, c_estimated_unit_cost = None, c_metered = False, c_redaction_fields = [],
     c_mcp_enabled = False, c_mcp_read_only = False, c_live_test_safety = ''live_write_gated'', c_ai_tool_name = None \<rparr>"

lemma sample_contract_valid: "contract_valid sample_contract"
  by (simp add: contract_valid_def sample_contract_def refine_issues_def trimmed_text_def js_trim_def js_space_def
    CAPABILITY_PROVIDER_KINDS_def CAPABILITY_SURFACES_def isRecord_def CAPABILITY_EFFECTS_def
    CAPABILITY_RISK_LEVELS_def CAPABILITY_AUTONOMY_LEVELS_def CAPABILITY_APPROVALS_def LIVE_TEST_SAFETIES_def with_default_def)

end
