(* ===== verification/Autonomy.thy ===== *)
theory Autonomy
  imports Contracts
begin

section \<open>Autonomy levels, ceilings, demotion and routines (policy/, agent/ai-agent-autonomy.ts)\<close>

text \<open>
  The ordered levels A0 to A6, the ceiling that caps what a policy may approve, the recent
  history that demotes a policy, the risk tiers of agent autonomy and the triggered routines.
\<close>

subsection \<open>Levels (autonomy-levels.ts)\<close>

definition AUTONOMY_ORDER :: "string list" where
  "AUTONOMY_ORDER = [''A0'', ''A1'', ''A2'', ''A3'', ''A4'', ''A5'', ''A6'']"

text \<open>\<open>xs.indexOf(x)\<close>, with \<open>None\<close> for -1.\<close>

fun index_of :: "'a list \<Rightarrow> 'a \<Rightarrow> nat option" where
  "index_of [] x = None"
| "index_of (y # ys) x = (if y = x then Some 0 else map_option Suc (index_of ys x))"

definition autonomyRank :: "string option \<Rightarrow> nat option" where
  "autonomyRank level = (if \<not> truthy level then None else index_of AUTONOMY_ORDER (the level))"

definition isAutonomyLevel :: "string option \<Rightarrow> bool" where
  "isAutonomyLevel v \<longleftrightarrow> autonomyRank v \<noteq> None"

fun min_level_loop :: "nat option \<Rightarrow> string list \<Rightarrow> string option" where
  "min_level_loop minRank [] = (case minRank of None \<Rightarrow> None | Some r \<Rightarrow> Some (AUTONOMY_ORDER ! r))"
| "min_level_loop minRank (level # levels) =
     (case autonomyRank (Some level) of
        None \<Rightarrow> None
      | Some rank \<Rightarrow> min_level_loop (Some (case minRank of None \<Rightarrow> rank | Some m \<Rightarrow> min m rank)) levels)"

definition minAutonomyLevel :: "string list \<Rightarrow> string option" where
  "minAutonomyLevel levels = min_level_loop None levels"

definition autonomyAtLeast :: "string option \<Rightarrow> string option \<Rightarrow> bool" where
  "autonomyAtLeast actual required =
     (case (autonomyRank actual, autonomyRank required) of
        (Some a, Some r) \<Rightarrow> r \<le> a
      | _ \<Rightarrow> False)"

definition requiredAutonomyForEffect :: "string \<Rightarrow> string" where
  "requiredAutonomyForEffect effect =
     (if effect = ''read'' then ''A1''
      else if effect = ''propose'' \<or> effect = ''notify'' then ''A2''
      else ''A3'')"

subsection \<open>Agent autonomy (ai-agent-autonomy.ts)\<close>

definition AGENT_AUTONOMY_POLICY_SOURCE :: string where
  "AGENT_AUTONOMY_POLICY_SOURCE = ''agent_autonomy_grant''"

datatype risk_tier = LowTier | HighTier

definition AUTONOMY_RISK_TIER_BY_ACTION_CLASS :: "(string \<times> risk_tier) list" where
  "AUTONOMY_RISK_TIER_BY_ACTION_CLASS =
     [(''internal_note'', LowTier), (''classification'', LowTier), (''status'', LowTier),
      (''public_reply'', HighTier), (''assignment'', HighTier), (''participant'', HighTier)]"

definition APPROVED_CAPABILITY_BY_ACTION_CLASS :: "(string \<times> string) list" where
  "APPROVED_CAPABILITY_BY_ACTION_CLASS =
     [(''internal_note'', TICKETING_INTERNAL_NOTE_ADD_APPROVED_CAPABILITY),
      (''classification'', TICKETING_CLASSIFICATION_UPDATE_APPROVED_CAPABILITY),
      (''status'', TICKETING_STATUS_UPDATE_APPROVED_CAPABILITY),
      (''public_reply'', TICKETING_PUBLIC_REPLY_ADD_APPROVED_CAPABILITY),
      (''assignment'', TICKETING_ASSIGNMENT_UPDATE_APPROVED_CAPABILITY),
      (''participant'', TICKETING_PARTICIPANT_UPDATE_APPROVED_CAPABILITY)]"

definition actionClassForCapabilityName :: "string \<Rightarrow> string" where
  "actionClassForCapabilityName capabilityName =
     (if js_includes capabilityName ''internal_note'' then ''internal_note''
      else if js_includes capabilityName ''public_reply'' then ''public_reply''
      else if js_includes capabilityName ''classification_update'' then ''classification''
      else if js_includes capabilityName ''status_update'' then ''status''
      else if js_includes capabilityName ''assignment_update'' then ''assignment''
      else if js_includes capabilityName ''participant_update'' then ''participant''
      else capabilityName)"

definition approvedCapabilityForAutonomyActionClass :: "string \<Rightarrow> string option" where
  "approvedCapabilityForAutonomyActionClass actionClass = map_of APPROVED_CAPABILITY_BY_ACTION_CLASS actionClass"

definition autonomyRiskTier :: "string option \<Rightarrow> risk_tier option" where
  "autonomyRiskTier v = (case v of None \<Rightarrow> None | Some c \<Rightarrow> map_of AUTONOMY_RISK_TIER_BY_ACTION_CLASS c)"

definition isAutomatableAutonomyActionClass :: "string option \<Rightarrow> bool" where
  "isAutomatableAutonomyActionClass v \<longleftrightarrow> autonomyRiskTier v \<noteq> None"

definition autonomyGrantRequiresAcknowledgement :: "string option \<Rightarrow> bool" where
  "autonomyGrantRequiresAcknowledgement v \<longleftrightarrow> autonomyRiskTier v = Some HighTier"

text \<open>\<open>isAgentAutonomyPolicyMetadata\<close> narrows the metadata to the agent and the class it names.\<close>

definition agentAutonomyMetadata :: "jsval \<Rightarrow> (string \<times> string) option" where
  "agentAutonomyMetadata metadata =
     (if isRecord metadata \<and> js_get metadata ''created_by'' = JStr AGENT_AUTONOMY_POLICY_SOURCE
      then (case (js_get metadata ''agent_definition_id'', js_get metadata ''action_class'') of
              (JStr agent, JStr cls) \<Rightarrow> Some (agent, cls)
            | _ \<Rightarrow> None)
      else None)"

definition agentAutonomyPolicyKey :: "string \<Rightarrow> string \<Rightarrow> string" where
  "agentAutonomyPolicyKey agentDefinitionId actionClass = ''agent-autonomy:'' @ agentDefinitionId @ '':'' @ actionClass"

subsection \<open>Decisions (policy-decision.types.ts)\<close>

record reason =
  r_code :: string
  r_detail :: string
  r_severity :: "string option"

definition because :: "string \<Rightarrow> string \<Rightarrow> reason" where
  "because code detail = \<lparr> r_code = code, r_detail = detail, r_severity = None \<rparr>"

datatype policy_outcome = HumanRequired | PolicyApproved | SystemRejected

record policy_decision =
  pd_outcome :: policy_outcome
  pd_approved :: bool
  pd_reasons :: "reason list"
  pd_matched_policy_id :: "string option"
  pd_matched_policy_key :: "string option"
  pd_matched_policy_version :: "int option"
  pd_effective_autonomy_level :: "string option"
  pd_required_autonomy_level :: "string option"
  pd_autonomy_components :: "(string \<times> string option) list"
  pd_evidence_ids :: "string list"
  pd_surface :: "string option"
  pd_trigger_kind :: "string option"

subsection \<open>The effective ceiling (ai-autonomy-ceiling.service.ts)\<close>

record ceiling_decision =
  cd_allowed :: bool
  cd_effectiveLevel :: "string option"
  cd_requiredLevel :: string
  cd_components :: "(string \<times> string option) list"
  cd_reasons :: "reason list"

definition strictestLevel :: "ai_autonomy_ceiling list \<Rightarrow> string option" where
  "strictestLevel rows = minAutonomyLevel (map ceil_max_autonomy_level rows)"

definition enabled_ceilings :: "exec_context \<Rightarrow> db \<Rightarrow> ai_autonomy_ceiling list" where
  "enabled_ceilings ctx s = filter (\<lambda>row. ceil_tenant_id row = ctx_tenantId ctx \<and> ceil_enabled row) (db_ceilings s)"

text \<open>\<open>!row.x || row.x === x\<close>.\<close>

definition unset_or_is :: "string option \<Rightarrow> string option \<Rightarrow> bool" where
  "unset_or_is col v \<longleftrightarrow> \<not> truthy col \<or> col = v"

definition tenant_ceiling :: "ai_autonomy_ceiling \<Rightarrow> bool" where
  "tenant_ceiling row \<longleftrightarrow> ceil_scope row = ''tenant''"

definition environment_ceiling :: "string option \<Rightarrow> string option \<Rightarrow> string option \<Rightarrow> ai_autonomy_ceiling \<Rightarrow> bool" where
  "environment_ceiling environment providerKind providerKey row \<longleftrightarrow>
     ceil_scope row = ''environment'' \<and> ceil_environment row = environment
     \<and> unset_or_is (ceil_provider_kind row) providerKind \<and> unset_or_is (ceil_provider_key row) providerKey"

definition capability_ceiling :: "capability_contract \<Rightarrow> string option \<Rightarrow> string option \<Rightarrow> ai_autonomy_ceiling \<Rightarrow> bool" where
  "capability_ceiling contract providerKind providerKey row \<longleftrightarrow>
     ceil_scope row = ''capability'' \<and> ceil_capability_name row = Some (c_name contract)
     \<and> unset_or_is (ceil_capability_version row) (Some (c_version contract))
     \<and> unset_or_is (ceil_provider_kind row) providerKind \<and> unset_or_is (ceil_provider_key row) providerKey"

definition ceiling_reasons ::
  "ai_autonomy_ceiling list \<Rightarrow> ai_autonomy_ceiling list \<Rightarrow> ai_autonomy_ceiling list \<Rightarrow> string option \<Rightarrow> string list
     \<Rightarrow> string option \<Rightarrow> string \<Rightarrow> reason list" where
  "ceiling_reasons tenantRows environmentRows capabilityRows environment levels effectiveLevel requiredLevel =
     (if tenantRows = [] then [because ''MISSING_TENANT_AUTONOMY_CEILING'' ''Tenant autonomy ceiling is not configured.''] else [])
   @ (if \<not> truthy environment \<or> environmentRows = []
      then [because ''MISSING_ENVIRONMENT_AUTONOMY_CEILING'' ''Environment autonomy ceiling is not configured.''] else [])
   @ (if capabilityRows = []
      then [because ''MISSING_CAPABILITY_AUTONOMY_CEILING'' ''Capability autonomy ceiling is not configured.''] else [])
   @ (if list_ex (\<lambda>level. autonomyRank (Some level) = None) levels
      then [because ''MALFORMED_AUTONOMY_LEVEL'' ''At least one autonomy ceiling level is malformed.''] else [])
   @ (if truthy effectiveLevel \<and> \<not> autonomyAtLeast effectiveLevel (Some requiredLevel)
      then [because ''AUTONOMY_CEILING_TOO_LOW''
              (''Effective autonomy '' @ the effectiveLevel @ '' is below required '' @ requiredLevel @ ''.'')] else [])"

definition resolveEffectiveCeiling ::
  "exec_context \<Rightarrow> capability_contract \<Rightarrow> ai_approval_policy \<Rightarrow> string option \<Rightarrow> string option \<Rightarrow> string option \<Rightarrow> db
     \<Rightarrow> ceiling_decision" where
  "resolveEffectiveCeiling ctx contract policy environment providerKind providerKey s =
     (let rows = enabled_ceilings ctx s;
          tenantRows = filter tenant_ceiling rows;
          environmentRows = filter (environment_ceiling environment providerKind providerKey) rows;
          capabilityRows = filter (capability_ceiling contract providerKind providerKey) rows;
          levels = map ceil_max_autonomy_level tenantRows @ map ceil_max_autonomy_level environmentRows
                 @ map ceil_max_autonomy_level capabilityRows
                 @ [c_max_autonomy_level contract, pol_max_autonomy_level policy];
          hasRequiredScopes = (tenantRows \<noteq> [] \<and> truthy environment \<and> environmentRows \<noteq> [] \<and> capabilityRows \<noteq> []);
          effectiveLevel = (if hasRequiredScopes then minAutonomyLevel levels else None);
          requiredLevel = requiredAutonomyForEffect (c_effect contract);
          reasons = ceiling_reasons tenantRows environmentRows capabilityRows environment levels effectiveLevel requiredLevel
      in \<lparr> cd_allowed = (reasons = []),
           cd_effectiveLevel = effectiveLevel,
           cd_requiredLevel = requiredLevel,
           cd_components = [(''tenant'', strictestLevel tenantRows), (''environment'', strictestLevel environmentRows),
              (''capability'', strictestLevel capabilityRows), (''contract'', Some (c_max_autonomy_level contract)),
              (''policy'', Some (pol_max_autonomy_level policy))],
           cd_reasons = reasons \<rparr>)"

subsection \<open>Lemmas on levels and ceilings\<close>

definition rank_of :: "string \<Rightarrow> nat option" where
  "rank_of level = autonomyRank (Some level)"

lemma index_of_Some: "index_of xs x = Some i \<Longrightarrow> i < length xs \<and> xs ! i = x"
  by (induction xs arbitrary: i) (auto split: if_splits)

lemma index_of_nth: "distinct xs \<Longrightarrow> i < length xs \<Longrightarrow> index_of xs (xs ! i) = Some i"
  by (induction xs arbitrary: i) (auto simp: nth_Cons split: nat.split)

lemma AUTONOMY_ORDER_props: "distinct AUTONOMY_ORDER" "length AUTONOMY_ORDER = 7" "\<forall>l\<in>set AUTONOMY_ORDER. l \<noteq> []"
  by (simp_all add: AUTONOMY_ORDER_def)

lemma rank_of_Some: "rank_of l = Some i \<Longrightarrow> i < 7 \<and> AUTONOMY_ORDER ! i = l"
  using index_of_Some [of AUTONOMY_ORDER l i] AUTONOMY_ORDER_props
  by (auto simp: rank_of_def autonomyRank_def split: if_splits)

lemma rank_of_nth: "i < 7 \<Longrightarrow> rank_of (AUTONOMY_ORDER ! i) = Some i"
  using index_of_nth [of AUTONOMY_ORDER i] AUTONOMY_ORDER_props
  by (auto simp: rank_of_def autonomyRank_def truthy_def)

lemma atLeast_ranks: "autonomyAtLeast (Some l) (Some r) \<longleftrightarrow> (\<exists>i j. rank_of l = Some i \<and> rank_of r = Some j \<and> j \<le> i)"
  by (auto simp: autonomyAtLeast_def rank_of_def split: option.splits)

lemma min_level_loop_Some:
  assumes "i < 7"
  shows "min_level_loop (Some i) ls = Some l \<longleftrightarrow>
     (\<forall>x\<in>set ls. rank_of x \<noteq> None) \<and> rank_of l = Some (foldl min i (map (the \<circ> rank_of) ls))"
  using assms
proof (induction ls arbitrary: i)
  case Nil
  then show ?case using rank_of_nth rank_of_Some by fastforce
next
  case (Cons x ls)
  show ?case
  proof (cases "rank_of x")
    case (Some j)
    then show ?thesis using Cons.IH [of "min j i"] Cons.prems by (auto simp: rank_of_def min.commute)
  qed (simp add: rank_of_def)
qed

lemma minAutonomyLevel_Some:
  "minAutonomyLevel (x # ls) = Some l \<longleftrightarrow>
     (\<forall>y\<in>set (x # ls). rank_of y \<noteq> None) \<and> rank_of l = Some (foldl min (the (rank_of x)) (map (the \<circ> rank_of) ls))"
proof (cases "rank_of x")
  case (Some i)
  then show ?thesis using min_level_loop_Some [of i ls l] rank_of_Some [of x i]
    by (simp add: minAutonomyLevel_def rank_of_def)
qed (simp add: minAutonomyLevel_def rank_of_def)

lemma minAutonomyLevel_defined: "(\<forall>y\<in>set (x # ls). rank_of y \<noteq> None) \<Longrightarrow> \<exists>l. minAutonomyLevel (x # ls) = Some l"
proof -
  assume d: "\<forall>y\<in>set (x # ls). rank_of y \<noteq> None"
  have "foldl min i (map (the \<circ> rank_of) ls) < 7" if "i < 7" for i
    using that d by (induction ls arbitrary: i) auto
  moreover from d have "the (rank_of x) < 7" using rank_of_Some by fastforce
  ultimately have "rank_of (AUTONOMY_ORDER ! foldl min (the (rank_of x)) (map (the \<circ> rank_of) ls))
      = Some (foldl min (the (rank_of x)) (map (the \<circ> rank_of) ls))"
    by (intro rank_of_nth) blast
  with d show ?thesis using minAutonomyLevel_Some by blast
qed

lemma le_foldl_min: "(r::nat) \<le> foldl min i ks \<longleftrightarrow> r \<le> i \<and> (\<forall>k\<in>set ks. r \<le> k)"
  by (induction ks arbitrary: i) auto

lemma minAutonomyLevel_atLeast:
  assumes "levels \<noteq> []" "rank_of r \<noteq> None"
  shows "(\<forall>l\<in>set levels. autonomyAtLeast (Some l) (Some r)) \<longleftrightarrow>
    (\<forall>l\<in>set levels. rank_of l \<noteq> None) \<and> (\<exists>m. minAutonomyLevel levels = Some m \<and> autonomyAtLeast (Some m) (Some r))"
    (is "?all \<longleftrightarrow> ?min")
proof -
  from assms obtain x ls j where l: "levels = x # ls" and j: "rank_of r = Some j" by (cases levels) auto
  show ?thesis
  proof
    assume a: ?all
    then have d: "\<forall>y\<in>set (x # ls). rank_of y \<noteq> None" by (auto simp: l atLeast_ranks)
    then obtain m where m: "minAutonomyLevel (x # ls) = Some m" using minAutonomyLevel_defined by blast
    have "\<forall>y\<in>set (x # ls). j \<le> the (rank_of y)" using a j by (fastforce simp: l atLeast_ranks)
    then have "j \<le> foldl min (the (rank_of x)) (map (the \<circ> rank_of) ls)" by (simp add: le_foldl_min)
    with m d j show ?min by (auto simp: l atLeast_ranks minAutonomyLevel_Some)
  next
    assume ?min
    then obtain m where d: "\<forall>y\<in>set (x # ls). rank_of y \<noteq> None" and m: "minAutonomyLevel (x # ls) = Some m"
      and "autonomyAtLeast (Some m) (Some r)" by (auto simp: l)
    then have "j \<le> foldl min (the (rank_of x)) (map (the \<circ> rank_of) ls)"
      using j by (auto simp: atLeast_ranks minAutonomyLevel_Some)
    with d j show ?all by (fastforce simp: l atLeast_ranks le_foldl_min)
  qed
qed

lemma truthy_level: "minAutonomyLevel levels = Some m \<Longrightarrow> levels \<noteq> [] \<Longrightarrow> truthy (Some m)"
proof -
  assume "minAutonomyLevel levels = Some m" "levels \<noteq> []"
  then have "\<exists>i. rank_of m = Some i" by (cases levels) (auto simp: minAutonomyLevel_Some)
  then show "truthy (Some m)" by (auto simp: rank_of_def autonomyRank_def split: if_splits)
qed

lemma requiredAutonomy_rank: "rank_of (requiredAutonomyForEffect e) \<noteq> None"
  by (simp add: requiredAutonomyForEffect_def rank_of_def autonomyRank_def AUTONOMY_ORDER_def truthy_def)

text \<open>The levels a decision looks at.\<close>

definition applicable :: "capability_contract \<Rightarrow> string option \<Rightarrow> string option \<Rightarrow> string option \<Rightarrow> ai_autonomy_ceiling \<Rightarrow> bool" where
  "applicable contract environment providerKind providerKey row \<longleftrightarrow>
     tenant_ceiling row \<or> environment_ceiling environment providerKind providerKey row
     \<or> capability_ceiling contract providerKind providerKey row"

definition decision_levels ::
  "exec_context \<Rightarrow> capability_contract \<Rightarrow> ai_approval_policy \<Rightarrow> string option \<Rightarrow> string option \<Rightarrow> string option \<Rightarrow> db \<Rightarrow> string list" where
  "decision_levels ctx contract policy environment pk pkey s =
     map ceil_max_autonomy_level (filter tenant_ceiling (enabled_ceilings ctx s))
   @ map ceil_max_autonomy_level (filter (environment_ceiling environment pk pkey) (enabled_ceilings ctx s))
   @ map ceil_max_autonomy_level (filter (capability_ceiling contract pk pkey) (enabled_ceilings ctx s))
   @ [c_max_autonomy_level contract, pol_max_autonomy_level policy]"

definition scopes_present ::
  "exec_context \<Rightarrow> capability_contract \<Rightarrow> string option \<Rightarrow> string option \<Rightarrow> string option \<Rightarrow> db \<Rightarrow> bool" where
  "scopes_present ctx contract environment pk pkey s \<longleftrightarrow>
     (\<exists>row\<in>set (enabled_ceilings ctx s). tenant_ceiling row) \<and> truthy environment
     \<and> (\<exists>row\<in>set (enabled_ceilings ctx s). environment_ceiling environment pk pkey row)
     \<and> (\<exists>row\<in>set (enabled_ceilings ctx s). capability_ceiling contract pk pkey row)"

lemma ceiling_effective:
  "cd_effectiveLevel (resolveEffectiveCeiling ctx contract policy environment pk pkey s) =
     (if scopes_present ctx contract environment pk pkey s
      then minAutonomyLevel (decision_levels ctx contract policy environment pk pkey s) else None)"
  by (auto simp: resolveEffectiveCeiling_def scopes_present_def decision_levels_def Let_def filter_empty_conv)

lemma ceiling_required:
  "cd_requiredLevel (resolveEffectiveCeiling ctx contract policy environment pk pkey s) = requiredAutonomyForEffect (c_effect contract)"
  by (simp add: resolveEffectiveCeiling_def Let_def)

lemma ceiling_allowed_reasons:
  "cd_allowed (resolveEffectiveCeiling ctx contract policy environment pk pkey s) \<longleftrightarrow>
   cd_reasons (resolveEffectiveCeiling ctx contract policy environment pk pkey s) = []"
  by (simp add: resolveEffectiveCeiling_def Let_def)

lemma ceiling_reasons_Nil:
  "cd_reasons (resolveEffectiveCeiling ctx contract policy environment pk pkey s) = [] \<longleftrightarrow>
     scopes_present ctx contract environment pk pkey s
     \<and> (\<forall>l\<in>set (decision_levels ctx contract policy environment pk pkey s). rank_of l \<noteq> None)
     \<and> (\<forall>m. minAutonomyLevel (decision_levels ctx contract policy environment pk pkey s) = Some m \<longrightarrow>
          autonomyAtLeast (Some m) (Some (requiredAutonomyForEffect (c_effect contract))))"
  (is "_ \<longleftrightarrow> ?scopes \<and> ?wf \<and> ?enough")
proof -
  let ?levels = "decision_levels ctx contract policy environment pk pkey s"
  have ne: "?levels \<noteq> []" by (simp add: decision_levels_def)
  have "cd_reasons (resolveEffectiveCeiling ctx contract policy environment pk pkey s) = [] \<longleftrightarrow>
     ?scopes \<and> ?wf \<and> \<not> (truthy (minAutonomyLevel ?levels)
        \<and> \<not> autonomyAtLeast (minAutonomyLevel ?levels) (Some (requiredAutonomyForEffect (c_effect contract))))"
    by (auto simp: resolveEffectiveCeiling_def ceiling_reasons_def scopes_present_def decision_levels_def
      Let_def filter_empty_conv list_ex_iff rank_of_def split: if_splits)
  also have "\<dots> \<longleftrightarrow> ?scopes \<and> ?wf \<and> ?enough"
    using truthy_level [OF _ ne] by (cases "minAutonomyLevel ?levels") (auto simp: truthy_def)
  finally show ?thesis .
qed

lemma ceiling_allowed_iff:
  "cd_allowed (resolveEffectiveCeiling ctx contract policy environment pk pkey s) \<longleftrightarrow>
     scopes_present ctx contract environment pk pkey s
     \<and> (\<forall>l\<in>set (decision_levels ctx contract policy environment pk pkey s).
          autonomyAtLeast (Some l) (Some (requiredAutonomyForEffect (c_effect contract))))"
proof -
  let ?levels = "decision_levels ctx contract policy environment pk pkey s"
  have ne: "?levels \<noteq> []" by (simp add: decision_levels_def)
  then obtain x ls where "?levels = x # ls" by (cases ?levels) auto
  then show ?thesis
    unfolding ceiling_allowed_reasons ceiling_reasons_Nil minAutonomyLevel_atLeast [OF ne requiredAutonomy_rank]
    using minAutonomyLevel_defined [of x ls] by auto
qed

lemma decision_levels_set:
  "set (decision_levels ctx contract policy environment pk pkey s) =
     insert (c_max_autonomy_level contract) (insert (pol_max_autonomy_level policy)
       (ceil_max_autonomy_level ` {row \<in> set (enabled_ceilings ctx s). applicable contract environment pk pkey row}))"
  by (auto simp: decision_levels_def applicable_def)

text \<open>C11: A policy may act under its ceilings exactly when a tenant, an environment and a capability
  ceiling apply and every applicable ceiling, the contract and the policy itself grant at least the
  level the effect requires; the effective level is then the lowest of them.\<close>

theorem resolveEffectiveCeiling_allowed:
  "cd_allowed (resolveEffectiveCeiling ctx contract policy environment pk pkey s) \<longleftrightarrow>
     (\<exists>row\<in>set (enabled_ceilings ctx s). tenant_ceiling row) \<and> truthy environment
     \<and> (\<exists>row\<in>set (enabled_ceilings ctx s). environment_ceiling environment pk pkey row)
     \<and> (\<exists>row\<in>set (enabled_ceilings ctx s). capability_ceiling contract pk pkey row)
     \<and> (\<forall>row\<in>set (enabled_ceilings ctx s). applicable contract environment pk pkey row \<longrightarrow>
          autonomyAtLeast (Some (ceil_max_autonomy_level row)) (Some (requiredAutonomyForEffect (c_effect contract))))
     \<and> autonomyAtLeast (Some (c_max_autonomy_level contract)) (Some (requiredAutonomyForEffect (c_effect contract)))
     \<and> autonomyAtLeast (Some (pol_max_autonomy_level policy)) (Some (requiredAutonomyForEffect (c_effect contract)))"
  unfolding ceiling_allowed_iff decision_levels_set scopes_present_def by blast

definition sample_policy :: ai_approval_policy where
  "sample_policy = \<lparr> pol_id = ''p1'', pol_tenant_id = ''t1'', pol_policy_key = ''agent-autonomy:a1:internal_note'',
     pol_policy_version = 1, pol_name = ''Notes'', pol_description = None, pol_status = ''enabled'', pol_enabled = True,
     pol_capability_name = c_name sample_contract, pol_capability_version = c_version sample_contract,
     pol_effect = ''write'', pol_provider_kind = None, pol_provider_key = None, pol_environment = Some ''production'',
     pol_trigger_surface = None, pol_trigger_kind = None, pol_max_autonomy_level = ''A4'', pol_target_type = Some ''ticket'',
     pol_target_constraints_json = JObj [(''allowed_refs'', JArr [JStr ''T-1''])],
     pol_evidence_requirements_json = JNull, pol_evaluation_requirements_json = JNull, pol_min_confidence = None,
     pol_cooldown_seconds = 0, pol_budget_constraints_json = JNull, pol_live_test_safety = ''live_write_gated'',
     pol_metadata_json = JObj [(''created_by'', JStr ''agent_autonomy_grant''), (''agent_definition_id'', JStr ''a1''),
        (''action_class'', JStr ''internal_note'')],
     pol_created_at = 0, pol_updated_at = 0 \<rparr>"

definition sample_ceiling :: "string \<Rightarrow> string \<Rightarrow> ai_autonomy_ceiling" where
  "sample_ceiling scope level = \<lparr> ceil_id = scope, ceil_tenant_id = ''t1'', ceil_scope = scope,
     ceil_environment = Some ''production'', ceil_capability_name = Some (c_name sample_contract),
     ceil_capability_version = None, ceil_provider_kind = None, ceil_provider_key = None,
     ceil_max_autonomy_level = level, ceil_enabled = True, ceil_reason = None, ceil_metadata_json = JNull,
     ceil_created_at = 0, ceil_updated_at = 0 \<rparr>"

definition ceiling_db :: "string \<Rightarrow> db" where
  "ceiling_db level = empty_db\<lparr>db_ceilings := [sample_ceiling ''tenant'' ''A5'', sample_ceiling ''environment'' level,
     sample_ceiling ''capability'' ''A4'']\<rparr>"

theorem resolveEffectiveCeiling_allowed_witness:
  "cd_allowed (resolveEffectiveCeiling sample_ctx sample_contract sample_policy (Some ''production'') None None (ceiling_db ''A3''))
   \<and> \<not> cd_allowed (resolveEffectiveCeiling sample_ctx sample_contract sample_policy (Some ''production'') None None (ceiling_db ''A2''))"
  unfolding resolveEffectiveCeiling_allowed
  by (simp add: enabled_ceilings_def ceiling_db_def sample_ceiling_def sample_ctx_def tenant_ceiling_def environment_ceiling_def
    capability_ceiling_def applicable_def unset_or_is_def truthy_def requiredAutonomyForEffect_def sample_contract_def
    sample_policy_def autonomyAtLeast_def autonomyRank_def AUTONOMY_ORDER_def empty_db_def)

section \<open>Demotion (ai-autonomy-demotion.service.ts)\<close>

text \<open>
  A policy that would approve is demoted by the recent history of its capability.  A window of
  \<open>w\<close> minutes reaches back \<open>max(w, 1) * 60000\<close> milliseconds, computed exactly.
\<close>

definition budgetConstraints :: "ai_approval_policy \<Rightarrow> jsval" where
  "budgetConstraints policy =
     (if isRecord (pol_budget_constraints_json policy) then pol_budget_constraints_json policy else JObj [])"

definition numberField :: "jsval \<Rightarrow> string \<Rightarrow> jsnum option" where
  "numberField v key = numberValue (js_get v key)"

definition number_or :: "jsval \<Rightarrow> string \<Rightarrow> int \<Rightarrow> jsnum" where
  "number_or v key d = with_default (int_num d) (numberField v key)"

definition since_cutoff :: "int \<Rightarrow> jsnum \<Rightarrow> int \<Rightarrow> bool" where
  "since_cutoff now windowMinutes t =
     (let w = (if num_less windowMinutes (int_num 1) then int_num 1 else windowMinutes) in
      case parseDecimalLiteral (NNum w) of
        Inr (m, sc) \<Rightarrow> \<not> scaled_less (m * 60000, sc) (now - t, 0)
      | Inl _ \<Rightarrow> False)"

definition action_time :: "ai_action_request \<Rightarrow> int" where
  "action_time a = with_default (act_created_at a) (act_executed_at a)"

definition sameActionScope :: "ai_action_request \<Rightarrow> ai_action_request \<Rightarrow> bool" where
  "sameActionScope candidate action \<longleftrightarrow>
     act_id candidate \<noteq> act_id action
     \<and> act_capability_name candidate = act_capability_name action
     \<and> act_capability_version candidate = act_capability_version action
     \<and> act_provider_kind candidate = act_provider_kind action
     \<and> act_provider_key candidate = act_provider_key action
     \<and> act_target_type candidate = act_target_type action
     \<and> act_target_ref candidate = act_target_ref action"

definition nullish :: "jsval \<Rightarrow> bool" where
  "nullish v \<longleftrightarrow> v = JUndef \<or> v = JNull"

definition costFromTool :: "ai_tool_execution \<Rightarrow> string \<Rightarrow> jsnum" where
  "costFromTool tool key =
     (let cost = tool_cost_json tool in
      if \<not> isRecord cost then int_num 0
      else let v = (if \<not> nullish (js_get cost key) then js_get cost key
                    else if \<not> nullish (js_get cost ''total_cost'') then js_get cost ''total_cost''
                    else js_get cost ''estimated_cost'')
           in with_default (int_num 0) (numberValue v))"

definition exceeds :: "nat \<Rightarrow> jsnum \<Rightarrow> bool" where
  "exceeds n limit = num_less limit (int_num (int n))"

definition exceeds_reason :: "string \<Rightarrow> string \<Rightarrow> nat \<Rightarrow> jsnum \<Rightarrow> reason list" where
  "exceeds_reason code what n limit =
     (if exceeds n limit
      then [because code (what @ '' '' @ show_nat n @ '' exceed allowed '' @ num_text limit @ ''.'')] else [])"

definition number_or_missing :: "jsnum option \<Rightarrow> string" where
  "number_or_missing n = (case n of None \<Rightarrow> ''missing'' | Some x \<Rightarrow> num_text x)"

definition low_confidence :: "string \<Rightarrow> ai_approval_policy \<Rightarrow> ai_recommendation option \<Rightarrow> reason list" where
  "low_confidence code policy recommendation =
     (case pol_min_confidence policy of
        None \<Rightarrow> []
      | Some required \<Rightarrow>
          let confidence = Option.bind recommendation rec_confidence in
          if confidence = None \<or> num_less (the confidence) required
          then [because code (''Recommendation confidence '' @ number_or_missing confidence
                  @ '' is below required '' @ num_text required @ ''.'')]
          else [])"

definition scoped_actions :: "int \<Rightarrow> exec_context \<Rightarrow> jsnum \<Rightarrow> ai_action_request \<Rightarrow> db \<Rightarrow> ai_action_request list" where
  "scoped_actions now ctx window action s =
     filter (\<lambda>a. act_tenant_id a = ctx_tenantId ctx \<and> sameActionScope a action
               \<and> since_cutoff now window (action_time a)) (db_actions s)"

definition rejected_approvals :: "int \<Rightarrow> exec_context \<Rightarrow> jsnum \<Rightarrow> ai_action_request \<Rightarrow> db \<Rightarrow> ai_approval list" where
  "rejected_approvals now ctx window action s =
     filter (\<lambda>a. apv_tenant_id a = ctx_tenantId ctx \<and> apv_status a = ''rejected''
               \<and> apv_capability_name a = act_capability_name action
               \<and> apv_capability_version a = act_capability_version action
               \<and> since_cutoff now window (apv_created_at a)) (db_approvals s)"

definition recent_tools :: "int \<Rightarrow> exec_context \<Rightarrow> jsnum \<Rightarrow> capability_contract \<Rightarrow> db \<Rightarrow> ai_tool_execution list" where
  "recent_tools now ctx window contract s =
     filter (\<lambda>t. tool_tenant_id t = ctx_tenantId ctx \<and> tool_capability_name t = c_name contract
               \<and> tool_capability_version t = c_version contract
               \<and> since_cutoff now window (tool_created_at t)) (db_tools s)"

definition cost_reasons :: "platform \<Rightarrow> jsval \<Rightarrow> ai_tool_execution list \<Rightarrow> reason list" where
  "cost_reasons pf constraints tools =
     (case numberField constraints ''max_recent_cost'' of
        None \<Rightarrow> []
      | Some limit \<Rightarrow>
          let costKey = (case js_get constraints ''cost_json_key'' of JStr k \<Rightarrow> k | _ \<Rightarrow> ''total_cost'');
              recentCost = foldl (\<lambda>sum tool. add_num pf sum (costFromTool tool costKey)) (int_num 0) tools
          in if num_less limit recentCost
             then [because ''RECENT_COST_ANOMALY''
                     (''Recent cost '' @ num_text recentCost @ '' exceeds allowed '' @ num_text limit @ ''.'')]
             else [])"

definition cooldown_reasons :: "int \<Rightarrow> ai_approval_policy \<Rightarrow> ai_action_request list \<Rightarrow> reason list" where
  "cooldown_reasons now policy actions =
     (if pol_cooldown_seconds policy > 0
         \<and> list_ex (\<lambda>a. act_status a = ''executed'' \<and> now - pol_cooldown_seconds policy * 1000 \<le> action_time a) actions
      then [because ''POLICY_COOLDOWN_ACTIVE'' ''Policy cooldown is active for this capability and target.'']
      else [])"

definition with_status :: "string \<Rightarrow> ai_action_request list \<Rightarrow> nat" where
  "with_status status actions = length (filter (\<lambda>a. act_status a = status) actions)"

definition evaluate_demotion ::
  "platform \<Rightarrow> int \<Rightarrow> exec_context \<Rightarrow> ai_action_request \<Rightarrow> ai_approval_policy \<Rightarrow> capability_contract \<Rightarrow>
     ai_evidence list \<Rightarrow> ai_recommendation option \<Rightarrow> db \<Rightarrow> reason list" where
  "evaluate_demotion pf now ctx action policy contract evidence recommendation s =
     (let constraints = budgetConstraints policy;
          windowMinutes = number_or constraints ''window_minutes'' 60;
          scoped = scoped_actions now ctx windowMinutes action s;
          rejections = with_status ''rejected'' scoped + length (rejected_approvals now ctx windowMinutes action s);
          tools = recent_tools now ctx windowMinutes contract s;
          errors = length (filter (\<lambda>t. tool_status t = ''failed'' \<or> tool_status t = ''provider_error'') tools)
      in exceeds_reason ''RECENT_FAILED_ACTIONS'' ''Recent failed actions''
           (with_status ''failed'' scoped) (number_or constraints ''max_failed_actions'' 0)
       @ exceeds_reason ''RECENT_OPERATOR_REJECTIONS'' ''Recent operator rejections''
           rejections (number_or constraints ''max_operator_rejections'' 0)
       @ low_confidence ''LOW_RECOMMENDATION_CONFIDENCE'' policy recommendation
       @ (if evidence = [] then [because ''MISSING_POLICY_EVIDENCE'' ''Policy approval requires evidence.''] else [])
       @ (if list_ex (\<lambda>e. evi_trust_level e = ''external'' \<or> evi_trust_level e = ''model_generated'') evidence
          then [because ''WEAK_EVIDENCE_TRUST''
                  ''External or model-generated evidence cannot be the sole basis for policy approval.''] else [])
       @ exceeds_reason ''RECENT_PROVIDER_ERRORS'' ''Recent provider errors''
           errors (number_or constraints ''max_provider_errors'' 0)
       @ cost_reasons pf constraints tools
       @ cooldown_reasons now policy scoped)"

section \<open>Routines (ai-autonomy-routine.service.ts)\<close>

text \<open>
  A scheduled or alert trigger loads its routine, checks it and reserves the trigger before the
  diagnostic workflow runs.  The workflow is code of another service: \<open>runMockDiagnostic\<close> is an
  argument.  \<open>EntityManager.query\<close> answers a top-level UPDATE with its rows and their count, an
  array of two elements, as scheduled-tasks.service.ts and cost-centers.service.ts of this
  repository note; \<open>reserveRoutineTrigger\<close> reads that array.
\<close>

datatype query_part = QRows "(int \<times> int) list" | QCount nat

definition routine_cooled :: "int \<Rightarrow> ai_autonomy_routine \<Rightarrow> bool" where
  "routine_cooled now r \<longleftrightarrow> rout_cooldown_seconds r \<le> 0
     \<or> (case rout_last_triggered_at r of None \<Rightarrow> True | Some t \<Rightarrow> t \<le> now - rout_cooldown_seconds r * 1000)"

definition update_routine_query :: "int \<Rightarrow> exec_context \<Rightarrow> string \<Rightarrow> query_part list op" where
  "update_routine_query now ctx routineId = (\<lambda>s.
     let hit = (\<lambda>r. rout_tenant_id r = ctx_tenantId ctx \<and> rout_id r = routineId \<and> routine_cooled now r);
         n = length (filter hit (db_routines s))
     in (s\<lparr>db_routines := map (\<lambda>r. if hit r then r\<lparr>rout_last_triggered_at := Some now, rout_updated_at := now\<rparr> else r)
             (db_routines s)\<rparr>,
         Inr [QRows (replicate n (now, now)), QCount n]))"

definition stringField :: "jsval \<Rightarrow> string \<Rightarrow> string option" where
  "stringField v key = nonblank_text (js_get v key)"

definition getEnabledRoutine :: "exec_context \<Rightarrow> string \<Rightarrow> string \<Rightarrow> ai_autonomy_routine op" where
  "getEnabledRoutine ctx routineKey triggerKind =
     obind (oread (\<lambda>s. List.find (\<lambda>r. rout_tenant_id r = ctx_tenantId ctx \<and> rout_routine_key r = routineKey
                         \<and> rout_trigger_kind r = triggerKind) (db_routines s))) (\<lambda>found.
       case found of
         None \<Rightarrow> othrow (BadRequest ''Autonomy routine was not found for this tenant and trigger.'')
       | Some routine \<Rightarrow>
           oguard (\<not> rout_enabled routine) (Forbidden ''Autonomy routine is disabled.'')
          (oguard (rout_workflow_type routine \<noteq> ''readonly_diagnostic'')
             (Forbidden ''Autonomy routine workflow is not enabled for Phase 6.'')
          (oguard (rout_max_runs_per_window routine \<noteq> 1)
             (Forbidden ''Phase 6 routines are bounded to one diagnostic run per trigger.'')
          (oret routine))))"

definition assertProviderScope :: "ai_autonomy_routine \<Rightarrow> string option \<Rightarrow> unit op" where
  "assertProviderScope routine requestedProviderKey =
     oguard (truthy requestedProviderKey \<and> requestedProviderKey \<noteq> Some (rout_provider_key routine))
       (Forbidden ''Autonomy routine provider override does not match the routine provider.'') (oret ())"

definition assertCooldownAvailable :: "int \<Rightarrow> ai_autonomy_routine \<Rightarrow> unit op" where
  "assertCooldownAvailable now routine =
     oguard (rout_cooldown_seconds routine < 0) (Forbidden ''Autonomy routine cooldown is malformed.'')
       (if rout_cooldown_seconds routine = 0 then oret ()
        else case rout_last_triggered_at routine of
          None \<Rightarrow> oret ()
        | Some t \<Rightarrow> oguard (now - t < rout_cooldown_seconds routine * 1000)
                     (Forbidden ''Autonomy routine cooldown is active.'') (oret ()))"

text \<open>\<open>const [row] = rows\<close>: the first element is the array of rows, which has no
  \<open>last_triggered_at\<close>, so both columns are taken from the clock.\<close>

definition reserveRoutineTrigger :: "int \<Rightarrow> exec_context \<Rightarrow> ai_autonomy_routine \<Rightarrow> ai_autonomy_routine op" where
  "reserveRoutineTrigger now ctx routine =
     obind (assertCooldownAvailable now routine) (\<lambda>_.
     obind (update_routine_query now ctx (rout_id routine)) (\<lambda>result.
       oguard (length result = 0) (Forbidden ''Autonomy routine cooldown is active.'')
         (oret (routine\<lparr>rout_last_triggered_at := Some now, rout_updated_at := now\<rparr>))))"

record routine_trigger =
  rt_routineKey :: string
  rt_alertId :: "string option"
  rt_providerKey :: "string option"

definition getReservedRoutine :: "int \<Rightarrow> exec_context \<Rightarrow> routine_trigger \<Rightarrow> string \<Rightarrow> ai_autonomy_routine op" where
  "getReservedRoutine now ctx input triggerKind =
     obind (getEnabledRoutine ctx (rt_routineKey input) triggerKind) (\<lambda>routine.
     obind (assertProviderScope routine (rt_providerKey input)) (\<lambda>_.
       reserveRoutineTrigger now ctx routine))"

record diagnostic_request =
  dr_provider_key :: string
  dr_alert_id :: string
  dr_include_directory :: bool
  dr_user_id_or_email :: "string option"
  dr_continue_on_provider_error :: bool
  dr_surface :: string
  dr_trigger_kind :: string
  dr_metadata :: "(string \<times> string) list"

definition routine_input :: "ai_autonomy_routine \<Rightarrow> jsval" where
  "routine_input routine = (if isRecord (rout_input_json routine) then rout_input_json routine else JObj [])"

definition routine_metadata :: "ai_autonomy_routine \<Rightarrow> string \<Rightarrow> (string \<times> string) list" where
  "routine_metadata routine trigger = [(''autonomy_routine_id'', rout_id routine),
     (''autonomy_routine_key'', rout_routine_key routine), (''autonomy_trigger'', trigger)]"

definition runScheduledDiagnostic ::
  "(exec_context \<Rightarrow> diagnostic_request \<Rightarrow> 'r op) \<Rightarrow> int \<Rightarrow> exec_context \<Rightarrow> routine_trigger \<Rightarrow> 'r op" where
  "runScheduledDiagnostic runMockDiagnostic now ctx input =
     obind (getReservedRoutine now ctx input ''scheduled'') (\<lambda>routine.
       runMockDiagnostic ctx
         \<lparr> dr_provider_key = rout_provider_key routine,
           dr_alert_id = with_default ''mock-alert-001''
             (or_else (stringField (routine_input routine) ''alert_id'') (rt_alertId input)),
           dr_include_directory = (js_get (routine_input routine) ''include_directory'' = JBool True),
           dr_user_id_or_email = stringField (routine_input routine) ''user_id_or_email'',
           dr_continue_on_provider_error = False,
           dr_surface = ''scheduler'', dr_trigger_kind = ''scheduled_trigger'',
           dr_metadata = routine_metadata routine ''scheduled'' \<rparr>)"

definition runAlertDiagnostic ::
  "(exec_context \<Rightarrow> diagnostic_request \<Rightarrow> 'r op) \<Rightarrow> int \<Rightarrow> exec_context \<Rightarrow> routine_trigger \<Rightarrow> 'r op" where
  "runAlertDiagnostic runMockDiagnostic now ctx input =
     obind (getReservedRoutine now ctx input ''alert'') (\<lambda>routine.
       runMockDiagnostic ctx
         \<lparr> dr_provider_key = rout_provider_key routine,
           dr_alert_id = with_default ''mock-alert-001''
             (or_else (rt_alertId input) (stringField (routine_input routine) ''alert_id'')),
           dr_include_directory = (js_get (routine_input routine) ''include_directory'' = JBool True),
           dr_user_id_or_email = stringField (routine_input routine) ''user_id_or_email'',
           dr_continue_on_provider_error = False,
           dr_surface = ''alert'', dr_trigger_kind = ''alert_trigger'',
           dr_metadata = routine_metadata routine ''alert'' \<rparr>)"

subsection \<open>Cooldown of routines\<close>

lemma find_map: "(\<And>x. P (f x) = P x) \<Longrightarrow> List.find P (map f xs) = map_option f (List.find P xs)"
  by (induction xs) auto

lemma assertCooldown_Inr:
  "assertCooldownAvailable now r s = (s', Inr u) \<longleftrightarrow> s' = s \<and> 0 \<le> rout_cooldown_seconds r \<and> routine_cooled now r"
  by (auto simp: assertCooldownAvailable_def routine_cooled_def oguard_def op_simps split: option.splits if_splits)

lemma assertCooldown_result:
  "0 \<le> rout_cooldown_seconds r \<Longrightarrow> routine_cooled now r \<Longrightarrow> assertCooldownAvailable now r s = (s, Inr ())"
  using assertCooldown_Inr [of now r s s "()"] by simp

lemma assertCooldown_active:
  "\<not> routine_cooled now r \<Longrightarrow> \<exists>e. assertCooldownAvailable now r s = (s, Inl e)"
  using assertCooldown_Inr [of now r s]
  by (auto simp: assertCooldownAvailable_def oguard_def routine_cooled_def split: option.splits if_splits)

lemma reserve_run:
  assumes "0 \<le> rout_cooldown_seconds r" "routine_cooled now r"
  shows "reserveRoutineTrigger now ctx r s =
     (fst (update_routine_query now ctx (rout_id r) s), Inr (r\<lparr>rout_last_triggered_at := Some now, rout_updated_at := now\<rparr>))"
  using assms by (simp add: reserveRoutineTrigger_def obind_apply assertCooldown_result update_routine_query_def Let_def)

lemma reserve_Inr: "reserveRoutineTrigger now ctx r s = (s', Inr r') \<Longrightarrow>
    0 \<le> rout_cooldown_seconds r \<and> routine_cooled now r \<and> s' = fst (update_routine_query now ctx (rout_id r) s)"
  using assertCooldown_Inr [of now r s] reserve_run [of r now ctx s]
  by (auto simp: reserveRoutineTrigger_def obind_Inr_iff)

definition trigger_row :: "exec_context \<Rightarrow> string \<Rightarrow> string \<Rightarrow> db \<Rightarrow> ai_autonomy_routine option" where
  "trigger_row ctx key kind s = List.find (\<lambda>r. rout_tenant_id r = ctx_tenantId ctx \<and> rout_routine_key r = key
     \<and> rout_trigger_kind r = kind) (db_routines s)"

lemma trigger_row_props: "trigger_row ctx key kind s = Some r \<Longrightarrow> rout_tenant_id r = ctx_tenantId ctx"
  by (auto simp: trigger_row_def find_Some_iff)

lemma getEnabledRoutine_Inr: "getEnabledRoutine ctx key kind s = (s', Inr r) \<Longrightarrow> s' = s \<and> trigger_row ctx key kind s = Some r"
  by (auto simp: getEnabledRoutine_def trigger_row_def oguard_def split: option.splits if_splits)

lemma trigger_row_reserved:
  assumes "trigger_row ctx key kind s = Some r" "routine_cooled now r"
  shows "trigger_row ctx key kind (fst (update_routine_query now ctx (rout_id r) s)) =
     Some (r\<lparr>rout_last_triggered_at := Some now, rout_updated_at := now\<rparr>)"
  using assms trigger_row_props [OF assms(1)]
  by (simp add: trigger_row_def update_routine_query_def Let_def) (subst find_map; auto)

lemma getReservedRoutine_Inr:
  assumes "getReservedRoutine now ctx input kind s = (s', Inr r')"
  obtains r where "trigger_row ctx (rt_routineKey input) kind s = Some r" "routine_cooled now r"
    "0 \<le> rout_cooldown_seconds r" "s' = fst (update_routine_query now ctx (rout_id r) s)"
    "r' = r\<lparr>rout_last_triggered_at := Some now, rout_updated_at := now\<rparr>"
proof -
  from assms obtain r where l: "getEnabledRoutine ctx (rt_routineKey input) kind s = (s, Inr r)"
    and res: "reserveRoutineTrigger now ctx r s = (s', Inr r')"
    unfolding getReservedRoutine_def assertProviderScope_def
    by (auto simp: obind_Inr_iff oguard_Inr_iff dest: getEnabledRoutine_Inr)
  from reserve_Inr [OF res] reserve_run [of r now ctx s] res have
    "0 \<le> rout_cooldown_seconds r" "routine_cooled now r" "s' = fst (update_routine_query now ctx (rout_id r) s)"
    "r' = r\<lparr>rout_last_triggered_at := Some now, rout_updated_at := now\<rparr>" by auto
  with getEnabledRoutine_Inr [OF l] show thesis by (intro that) auto
qed


definition sample_routine :: ai_autonomy_routine where
  "sample_routine = \<lparr> rout_id = ''r1'', rout_tenant_id = ''t1'', rout_routine_key = ''nightly'', rout_name = ''Nightly'',
     rout_trigger_kind = ''scheduled'', rout_workflow_type = ''readonly_diagnostic'', rout_enabled = True,
     rout_provider_key = ''mock'', rout_schedule_json = JNull, rout_alert_filter_json = JNull, rout_input_json = JNull,
     rout_max_runs_per_window = 1, rout_cooldown_seconds = 60, rout_metadata_json = JNull,
     rout_last_triggered_at = Some 0, rout_created_at = 0, rout_updated_at = 0 \<rparr>"

definition nightly :: routine_trigger where
  "nightly = \<lparr> rt_routineKey = ''nightly'', rt_alertId = None, rt_providerKey = None \<rparr>"

lemmas routine_eval = getReservedRoutine_def getEnabledRoutine_def assertProviderScope_def reserveRoutineTrigger_def
  assertCooldownAvailable_def update_routine_query_def obind_apply oguard_def routine_cooled_def Let_def truthy_def
  sample_routine_def nightly_def sample_ctx_def empty_db_def

lemma sample_reserved: "\<exists>s' r. getReservedRoutine 70000 sample_ctx nightly ''scheduled''
    (empty_db\<lparr>db_routines := [sample_routine]\<rparr>) = (s', Inr r) \<and> rout_cooldown_seconds r = 60"
  by (simp add: routine_eval)


text \<open>C13: Two triggers that loaded the same routine before either reserved it are both let through at the
  same instant, whatever the cooldown: the rows the atomic UPDATE answers with are counted in an array
  that always has two elements, so the refusal after it is never reached.\<close>

theorem routine_race_not_refused:
  assumes "0 < rout_cooldown_seconds routine" "routine_cooled now routine"
  shows "\<exists>r1 r2. snd (reserveRoutineTrigger now ctx routine s) = Inr r1
     \<and> snd (reserveRoutineTrigger now ctx routine (fst (reserveRoutineTrigger now ctx routine s))) = Inr r2"
  using assms by (simp add: reserve_run)

theorem routine_race_not_refused_witness:
  "\<exists>r1 r2. snd (reserveRoutineTrigger 70000 sample_ctx sample_routine (empty_db\<lparr>db_routines := [sample_routine]\<rparr>)) = Inr r1
     \<and> snd (reserveRoutineTrigger 70000 sample_ctx sample_routine
          (fst (reserveRoutineTrigger 70000 sample_ctx sample_routine (empty_db\<lparr>db_routines := [sample_routine]\<rparr>)))) = Inr r2"
  by (rule routine_race_not_refused) (simp_all add: sample_routine_def routine_cooled_def)

end
