(* ===== verification/Policies.thy ===== *)
theory Policies
  imports Autonomy
begin

section \<open>The approval policy resolver (policy/ai-approval-policy-resolver.service.ts)\<close>

text \<open>
  Whether a stored policy approves a pending action without a human.  Each check is a function to
  the reasons it raises, in the order of the code; a policy approves when none is raised.
\<close>

subsection \<open>Reading the action\<close>

definition record_or_empty :: "jsval \<Rightarrow> jsval" where
  "record_or_empty v = (if isRecord v then v else JObj [])"

definition actionMetadata :: "ai_action_request \<Rightarrow> jsval" where
  "actionMetadata action = record_or_empty (act_metadata_json action)"

definition actionPayload :: "ai_action_request \<Rightarrow> jsval" where
  "actionPayload action = record_or_empty (act_action_payload_json action)"

definition resolveActionEnvironment :: "ai_action_request \<Rightarrow> ai_approval_policy \<Rightarrow> string option" where
  "resolveActionEnvironment action policy =
     or_else (metadataString (actionPayload action) ''environment'')
    (or_else (nestedMetadataString (actionMetadata action) ''automation'' ''environment'')
    (or_else (metadataString (actionMetadata action) ''environment'')
    (or_else (pol_environment policy)
             (if act_provider_key action = Some ''mock'' then Some ''mock'' else None))))"

subsection \<open>Target patterns\<close>

text \<open>\<open>/\\[1-9]/\<close>: a back reference.\<close>

fun back_reference :: "string \<Rightarrow> bool" where
  "back_reference (c # d # s) = (c = CHR 0x5C \<and> is_digit d \<and> d \<noteq> CHR ''0'' \<or> back_reference (d # s))"
| "back_reference _ = False"

text \<open>\<open>/\([^)]*[+*][^)]*\)\s*(?:[+*]|\{\d)/\<close>: a repeated group with a repetition inside.\<close>

definition quantifier_follows :: "string \<Rightarrow> bool" where
  "quantifier_follows s =
     (case dropWhile js_space s of
        c # r \<Rightarrow> c = CHR ''+'' \<or> c = CHR ''*'' \<or> c = CHR ''{'' \<and> (case r of d # _ \<Rightarrow> is_digit d | [] \<Rightarrow> False)
      | [] \<Rightarrow> False)"

fun nested_repetition :: "string \<Rightarrow> bool" where
  "nested_repetition [] = False"
| "nested_repetition (c # s) =
     (c = CHR ''('' \<and> list_ex (\<lambda>x. x = CHR ''+'' \<or> x = CHR ''*'') (takeWhile (\<lambda>x. x \<noteq> CHR '')'') s)
        \<and> (case dropWhile (\<lambda>x. x \<noteq> CHR '')'') s of _ # r \<Rightarrow> quantifier_follows r | [] \<Rightarrow> False)
      \<or> nested_repetition s)"

definition compilePolicyPattern :: "platform \<Rightarrow> string \<Rightarrow> (string \<Rightarrow> bool) option" where
  "compilePolicyPattern pf pattern =
     (if length pattern > 128 \<or> back_reference pattern \<or> nested_repetition pattern then None
      else regexp pf pattern)"

subsection \<open>Decisions\<close>

definition reason_key :: "reason \<Rightarrow> string" where
  "reason_key r = r_code r @ '':'' @ r_detail r"

fun unique_loop :: "string list \<Rightarrow> reason list \<Rightarrow> reason list" where
  "unique_loop seen [] = []"
| "unique_loop seen (r # rs) =
     (if reason_key r \<in> set seen then unique_loop seen rs
      else r # unique_loop (reason_key r # seen) rs)"

definition uniqueReasons :: "reason list \<Rightarrow> reason list" where
  "uniqueReasons reasons = unique_loop [] reasons"

definition deny :: "reason \<Rightarrow> reason" where
  "deny r = r\<lparr>r_severity := Some (with_default ''deny'' (r_severity r))\<rparr>"

definition failedDecision :: "policy_outcome \<Rightarrow> reason list \<Rightarrow> execution option \<Rightarrow> policy_decision" where
  "failedDecision outcome reasons exec =
     \<lparr> pd_outcome = outcome, pd_approved = False, pd_reasons = uniqueReasons (map deny reasons),
       pd_matched_policy_id = None, pd_matched_policy_key = None, pd_matched_policy_version = None,
       pd_effective_autonomy_level = None, pd_required_autonomy_level = None, pd_autonomy_components = [],
       pd_evidence_ids = [], pd_surface = Option.bind exec ex_surface, pd_trigger_kind = Option.bind exec ex_trigger_kind \<rparr>"

subsection \<open>Loading\<close>

definition loadEvidence :: "exec_context \<Rightarrow> ai_action_request \<Rightarrow> db \<Rightarrow> ai_evidence list \<times> reason list" where
  "loadEvidence ctx action s =
     (let evidenceIds = filter (\<lambda>e. e \<noteq> []) (with_default [] (act_evidence_ids action)) in
      if evidenceIds = [] then ([], [because ''MISSING_EVIDENCE_IDS'' ''Action request has no evidence ids.''])
      else let rows = filter (\<lambda>r. evi_tenant_id r = ctx_tenantId ctx) (db_evidence s);
               matching = filter (\<lambda>r. evi_id r \<in> set evidenceIds) rows
           in (matching,
               if length matching \<noteq> card (set evidenceIds)
               then [because ''EVIDENCE_NOT_FOUND_OR_CROSS_TENANT''
                       ''One or more action evidence ids were not visible for this tenant.'']
               else []))"

definition loadRecommendation :: "exec_context \<Rightarrow> ai_action_request \<Rightarrow> db \<Rightarrow> ai_recommendation option" where
  "loadRecommendation ctx action s =
     (case metadataString (actionMetadata action) ''recommendation_id'' of
        None \<Rightarrow> None
      | Some k \<Rightarrow> List.find (\<lambda>r. rec_id r = k \<and> rec_tenant_id r = ctx_tenantId ctx) (db_recommendations s))"

definition loadEvaluation :: "exec_context \<Rightarrow> ai_action_request \<Rightarrow> db \<Rightarrow> ai_evaluation option" where
  "loadEvaluation ctx action s =
     (case metadataString (actionMetadata action) ''evaluation_id'' of
        None \<Rightarrow> None
      | Some k \<Rightarrow> List.find (\<lambda>r. eval_id r = k \<and> eval_tenant_id r = ctx_tenantId ctx) (db_evaluations s))"

subsection \<open>Checks of one policy\<close>

definition raise_if :: "bool \<Rightarrow> string \<Rightarrow> string \<Rightarrow> reason list" where
  "raise_if bad code detail = (if bad then [because code detail] else [])"

definition neither_null_nor_record :: "jsval \<Rightarrow> bool" where
  "neither_null_nor_record v \<longleftrightarrow> v \<noteq> JNull \<and> \<not> isRecord v"

definition validate_target :: "ai_approval_policy \<Rightarrow> reason list" where
  "validate_target policy =
     (if \<not> truthy (pol_target_type policy) \<or> \<not> isRecord (pol_target_constraints_json policy)
      then [because ''MALFORMED_POLICY_TARGET'' ''Policy target constraints are incomplete.'']
      else raise_if (stringArray (js_get (pol_target_constraints_json policy) ''allowed_refs'') = []
                     \<and> stringArray (js_get (pol_target_constraints_json policy) ''allowed_patterns'') = [])
             ''MALFORMED_POLICY_TARGET'' ''Policy target constraints must include allowed refs or patterns.'')"

definition live_safety_denied :: "ai_approval_policy \<Rightarrow> bool" where
  "live_safety_denied policy \<longleftrightarrow>
     pol_live_test_safety policy \<noteq> ''mock_only''
     \<and> \<not> (case agentAutonomyMetadata (pol_metadata_json policy) of
             None \<Rightarrow> False
           | Some (agent, cls) \<Rightarrow> pol_live_test_safety policy = ''live_write_gated''
                                 \<and> isAutomatableAutonomyActionClass (Some cls))"

definition validatePolicyShape :: "ai_approval_policy \<Rightarrow> reason list" where
  "validatePolicyShape policy =
     raise_if (\<not> pol_enabled policy) ''POLICY_DISABLED'' (''Policy '' @ pol_policy_key policy @ '' is disabled.'')
   @ raise_if (pol_status policy \<noteq> ''enabled'') ''POLICY_NOT_ENABLED''
       (''Policy '' @ pol_policy_key policy @ '' status is '' @ pol_status policy @ ''.'')
   @ raise_if (pol_policy_key policy = [] \<or> pol_policy_version policy < 1)
       ''MALFORMED_POLICY_VERSION'' ''Policy key/version is incomplete.''
   @ raise_if (autonomyRank (Some (pol_max_autonomy_level policy)) = None)
       ''MALFORMED_POLICY_AUTONOMY'' ''Policy autonomy level is malformed.''
   @ validate_target policy
   @ raise_if (neither_null_nor_record (pol_evidence_requirements_json policy))
       ''MALFORMED_POLICY_EVIDENCE'' ''Policy evidence requirements must be an object.''
   @ raise_if (neither_null_nor_record (pol_evaluation_requirements_json policy))
       ''MALFORMED_POLICY_EVALUATION'' ''Policy evaluation requirements must be an object.''
   @ raise_if (neither_null_nor_record (pol_budget_constraints_json policy))
       ''MALFORMED_POLICY_BUDGET'' ''Policy budget constraints must be an object.''
   @ raise_if (live_safety_denied policy)
       ''LIVE_POLICY_NOT_MOCK_ONLY'' ''Phase 6 policy approval is limited to mock-only safety.''"

text \<open>\<open>policy.x && policy.x !== y\<close>.\<close>

definition set_and_differs :: "string option \<Rightarrow> string option \<Rightarrow> bool" where
  "set_and_differs col v \<longleftrightarrow> truthy col \<and> col \<noteq> v"

definition match_target_ref :: "platform \<Rightarrow> ai_approval_policy \<Rightarrow> ai_action_request \<Rightarrow> reason list" where
  "match_target_ref pf policy action =
     (let targetRef = with_default [] (act_target_ref action);
          allowedRefs = stringArray (js_get (pol_target_constraints_json policy) ''allowed_refs'');
          allowedPatterns = stringArray (js_get (pol_target_constraints_json policy) ''allowed_patterns'');
          compiled = map (compilePolicyPattern pf) allowedPatterns
      in if allowedRefs \<noteq> [] \<and> targetRef \<notin> set allowedRefs
         then [because ''POLICY_TARGET_REF_DENIED'' ''Action target ref is not explicitly allowed by policy.'']
         else if allowedRefs = [] \<and> allowedPatterns \<noteq> []
         then (if list_ex Option.is_none compiled
               then [because ''MALFORMED_POLICY_TARGET_PATTERN'' ''Policy contains an unsafe or invalid target pattern.'']
               else raise_if (\<not> list_ex (\<lambda>p. case p of None \<Rightarrow> False | Some test \<Rightarrow> test targetRef) compiled)
                      ''POLICY_TARGET_REF_DENIED'' ''Action target ref does not match an allowed policy pattern.'')
         else [])"

definition action_class_of :: "ai_action_request \<Rightarrow> string" where
  "action_class_of action =
     actionClassForCapabilityName (with_default (act_capability_name action) (metadataString (actionMetadata action) ''action_class''))"

definition match_agent :: "ai_approval_policy \<Rightarrow> ai_action_request \<Rightarrow> reason list" where
  "match_agent policy action =
     (case agentAutonomyMetadata (pol_metadata_json policy) of
        None \<Rightarrow> []
      | Some (agent, cls) \<Rightarrow>
          raise_if (Some agent \<noteq> metadataString (actionMetadata action) ''agent_definition_id'')
            ''AGENT_AUTONOMY_AGENT_MISMATCH'' ''Agent autonomy policy does not match the action agent definition.''
        @ raise_if (cls \<noteq> action_class_of action)
            ''AGENT_AUTONOMY_CLASS_MISMATCH'' ''Agent autonomy policy does not match the action class.''
        @ raise_if (\<not> isAutomatableAutonomyActionClass (Some (action_class_of action)))
            ''AGENT_AUTONOMY_CLASS_NOT_AUTOMATABLE'' ''Action class cannot run automatically for agents.''
        @ raise_if (pol_live_test_safety policy \<noteq> ''live_write_gated'')
            ''AGENT_AUTONOMY_LIVE_SAFETY_REQUIRED'' ''Agent autonomy policies must use live-write-gated safety.'')"

definition match_scope ::
  "ai_approval_policy \<Rightarrow> ai_action_request \<Rightarrow> capability_contract \<Rightarrow> execution option \<Rightarrow> string option \<Rightarrow> reason list" where
  "match_scope policy action contract exec environment =
     raise_if (pol_capability_name policy \<noteq> c_name contract \<or> pol_capability_version policy \<noteq> c_version contract)
       ''POLICY_CAPABILITY_MISMATCH'' ''Policy capability does not match action capability.''
   @ raise_if (pol_effect policy \<noteq> c_effect contract \<or> act_effect action \<noteq> c_effect contract)
       ''POLICY_EFFECT_MISMATCH'' ''Policy effect does not match action effect.''
   @ raise_if (set_and_differs (pol_provider_kind policy) (act_provider_kind action))
       ''POLICY_PROVIDER_KIND_MISMATCH'' ''Policy provider kind does not match action provider kind.''
   @ raise_if (set_and_differs (pol_provider_key policy) (act_provider_key action))
       ''POLICY_PROVIDER_KEY_MISMATCH'' ''Policy provider key does not match action provider key.''
   @ raise_if (set_and_differs (pol_environment policy) environment)
       ''POLICY_ENVIRONMENT_MISMATCH'' ''Policy environment does not match action environment.''
   @ raise_if (environment = Some ''production'' \<and> agentAutonomyMetadata (pol_metadata_json policy) = None)
       ''PRODUCTION_AUTONOMY_DISABLED'' ''Production policy autonomy is deferred for Phase 6.''
   @ raise_if (set_and_differs (pol_trigger_surface policy) (Option.bind exec ex_surface))
       ''POLICY_SURFACE_MISMATCH'' ''Policy trigger surface does not match execution surface.''
   @ raise_if (set_and_differs (pol_trigger_kind policy) (Option.bind exec ex_trigger_kind))
       ''POLICY_TRIGGER_KIND_MISMATCH'' ''Policy trigger kind does not match execution trigger kind.''
   @ raise_if (pol_target_type policy \<noteq> act_target_type action)
       ''POLICY_TARGET_TYPE_MISMATCH'' ''Policy target type does not match action target type.''"

definition matchPolicy ::
  "platform \<Rightarrow> ai_approval_policy \<Rightarrow> ai_action_request \<Rightarrow> capability_contract \<Rightarrow> execution option \<Rightarrow> string option \<Rightarrow> reason list" where
  "matchPolicy pf policy action contract exec environment =
     match_scope policy action contract exec environment
   @ match_target_ref pf policy action
   @ raise_if (set_and_differs (metadataString (actionPayload action) ''liveTestSafety'') (Some (pol_live_test_safety policy)))
       ''LIVE_TEST_SAFETY_MISMATCH'' ''Action live-test safety does not match policy.''
   @ raise_if (pol_live_test_safety policy = ''mock_only'' \<and> act_provider_key action \<noteq> Some ''mock'')
       ''MOCK_ONLY_POLICY_PROVIDER_DENIED'' ''Mock-only policy approval requires a mock-safe provider action.''
   @ match_agent policy action"

definition checkEvidence :: "ai_approval_policy \<Rightarrow> ai_action_request \<Rightarrow> ai_evidence list \<Rightarrow> reason list" where
  "checkEvidence policy action evidence =
     (let requirements = record_or_empty (pol_evidence_requirements_json policy);
          minCount = with_default (int_num 1) (numberValue (js_get requirements ''min_count''));
          actionEvidenceIds = with_default [] (act_evidence_ids action);
          trustLevels = stringArray (js_get requirements ''trust_levels'');
          sourceProviders = stringArray (js_get requirements ''source_providers'')
      in raise_if (num_less (int_num (int (length evidence))) minCount) ''INSUFFICIENT_EVIDENCE''
           (''Evidence count '' @ show_nat (length evidence) @ '' is below required '' @ num_text minCount @ ''.'')
       @ concat (map (\<lambda>requiredId. raise_if (requiredId \<notin> set actionEvidenceIds) ''REQUIRED_EVIDENCE_MISSING''
                        (''Required evidence id '' @ requiredId @ '' is missing.''))
                   (stringArray (js_get requirements ''required_ids'')))
       @ raise_if (trustLevels \<noteq> [] \<and> list_ex (\<lambda>row. evi_trust_level row \<notin> set trustLevels) evidence)
           ''EVIDENCE_TRUST_DENIED'' ''At least one evidence row has an unapproved trust level.''
       @ raise_if (sourceProviders \<noteq> [] \<and> list_ex (\<lambda>row. evi_source_provider row \<notin> set sourceProviders) evidence)
           ''EVIDENCE_SOURCE_DENIED'' ''At least one evidence row has an unapproved source provider.'')"

fun js_text_value :: "jsval \<Rightarrow> string option" where
  "js_text_value (JStr s) = Some s"
| "js_text_value _ = None"

definition evaluation_score :: "jsval \<Rightarrow> ai_evaluation option \<Rightarrow> jsnum option" where
  "evaluation_score requirements evaluation =
     (let scoreKey = with_default ''overall'' (js_text_value (js_get requirements ''score_key'')) in
      case evaluation of
        None \<Rightarrow> None
      | Some e \<Rightarrow> if isRecord (eval_scores_json e) then numberValue (js_get (eval_scores_json e) scoreKey) else None)"

definition checkEvaluation ::
  "ai_approval_policy \<Rightarrow> ai_recommendation option \<Rightarrow> ai_evaluation option \<Rightarrow> reason list" where
  "checkEvaluation policy recommendation evaluation =
     (let requirements = record_or_empty (pol_evaluation_requirements_json policy);
          requiredStatus = js_text_value (js_get requirements ''required_status'');
          allowedOutcomes = stringArray (js_get requirements ''allowed_outcomes'');
          outcome = Option.bind evaluation eval_outcome;
          score = evaluation_score requirements evaluation
      in low_confidence ''LOW_CONFIDENCE'' policy recommendation
       @ raise_if (set_and_differs requiredStatus (map_option eval_status evaluation))
           ''EVALUATION_STATUS_DENIED'' (''Evaluation status must be '' @ the requiredStatus @ ''.'')
       @ raise_if (allowedOutcomes \<noteq> [] \<and> (\<not> truthy outcome \<or> the outcome \<notin> set allowedOutcomes))
           ''EVALUATION_OUTCOME_DENIED'' ''Evaluation outcome is not allowed by policy.''
       @ (case numberValue (js_get requirements ''min_score'') of
            None \<Rightarrow> []
          | Some minScore \<Rightarrow> raise_if (score = None \<or> num_less (the score) minScore) ''EVALUATION_SCORE_LOW''
              (''Evaluation score '' @ number_or_missing score @ '' is below required '' @ num_text minScore @ ''.'')))"

subsection \<open>The decision\<close>

definition policy_ceiling ::
  "exec_context \<Rightarrow> ai_action_request \<Rightarrow> capability_contract \<Rightarrow> db \<Rightarrow> ai_approval_policy \<Rightarrow> ceiling_decision" where
  "policy_ceiling ctx action contract s policy =
     resolveEffectiveCeiling ctx contract policy (resolveActionEnvironment action policy)
       (act_provider_kind action) (act_provider_key action) s"

definition policy_reasons ::
  "platform \<Rightarrow> int \<Rightarrow> exec_context \<Rightarrow> ai_action_request \<Rightarrow> capability_contract \<Rightarrow> execution option \<Rightarrow> db \<Rightarrow> ai_approval_policy
     \<Rightarrow> reason list" where
  "policy_reasons pf now ctx action contract exec s policy =
     (let (rows, evidenceReasons) = loadEvidence ctx action s;
          recommendation = loadRecommendation ctx action s;
          evaluation = loadEvaluation ctx action s;
          reasons = validatePolicyShape policy
                  @ matchPolicy pf policy action contract exec (resolveActionEnvironment action policy)
                  @ evidenceReasons
                  @ checkEvidence policy action rows
                  @ checkEvaluation policy recommendation evaluation
                  @ cd_reasons (policy_ceiling ctx action contract s policy)
      in if reasons = [] then evaluate_demotion pf now ctx action policy contract rows recommendation s
         else reasons)"

definition approved_decision ::
  "exec_context \<Rightarrow> ai_action_request \<Rightarrow> capability_contract \<Rightarrow> execution option \<Rightarrow> db \<Rightarrow> ai_approval_policy \<Rightarrow> policy_decision" where
  "approved_decision ctx action contract exec s policy =
     (let ceiling = policy_ceiling ctx action contract s policy in
      \<lparr> pd_outcome = PolicyApproved, pd_approved = True, pd_reasons = [],
        pd_matched_policy_id = Some (pol_id policy), pd_matched_policy_key = Some (pol_policy_key policy),
        pd_matched_policy_version = Some (pol_policy_version policy),
        pd_effective_autonomy_level = cd_effectiveLevel ceiling,
        pd_required_autonomy_level = Some (cd_requiredLevel ceiling),
        pd_autonomy_components = cd_components ceiling,
        pd_evidence_ids = map evi_id (fst (loadEvidence ctx action s)),
        pd_surface = Option.bind exec ex_surface, pd_trigger_kind = Option.bind exec ex_trigger_kind \<rparr>)"

text \<open>The loop over the policies: the first without a reason approves, the others leave theirs.\<close>

fun policy_loop ::
  "platform \<Rightarrow> int \<Rightarrow> exec_context \<Rightarrow> ai_action_request \<Rightarrow> capability_contract \<Rightarrow> execution option \<Rightarrow> db \<Rightarrow> reason list
     \<Rightarrow> ai_approval_policy list \<Rightarrow> policy_decision" where
  "policy_loop pf now ctx action contract exec s allReasons [] =
     failedDecision SystemRejected
       (if allReasons \<noteq> [] then allReasons
        else [because ''POLICY_DENIED'' ''No policy approved this action request.'']) exec"
| "policy_loop pf now ctx action contract exec s allReasons (policy # policies) =
     (let reasons = policy_reasons pf now ctx action contract exec s policy in
      if reasons = [] then approved_decision ctx action contract exec s policy
      else policy_loop pf now ctx action contract exec s (allReasons @ reasons) policies)"

definition tenant_policies :: "exec_context \<Rightarrow> db \<Rightarrow> ai_approval_policy list" where
  "tenant_policies ctx s = filter (\<lambda>p. pol_tenant_id p = ctx_tenantId ctx) (db_policies s)"

definition newest_policies :: "ai_approval_policy list \<Rightarrow> ai_approval_policy list" where
  "newest_policies = sort_key (\<lambda>p. - pol_policy_version p)"

definition resolve_policy ::
  "platform \<Rightarrow> int \<Rightarrow> exec_context \<Rightarrow> ai_action_request \<Rightarrow> capability_contract \<Rightarrow> execution option \<Rightarrow> db \<Rightarrow> policy_decision" where
  "resolve_policy pf now ctx action contract exec s =
     (let surface = Option.bind exec ex_surface;
          reject = (\<lambda>code detail. failedDecision SystemRejected [because code detail] exec)
      in if surface = Some ''chat'' \<or> surface = Some ''mcp''
         then failedDecision HumanRequired [because ''HUMAN_APPROVAL_REQUIRED_FOR_SURFACE''
                ''Chat and MCP surfaces cannot receive silent policy approval.''] exec
         else if act_tenant_id action \<noteq> ctx_tenantId ctx
         then reject ''ACTION_TENANT_MISMATCH'' ''Action request belongs to another tenant.''
         else if act_status action \<noteq> ''pending''
         then reject ''ACTION_NOT_PENDING''
                (''Only pending action requests can be policy-approved; current status is '' @ act_status action @ ''.'')
         else if (case act_expires_at action of None \<Rightarrow> False | Some t \<Rightarrow> t \<le> now)
         then reject ''ACTION_EXPIRED'' ''Action request expired before policy approval.''
         else if act_capability_name action \<noteq> c_name contract \<or> act_capability_version action \<noteq> c_version contract
                 \<or> act_effect action \<noteq> c_effect contract
         then reject ''ACTION_CONTRACT_MISMATCH'' ''Action request does not match executing capability contract.''
         else if tenant_policies ctx s = []
         then reject ''NO_POLICY'' ''No tenant approval policy exists for policy approval.''
         else policy_loop pf now ctx action contract exec s [] (newest_policies (tenant_policies ctx s)))"

subsection \<open>Lemmas\<close>

lemma raise_if_Nil [simp]: "raise_if bad code detail = [] \<longleftrightarrow> \<not> bad"
  by (simp add: raise_if_def)

lemma raise_if_Nil' [simp]: "[] = raise_if bad code detail \<longleftrightarrow> \<not> bad"
  by (auto simp: raise_if_def)

lemma failed_not_approved [simp]:
  "pd_outcome (failedDecision outcome reasons exec) = outcome" "\<not> pd_approved (failedDecision outcome reasons exec)"
  by (simp_all add: failedDecision_def)

lemma approved_outcome [simp]:
  "pd_outcome (approved_decision ctx action contract exec s policy) = PolicyApproved"
  "pd_approved (approved_decision ctx action contract exec s policy)"
  "pd_matched_policy_id (approved_decision ctx action contract exec s policy) = Some (pol_id policy)"
  by (simp_all add: approved_decision_def Let_def)

lemma policy_loop_find:
  "policy_loop pf now ctx action contract exec s acc ps =
     (case List.find (\<lambda>p. policy_reasons pf now ctx action contract exec s p = []) ps of
        Some p \<Rightarrow> approved_decision ctx action contract exec s p
      | None \<Rightarrow> (let rs = acc @ concat (map (policy_reasons pf now ctx action contract exec s) ps) in
          failedDecision SystemRejected
            (if rs \<noteq> [] then rs else [because ''POLICY_DENIED'' ''No policy approved this action request.'']) exec))"
  by (induction ps arbitrary: acc) (auto simp: Let_def split: option.split)

text \<open>The checks on the action itself, before any policy is read.\<close>

definition action_eligible ::
  "int \<Rightarrow> exec_context \<Rightarrow> ai_action_request \<Rightarrow> capability_contract \<Rightarrow> execution option \<Rightarrow> bool" where
  "action_eligible now ctx action contract exec \<longleftrightarrow>
     Option.bind exec ex_surface \<notin> {Some ''chat'', Some ''mcp''}
     \<and> act_tenant_id action = ctx_tenantId ctx \<and> act_status action = ''pending''
     \<and> (case act_expires_at action of None \<Rightarrow> True | Some t \<Rightarrow> now < t)
     \<and> act_capability_name action = c_name contract \<and> act_capability_version action = c_version contract
     \<and> act_effect action = c_effect contract"

lemma resolve_eligible:
  "action_eligible now ctx action contract exec \<Longrightarrow> tenant_policies ctx s \<noteq> [] \<Longrightarrow>
   resolve_policy pf now ctx action contract exec s =
     policy_loop pf now ctx action contract exec s [] (newest_policies (tenant_policies ctx s))"
  by (auto simp: resolve_policy_def action_eligible_def Let_def split: option.splits)

lemma resolve_not_eligible:
  "\<not> action_eligible now ctx action contract exec \<or> tenant_policies ctx s = [] \<Longrightarrow>
   pd_outcome (resolve_policy pf now ctx action contract exec s) \<noteq> PolicyApproved
   \<and> \<not> pd_approved (resolve_policy pf now ctx action contract exec s)"
  by (auto simp: resolve_policy_def action_eligible_def Let_def split: option.splits)

lemma find_sorted_best:
  assumes "List.find P (sort_key f xs) = Some x"
  shows "x \<in> set xs \<and> P x \<and> (\<forall>y\<in>set xs. f y < f x \<longrightarrow> \<not> P y)"
proof -
  from assms obtain i where i: "i < length (sort_key f xs)" "P (sort_key f xs ! i)" "x = sort_key f xs ! i"
    "\<forall>j<i. \<not> P (sort_key f xs ! j)" by (auto simp: find_Some_iff)
  have "\<not> P y" if y: "y \<in> set xs" "f y < f x" for y
  proof -
    from y(1) have "y \<in> set (sort_key f xs)" by simp
    then obtain j where j: "j < length (sort_key f xs)" "y = sort_key f xs ! j" by (metis in_set_conv_nth)
    have "j < i"
    proof (rule ccontr)
      assume "\<not> j < i"
      then have "i \<le> j" by simp
      moreover have "sorted (map f (sort_key f xs))" by (rule sorted_sort_key)
      ultimately have "f (sort_key f xs ! i) \<le> f (sort_key f xs ! j)"
        using sorted_nth_mono [of "map f (sort_key f xs)" i j] i(1) j(1) by simp
      with y(2) i(3) j(2) show False by simp
    qed
    with i(4) j(2) show ?thesis by blast
  qed
  moreover have "x \<in> set xs" using i by (metis nth_mem set_sort)
  ultimately show ?thesis using i(2,3) by blast
qed

lemma resolve_approved:
  assumes "pd_outcome (resolve_policy pf now ctx action contract exec s) = PolicyApproved"
  obtains policy where "action_eligible now ctx action contract exec" "policy \<in> set (tenant_policies ctx s)"
    "policy_reasons pf now ctx action contract exec s policy = []"
    "resolve_policy pf now ctx action contract exec s = approved_decision ctx action contract exec s policy"
    "\<forall>q\<in>set (tenant_policies ctx s). pol_policy_version policy < pol_policy_version q \<longrightarrow>
       policy_reasons pf now ctx action contract exec s q \<noteq> []"
proof -
  from assms resolve_not_eligible have e: "action_eligible now ctx action contract exec" "tenant_policies ctx s \<noteq> []"
    by blast+
  let ?P = "\<lambda>p. policy_reasons pf now ctx action contract exec s p = []"
  show thesis
  proof (cases "List.find ?P (newest_policies (tenant_policies ctx s))")
    case None
    with assms show thesis by (simp add: resolve_eligible [OF e] policy_loop_find Let_def)
  next
    case (Some p)
    then have "List.find ?P (sort_key (\<lambda>p. - pol_policy_version p) (tenant_policies ctx s)) = Some p"
      by (simp add: newest_policies_def)
    from find_sorted_best [OF this] have "p \<in> set (tenant_policies ctx s)" "?P p"
      "\<forall>q\<in>set (tenant_policies ctx s). pol_policy_version p < pol_policy_version q \<longrightarrow> \<not> ?P q" by auto
    with Some e(1) show thesis by (intro that) (simp_all add: resolve_eligible [OF e] policy_loop_find)
  qed
qed

lemma policy_reasons_NilD:
  assumes "policy_reasons pf now ctx action contract exec s policy = []"
  shows "validatePolicyShape policy = []"
    "matchPolicy pf policy action contract exec (resolveActionEnvironment action policy) = []"
    "snd (loadEvidence ctx action s) = []"
    "checkEvidence policy action (fst (loadEvidence ctx action s)) = []"
    "checkEvaluation policy (loadRecommendation ctx action s) (loadEvaluation ctx action s) = []"
    "cd_reasons (policy_ceiling ctx action contract s policy) = []"
    "evaluate_demotion pf now ctx action policy contract (fst (loadEvidence ctx action s)) (loadRecommendation ctx action s) s = []"
  using assms by (auto simp: policy_reasons_def Let_def split: prod.splits if_splits)

lemma policy_reasons_NilI:
  assumes "validatePolicyShape policy = []"
    "matchPolicy pf policy action contract exec (resolveActionEnvironment action policy) = []"
    "snd (loadEvidence ctx action s) = []"
    "checkEvidence policy action (fst (loadEvidence ctx action s)) = []"
    "checkEvaluation policy (loadRecommendation ctx action s) (loadEvaluation ctx action s) = []"
    "cd_reasons (policy_ceiling ctx action contract s policy) = []"
    "evaluate_demotion pf now ctx action policy contract (fst (loadEvidence ctx action s)) (loadRecommendation ctx action s) s = []"
  shows "policy_reasons pf now ctx action contract exec s policy = []"
  using assms by (auto simp: policy_reasons_def Let_def split: prod.split)

text \<open>Where a policy may act: on the mock provider, or through a grant to the agent of the action.\<close>

definition live_scope :: "ai_approval_policy \<Rightarrow> ai_action_request \<Rightarrow> bool" where
  "live_scope policy action \<longleftrightarrow>
     (case agentAutonomyMetadata (pol_metadata_json policy) of
        None \<Rightarrow> pol_live_test_safety policy = ''mock_only'' \<and> act_provider_key action = Some ''mock''
      | Some (agent, cls) \<Rightarrow> pol_live_test_safety policy = ''live_write_gated''
          \<and> metadataString (actionMetadata action) ''agent_definition_id'' = Some agent
          \<and> action_class_of action = cls \<and> isAutomatableAutonomyActionClass (Some cls))"

lemma live_scope:
  assumes "validatePolicyShape policy = []" "matchPolicy pf policy action contract exec environment = []"
  shows "live_scope policy action"
  using assms
  by (auto simp: live_scope_def validatePolicyShape_def matchPolicy_def match_agent_def live_safety_denied_def split: option.splits)

lemma approved_policy_enabled:
  assumes "validatePolicyShape policy = []" "matchPolicy pf policy action contract exec environment = []"
  shows "pol_enabled policy" "pol_status policy = ''enabled''" "pol_capability_name policy = c_name contract"
    "pol_capability_version policy = c_version contract" "pol_effect policy = c_effect contract"
    "pol_target_type policy = act_target_type action"
    "environment = Some ''production'' \<Longrightarrow> agentAutonomyMetadata (pol_metadata_json policy) \<noteq> None"
  using assms by (auto simp: validatePolicyShape_def matchPolicy_def match_scope_def)

lemma demotion_evidence:
  assumes "evaluate_demotion pf now ctx action policy contract evidence recommendation s = []"
  shows "evidence \<noteq> [] \<and> (\<forall>e\<in>set evidence. evi_trust_level e \<noteq> ''external'' \<and> evi_trust_level e \<noteq> ''model_generated'')"
  using assms by (auto simp: evaluate_demotion_def Let_def list_ex_iff split: if_splits)

lemma loaded_evidence_tenant: "e \<in> set (fst (loadEvidence ctx action s)) \<Longrightarrow>
    e \<in> set (db_evidence s) \<and> evi_tenant_id e = ctx_tenantId ctx \<and> evi_id e \<in> set (with_default [] (act_evidence_ids action))"
  by (auto simp: loadEvidence_def Let_def split: if_splits)

text \<open>C14: A policy approves an action without a human only when the surface is neither chat nor MCP, the
  action is pending, unexpired and of the executing capability in the same tenant, and an enabled
  policy of that tenant for this capability, effect and target type covers it: on the mock provider or
  through a grant to the very agent and action class, never in production without such a grant, under
  ceilings that allow the effect, on evidence of the tenant that is present and not external.\<close>

theorem policy_approval_safe:
  assumes "pd_outcome (resolve_policy pf now ctx action contract exec s) = PolicyApproved"
  shows "action_eligible now ctx action contract exec
     \<and> (\<exists>policy\<in>set (db_policies s). pol_tenant_id policy = ctx_tenantId ctx
          \<and> pd_matched_policy_id (resolve_policy pf now ctx action contract exec s) = Some (pol_id policy)
          \<and> pol_enabled policy \<and> pol_status policy = ''enabled''
          \<and> pol_capability_name policy = act_capability_name action
          \<and> pol_capability_version policy = act_capability_version action
          \<and> pol_effect policy = act_effect action \<and> pol_target_type policy = act_target_type action
          \<and> live_scope policy action
          \<and> (resolveActionEnvironment action policy = Some ''production'' \<longrightarrow>
               agentAutonomyMetadata (pol_metadata_json policy) \<noteq> None)
          \<and> cd_allowed (policy_ceiling ctx action contract s policy)
          \<and> (\<exists>rows. rows \<noteq> [] \<and> (\<forall>e\<in>set rows. e \<in> set (db_evidence s) \<and> evi_tenant_id e = ctx_tenantId ctx
               \<and> evi_id e \<in> set (with_default [] (act_evidence_ids action)) \<and> evi_trust_level e \<noteq> ''external''
               \<and> evi_trust_level e \<noteq> ''model_generated'')))"
proof -
  from assms obtain policy where e: "action_eligible now ctx action contract exec"
    and p: "policy \<in> set (tenant_policies ctx s)" and r: "policy_reasons pf now ctx action contract exec s policy = []"
    and d: "resolve_policy pf now ctx action contract exec s = approved_decision ctx action contract exec s policy"
    by (rule resolve_approved)
  note none = policy_reasons_NilD [OF r]
  let ?rows = "fst (loadEvidence ctx action s)"
  have rows: "?rows \<noteq> [] \<and> (\<forall>e\<in>set ?rows. e \<in> set (db_evidence s) \<and> evi_tenant_id e = ctx_tenantId ctx
               \<and> evi_id e \<in> set (with_default [] (act_evidence_ids action)) \<and> evi_trust_level e \<noteq> ''external''
               \<and> evi_trust_level e \<noteq> ''model_generated'')"
    using demotion_evidence [OF none(7)] loaded_evidence_tenant by blast
  have allowed: "cd_allowed (policy_ceiling ctx action contract s policy)"
    using none(6) by (simp add: policy_ceiling_def ceiling_allowed_reasons)
  have member: "policy \<in> set (db_policies s)" "pol_tenant_id policy = ctx_tenantId ctx"
    using p by (simp_all add: tenant_policies_def)
  have same: "act_capability_name action = c_name contract" "act_capability_version action = c_version contract"
    "act_effect action = c_effect contract" using e by (simp_all add: action_eligible_def)
  show ?thesis
    using e member rows allowed live_scope [OF none(1,2)] approved_policy_enabled [OF none(1,2)] same
    by (intro conjI bexI [of _ policy] exI [of _ ?rows]) (simp_all add: d)
qed

text \<open>The resolver is complete and prefers the newest version: an eligible action is approved exactly
  when some policy of the tenant raises no reason, and the approving policy is one no newer policy
  without a reason stands before.\<close>

theorem resolve_policy_newest:
  assumes "action_eligible now ctx action contract exec"
  shows "(pd_outcome (resolve_policy pf now ctx action contract exec s) = PolicyApproved \<longleftrightarrow>
       (\<exists>policy\<in>set (tenant_policies ctx s). policy_reasons pf now ctx action contract exec s policy = []))
     \<and> (pd_outcome (resolve_policy pf now ctx action contract exec s) = PolicyApproved \<longrightarrow>
       (\<exists>policy\<in>set (tenant_policies ctx s).
          resolve_policy pf now ctx action contract exec s = approved_decision ctx action contract exec s policy
          \<and> (\<forall>q\<in>set (tenant_policies ctx s). pol_policy_version policy < pol_policy_version q \<longrightarrow>
               policy_reasons pf now ctx action contract exec s q \<noteq> [])))"
proof (intro conjI iffI impI)
  let ?P = "\<lambda>p. policy_reasons pf now ctx action contract exec s p = []"
  assume "\<exists>policy\<in>set (tenant_policies ctx s). ?P policy"
  then have ne: "tenant_policies ctx s \<noteq> []" and
    "List.find ?P (newest_policies (tenant_policies ctx s)) \<noteq> None" by (auto simp: find_None_iff newest_policies_def)
  then show "pd_outcome (resolve_policy pf now ctx action contract exec s) = PolicyApproved"
    by (auto simp: resolve_eligible [OF assms ne] policy_loop_find)
next
  assume "pd_outcome (resolve_policy pf now ctx action contract exec s) = PolicyApproved"
  then show "\<exists>policy\<in>set (tenant_policies ctx s). policy_reasons pf now ctx action contract exec s policy = []"
    by (rule resolve_approved) blast
next
  assume "pd_outcome (resolve_policy pf now ctx action contract exec s) = PolicyApproved"
  then show "\<exists>policy\<in>set (tenant_policies ctx s).
          resolve_policy pf now ctx action contract exec s = approved_decision ctx action contract exec s policy
          \<and> (\<forall>q\<in>set (tenant_policies ctx s). pol_policy_version policy < pol_policy_version q \<longrightarrow>
               policy_reasons pf now ctx action contract exec s q \<noteq> [])"
    by (rule resolve_approved) blast
qed

definition sample_action :: ai_action_request where
  "sample_action = \<lparr> act_id = ''act1'', act_tenant_id = ''t1'', act_run_id = None, act_tool_execution_id = None,
     act_conversation_id = None, act_user_id = None, act_preview_id = None,
     act_capability_name = c_name sample_contract, act_capability_version = c_version sample_contract,
     act_effect = ''write'', act_status = ''pending'', act_target_type = Some ''ticket'', act_target_id = None,
     act_target_ref = Some ''T-1'', act_idempotency_key = Some ''k1'',
     act_action_payload_json = JObj [(''environment'', JStr ''production'')],
     act_provider_kind = Some ''ticketing'', act_provider_key = Some ''glpi'', act_input_hash = ''h'',
     act_input_summary = JNull, act_evidence_ids = Some [''e1''], act_expires_at = Some 1000, act_approved_at = None,
     act_rejected_at = None, act_executed_at = None, act_error_message = None,
     act_metadata_json = JObj [(''agent_definition_id'', JStr ''a1'')], act_created_at = 0, act_updated_at = 0 \<rparr>"

definition sample_evidence :: ai_evidence where
  "sample_evidence = \<lparr> evi_id = ''e1'', evi_tenant_id = ''t1'', evi_run_id = None, evi_tool_execution_id = None,
     evi_action_request_id = None, evi_source_provider = ''glpi'', evi_source_object_type = ''ticket'',
     evi_source_object_id = None, evi_source_uri = None, evi_trust_level = ''customer_system'',
     evi_redaction_status = ''redacted'', evi_content_hash = ''h'', evi_summary = ''s'', evi_payload_json = JNull,
     evi_retention_class = ''standard'', evi_collected_at = 0, evi_created_at = 0 \<rparr>"

definition policy_db :: db where
  "policy_db = (ceiling_db ''A3'')\<lparr>db_policies := [sample_policy], db_evidence := [sample_evidence],
     db_actions := [sample_action]\<rparr>"

definition internal_run :: execution where
  "internal_run = no_execution\<lparr>ex_surface := Some ''internal''\<rparr>"

lemma sample_eligible: "action_eligible 10 sample_ctx sample_action sample_contract (Some internal_run)"
  by (simp add: action_eligible_def sample_ctx_def sample_action_def sample_contract_def internal_run_def no_execution_def)

lemma sample_loads:
  "loadEvidence sample_ctx sample_action policy_db = ([sample_evidence], [])"
  "loadRecommendation sample_ctx sample_action policy_db = None"
  "loadEvaluation sample_ctx sample_action policy_db = None"
  "resolveActionEnvironment sample_action sample_policy = Some ''production''"
  by (simp_all add: loadEvidence_def loadRecommendation_def loadEvaluation_def resolveActionEnvironment_def actionPayload_def
    actionMetadata_def record_or_empty_def isRecord_def metadataString_def nestedMetadataString_def or_else_def with_default_def
    policy_db_def ceiling_db_def sample_action_def sample_ctx_def sample_evidence_def empty_db_def non_blank_def js_trim_def js_space_def Let_def)

lemma sample_grant: "agentAutonomyMetadata (pol_metadata_json sample_policy) = Some (''a1'', ''internal_note'')"
  by (simp add: agentAutonomyMetadata_def sample_policy_def isRecord_def AGENT_AUTONOMY_POLICY_SOURCE_def)

lemma sample_shape: "validatePolicyShape sample_policy = []"
  using sample_grant
  by (simp add: validatePolicyShape_def validate_target_def live_safety_denied_def neither_null_nor_record_def isRecord_def
    sample_policy_def truthy_def stringArray_def map_filter_simps non_blank_def js_trim_def js_space_def
    autonomyRank_def AUTONOMY_ORDER_def isAutomatableAutonomyActionClass_def autonomyRiskTier_def AUTONOMY_RISK_TIER_BY_ACTION_CLASS_def)

lemma sample_match: "matchPolicy sample_platform sample_policy sample_action sample_contract (Some internal_run) (Some ''production'') = []"
proof -
  have "match_agent sample_policy sample_action = []"
    unfolding match_agent_def sample_grant option.case prod.case
    by (simp add: actionMetadata_def record_or_empty_def isRecord_def metadataString_def
      action_class_of_def sample_action_def sample_policy_def sample_contract_def actionClassForCapabilityName_def starts_with_def non_blank_def
      with_default_def js_trim_def js_space_def isAutomatableAutonomyActionClass_def autonomyRiskTier_def AUTONOMY_RISK_TIER_BY_ACTION_CLASS_def)
  moreover have "match_scope sample_policy sample_action sample_contract (Some internal_run) (Some ''production'') = []"
    using sample_grant
    by (simp add: match_scope_def sample_policy_def sample_action_def sample_contract_def set_and_differs_def truthy_def)
  moreover have "match_target_ref sample_platform sample_policy sample_action = []"
    by (simp add: match_target_ref_def sample_policy_def sample_action_def stringArray_def map_filter_simps with_default_def
      non_blank_def js_trim_def js_space_def Let_def)
  ultimately show ?thesis
    by (simp add: matchPolicy_def set_and_differs_def truthy_def metadataString_def actionPayload_def record_or_empty_def
      isRecord_def sample_action_def sample_policy_def)
qed

lemma sample_ceiling_allowed: "cd_reasons (policy_ceiling sample_ctx sample_action sample_contract policy_db sample_policy) = []"
proof -
  have "cd_allowed (policy_ceiling sample_ctx sample_action sample_contract policy_db sample_policy)"
    unfolding policy_ceiling_def ceiling_allowed_iff sample_loads
    by (simp add: scopes_present_def decision_levels_def enabled_ceilings_def policy_db_def ceiling_db_def sample_ceiling_def
      sample_ctx_def tenant_ceiling_def environment_ceiling_def capability_ceiling_def unset_or_is_def truthy_def
      requiredAutonomyForEffect_def sample_contract_def sample_policy_def autonomyAtLeast_def autonomyRank_def AUTONOMY_ORDER_def empty_db_def)
  then show ?thesis by (simp add: policy_ceiling_def ceiling_allowed_reasons)
qed

lemma sample_checks:
  "checkEvidence sample_policy sample_action [sample_evidence] = []"
  "checkEvaluation sample_policy None None = []"
  "evaluate_demotion sample_platform 10 sample_ctx sample_action sample_policy sample_contract [sample_evidence] None policy_db = []"
proof -
  show "checkEvidence sample_policy sample_action [sample_evidence] = []"
    using num_less_int [of 1 1]
    by (simp add: checkEvidence_def sample_policy_def record_or_empty_def isRecord_def stringArray_def with_default_def Let_def)
  show "checkEvaluation sample_policy None None = []"
    by (simp add: checkEvaluation_def low_confidence_def sample_policy_def record_or_empty_def isRecord_def stringArray_def
      set_and_differs_def truthy_def Let_def)
  show "evaluate_demotion sample_platform 10 sample_ctx sample_action sample_policy sample_contract [sample_evidence] None policy_db = []"
    using num_less_int [of 0 0]
    by (simp add: evaluate_demotion_def budgetConstraints_def number_or_def numberField_def with_default_def exceeds_reason_def exceeds_def
      scoped_actions_def rejected_approvals_def recent_tools_def with_status_def low_confidence_def cost_reasons_def cooldown_reasons_def
      sameActionScope_def sample_policy_def policy_db_def ceiling_db_def empty_db_def sample_evidence_def isRecord_def Let_def)
qed

lemma sample_reasons: "policy_reasons sample_platform 10 sample_ctx sample_action sample_contract (Some internal_run) policy_db sample_policy = []"
  by (rule policy_reasons_NilI) (simp_all only: sample_loads sample_shape sample_match sample_ceiling_allowed sample_checks fst_conv snd_conv)

lemma sample_tenant_policies: "tenant_policies sample_ctx policy_db = [sample_policy]"
  by (simp add: tenant_policies_def policy_db_def sample_policy_def sample_ctx_def)

lemma sample_approved:
  "pd_outcome (resolve_policy sample_platform 10 sample_ctx sample_action sample_contract (Some internal_run) policy_db) = PolicyApproved"
  by (subst resolve_eligible [OF sample_eligible])
     (simp_all add: sample_tenant_policies newest_policies_def sample_reasons policy_loop_find)

theorem policy_approval_safe_witness:
  "\<exists>policy\<in>set (db_policies policy_db). live_scope policy sample_action
     \<and> resolveActionEnvironment sample_action sample_policy = Some ''production''"
  using policy_approval_safe [OF sample_approved] sample_loads(4) by blast

theorem resolve_policy_newest_witness:
  "pd_outcome (resolve_policy sample_platform 10 sample_ctx sample_action sample_contract (Some internal_run) policy_db) = PolicyApproved"
  using resolve_policy_newest [OF sample_eligible, of sample_platform policy_db] sample_tenant_policies sample_reasons by simp

end
