(* ===== verification/ActionRequests.thy ===== *)
theory ActionRequests
  imports Policies
begin

section \<open>Action requests (action-request/ai-action-request.service.ts)\<close>

text \<open>
  The requests an agent leaves for approval: created from a mutation preview or by a provider under
  an idempotency key, bound to their input by a hash, and moved through their statuses.
\<close>

definition DEFAULT_PROVIDER_ACTION_TTL_MS :: int where
  "DEFAULT_PROVIDER_ACTION_TTL_MS = 30 * 60 * 1000"

definition PROVIDER_ACTION_RETRYABLE_TERMINAL_STATUSES :: "string list" where
  "PROVIDER_ACTION_RETRYABLE_TERMINAL_STATUSES = [''expired'', ''failed'', ''rejected'', ''dismissed'']"

record provider_seed =
  sd_runId :: "string option"
  sd_toolExecutionId :: "string option"
  sd_conversationId :: "string option"
  sd_userId :: "string option"
  sd_capabilityName :: string
  sd_capabilityVersion :: string
  sd_effect :: string
  sd_providerKind :: string
  sd_providerKey :: string
  sd_targetType :: string
  sd_targetId :: "string option"
  sd_targetRef :: string
  sd_actionPayload :: jsval
  sd_idempotencyKey :: string
  sd_evidenceIds :: "string list option"
  sd_inputSummary :: jsval
  sd_metadata :: jsval
  sd_expiresAt :: "int option"
  sd_retryAfterStatuses :: "string list option"

definition providerActionRetryableStatuses :: "provider_seed \<Rightarrow> string list" where
  "providerActionRetryableStatuses seed =
     PROVIDER_ACTION_RETRYABLE_TERMINAL_STATUSES
     @ map js_trim (filter non_blank (with_default [] (sd_retryAfterStatuses seed)))"

definition isRetryableTerminalProviderAction :: "ai_action_request \<Rightarrow> provider_seed \<Rightarrow> bool" where
  "isRetryableTerminalProviderAction action seed \<longleftrightarrow> act_status action \<in> set (providerActionRetryableStatuses seed)"

definition providerActionIsExpired :: "int \<Rightarrow> ai_action_request \<Rightarrow> bool" where
  "providerActionIsExpired now action \<longleftrightarrow>
     act_status action = ''pending'' \<and> (case act_expires_at action of None \<Rightarrow> False | Some t \<Rightarrow> t \<le> now)"

definition isMutationPreviewDto :: "jsval \<Rightarrow> bool" where
  "isMutationPreviewDto v \<longleftrightarrow>
     js_text_value (js_get v ''preview_id'') \<noteq> None \<and> js_text_value (js_get v ''tool_name'') \<noteq> None
     \<and> js_text_value (js_get v ''status'') \<noteq> None
     \<and> \<not> nullish (js_get v ''target'') \<and> \<not> nullish (js_get v ''changes'')"

definition mutationPreviewDtosFromCapabilityResult :: "jsval \<Rightarrow> jsval list" where
  "mutationPreviewDtosFromCapabilityResult result =
     (if isMutationPreviewDto result then [result]
      else case js_get result ''previews'' of JArr vs \<Rightarrow> filter isMutationPreviewDto vs | _ \<Rightarrow> [])"

subsection \<open>Input hashes\<close>

definition inputHashForPreview :: "platform \<Rightarrow> ai_mutation_preview \<Rightarrow> string" where
  "inputHashForPreview pf preview = hashStableJson pf (JObj
     [(''preview_id'', JStr (prev_id preview)),
      (''tool_name'', JStr (prev_tool_name preview)),
      (''mutation_input'', if nullish (prev_mutation_input preview) then JObj [] else prev_mutation_input preview)])"

record action_scope =
  sc_capabilityName :: string
  sc_capabilityVersion :: string
  sc_effect :: string
  sc_providerKind :: string
  sc_providerKey :: string
  sc_targetType :: string
  sc_targetId :: "string option"
  sc_targetRef :: string
  sc_actionPayload :: jsval
  sc_idempotencyKey :: string

definition scope_json :: "action_scope \<Rightarrow> jsval" where
  "scope_json sc = JObj
     [(''capability_name'', JStr (sc_capabilityName sc)),
      (''capability_version'', JStr (sc_capabilityVersion sc)),
      (''effect'', JStr (sc_effect sc)),
      (''provider_kind'', JStr (sc_providerKind sc)),
      (''provider_key'', JStr (sc_providerKey sc)),
      (''target_type'', JStr (sc_targetType sc)),
      (''target_id'', or_null (sc_targetId sc)),
      (''target_ref'', JStr (sc_targetRef sc)),
      (''action_payload'', sc_actionPayload sc),
      (''idempotency_key'', JStr (sc_idempotencyKey sc))]"

definition inputHashForProviderAction :: "platform \<Rightarrow> action_scope \<Rightarrow> string" where
  "inputHashForProviderAction pf sc = hashStableJson pf (scope_json sc)"

definition seed_scope :: "provider_seed \<Rightarrow> action_scope" where
  "seed_scope seed =
     \<lparr> sc_capabilityName = sd_capabilityName seed, sc_capabilityVersion = sd_capabilityVersion seed,
       sc_effect = sd_effect seed, sc_providerKind = sd_providerKind seed, sc_providerKey = sd_providerKey seed,
       sc_targetType = sd_targetType seed, sc_targetId = sd_targetId seed, sc_targetRef = sd_targetRef seed,
       sc_actionPayload = sd_actionPayload seed, sc_idempotencyKey = sd_idempotencyKey seed \<rparr>"

definition stored_scope :: "ai_action_request \<Rightarrow> action_scope" where
  "stored_scope a =
     \<lparr> sc_capabilityName = act_capability_name a, sc_capabilityVersion = act_capability_version a,
       sc_effect = act_effect a, sc_providerKind = with_default [] (act_provider_kind a),
       sc_providerKey = with_default [] (act_provider_key a), sc_targetType = with_default [] (act_target_type a),
       sc_targetId = act_target_id a, sc_targetRef = with_default [] (act_target_ref a),
       sc_actionPayload = (if nullish (act_action_payload_json a) then JObj [] else act_action_payload_json a),
       sc_idempotencyKey = with_default [] (act_idempotency_key a) \<rparr>"

text \<open>\<open>text.replace(/\r\n/g, '\n')\<close>.\<close>

fun unix_lines :: "string \<Rightarrow> string" where
  "unix_lines (c # d # s) =
     (if c = CHR 0x0D \<and> d = CHR 0x0A then CHR 0x0A # unix_lines s else c # unix_lines (d # s))"
| "unix_lines s = s"

definition providerActionIdempotencyKey :: "platform \<Rightarrow> string \<Rightarrow> string \<Rightarrow> string \<Rightarrow> string \<Rightarrow> string \<Rightarrow> string" where
  "providerActionIdempotencyKey pf tenantId providerKey ticketId noteBody capabilityVersion = hashStableJson pf (JObj
     [(''tenant_id'', JStr tenantId), (''provider_key'', JStr providerKey), (''ticket_id'', JStr ticketId),
      (''note_body'', JStr (js_trim (unix_lines noteBody))), (''capability_version'', JStr capabilityVersion)])"

definition retryProviderActionSeed :: "platform \<Rightarrow> provider_seed \<Rightarrow> ai_action_request \<Rightarrow> provider_seed" where
  "retryProviderActionSeed pf seed previousAction = seed\<lparr>
     sd_idempotencyKey := hashStableJson pf (JObj
       [(''original_idempotency_key'', JStr (sd_idempotencyKey seed)),
        (''retry_after_action_request_id'', JStr (act_id previousAction))]),
     sd_metadata := spread (sd_metadata seed) (JObj
       [(''retry_after_action_request_id'', JStr (act_id previousAction)),
        (''retry_after_action_status'', JStr (act_status previousAction))])\<rparr>"

subsection \<open>Requests for previews\<close>

definition getPreviewForAction :: "exec_context \<Rightarrow> string \<Rightarrow> ai_mutation_preview op" where
  "getPreviewForAction ctx previewId =
     obind (oread (\<lambda>s. List.find (\<lambda>p. prev_id p = previewId \<and> prev_tenant_id p = ctx_tenantId ctx
                                   \<and> prev_user_id p = ctx_userId ctx) (db_previews s))) (\<lambda>found.
       case found of
         None \<Rightarrow> othrow (NotFound ''AI mutation preview not found.'')
       | Some preview \<Rightarrow>
           oguard (truthy (ctx_conversationId ctx) \<and> prev_conversation_id preview \<noteq> ctx_conversationId ctx)
             (NotFound ''AI mutation preview not found for this conversation.'')
             (oret preview))"

record preview_opts =
  po_runId :: "string option"
  po_toolExecutionId :: "string option"
  po_capabilityName :: "string option"
  po_capabilityVersion :: "string option"
  po_effect :: "string option"
  po_evidenceIds :: "string list option"

text \<open>\<open>Array.from(new Set(xs))\<close>: the first occurrences, in order.\<close>

definition unique_texts :: "string list \<Rightarrow> string list" where
  "unique_texts xs = rev (remdups (rev xs))"

definition fill :: "string option \<Rightarrow> string option \<Rightarrow> bool" where
  "fill new_value old \<longleftrightarrow> truthy new_value \<and> \<not> truthy old"

definition replaces :: "string option \<Rightarrow> string \<Rightarrow> bool" where
  "replaces new_value old \<longleftrightarrow> truthy new_value \<and> Some old \<noteq> new_value"

definition adds_evidence :: "string list option \<Rightarrow> bool" where
  "adds_evidence ids \<longleftrightarrow> with_default [] ids \<noteq> []"

definition merged_evidence :: "string list option \<Rightarrow> string list option \<Rightarrow> string list option" where
  "merged_evidence old new_ids =
     (if adds_evidence new_ids then Some (unique_texts (with_default [] old @ with_default [] new_ids)) else old)"

definition merge_preview_opts :: "preview_opts \<Rightarrow> ai_action_request \<Rightarrow> ai_action_request" where
  "merge_preview_opts opts a = a\<lparr>
     act_run_id := (if fill (po_runId opts) (act_run_id a) then po_runId opts else act_run_id a),
     act_tool_execution_id := (if fill (po_toolExecutionId opts) (act_tool_execution_id a)
                               then po_toolExecutionId opts else act_tool_execution_id a),
     act_evidence_ids := merged_evidence (act_evidence_ids a) (po_evidenceIds opts),
     act_capability_name := (if replaces (po_capabilityName opts) (act_capability_name a)
                             then the (po_capabilityName opts) else act_capability_name a),
     act_capability_version := (if replaces (po_capabilityVersion opts) (act_capability_version a)
                                then the (po_capabilityVersion opts) else act_capability_version a),
     act_effect := (if replaces (po_effect opts) (act_effect a) then the (po_effect opts) else act_effect a)\<rparr>"

definition preview_opts_change :: "preview_opts \<Rightarrow> ai_action_request \<Rightarrow> bool" where
  "preview_opts_change opts a \<longleftrightarrow>
     fill (po_runId opts) (act_run_id a) \<or> fill (po_toolExecutionId opts) (act_tool_execution_id a)
     \<or> adds_evidence (po_evidenceIds opts) \<or> replaces (po_capabilityName opts) (act_capability_name a)
     \<or> replaces (po_capabilityVersion opts) (act_capability_version a) \<or> replaces (po_effect opts) (act_effect a)"

definition preview_action :: "platform \<Rightarrow> int \<Rightarrow> exec_context \<Rightarrow> preview_opts \<Rightarrow> ai_mutation_preview \<Rightarrow> string \<Rightarrow> ai_action_request" where
  "preview_action pf now ctx opts preview new_id =
     \<lparr> act_id = new_id,
       act_tenant_id = ctx_tenantId ctx,
       act_run_id = po_runId opts,
       act_tool_execution_id = po_toolExecutionId opts,
       act_conversation_id = or_else (prev_conversation_id preview) (ctx_conversationId ctx),
       act_user_id = Some (prev_user_id preview),
       act_preview_id = Some (prev_id preview),
       act_capability_name = with_default EXECUTE_APPROVED_PREVIEW_CAPABILITY (po_capabilityName opts),
       act_capability_version = with_default ''1.0.0'' (po_capabilityVersion opts),
       act_effect = with_default ''write'' (po_effect opts),
       act_status = (if prev_status preview = ''pending'' then ''pending'' else prev_status preview),
       act_target_type = Some (prev_target_entity_type preview),
       act_target_id = prev_target_entity_id preview,
       act_target_ref = prev_target_entity_id preview,
       act_idempotency_key = None,
       act_action_payload_json = JNull,
       act_provider_kind = None,
       act_provider_key = None,
       act_input_hash = inputHashForPreview pf preview,
       act_input_summary = JObj
         [(''preview_id'', JStr (prev_id preview)), (''tool_name'', JStr (prev_tool_name preview)),
          (''target_entity_type'', JStr (prev_target_entity_type preview)),
          (''target_entity_id'', or_null (prev_target_entity_id preview))],
       act_evidence_ids = po_evidenceIds opts,
       act_expires_at = Some (prev_expires_at preview),
       act_approved_at = prev_approved_at preview,
       act_rejected_at = prev_rejected_at preview,
       act_executed_at = prev_executed_at preview,
       act_error_message = prev_error_message preview,
       act_metadata_json = JNull,
       act_created_at = now,
       act_updated_at = now \<rparr>"

definition action_for_preview :: "exec_context \<Rightarrow> string \<Rightarrow> db \<Rightarrow> ai_action_request option" where
  "action_for_preview ctx previewId s =
     List.find (\<lambda>a. act_tenant_id a = ctx_tenantId ctx \<and> act_preview_id a = Some previewId) (db_actions s)"

definition ensureForPreview :: "platform \<Rightarrow> int \<Rightarrow> exec_context \<Rightarrow> string \<Rightarrow> preview_opts \<Rightarrow> ai_action_request op" where
  "ensureForPreview pf now ctx previewId opts =
     obind (getPreviewForAction ctx previewId) (\<lambda>preview.
     obind (oread (action_for_preview ctx (prev_id preview))) (\<lambda>existing.
       case existing of
         Some a \<Rightarrow>
           if preview_opts_change opts a then save_action ((merge_preview_opts opts a)\<lparr>act_updated_at := now\<rparr>)
           else oret a
       | None \<Rightarrow> obind (mint pf) (\<lambda>new_id. save_action (preview_action pf now ctx opts preview new_id))))"

definition ensureForPreviewDtos :: "platform \<Rightarrow> int \<Rightarrow> exec_context \<Rightarrow> jsval list \<Rightarrow> preview_opts \<Rightarrow> ai_action_request list op" where
  "ensureForPreviewDtos pf now ctx previews opts =
     omap (\<lambda>p. ensureForPreview pf now ctx (with_default [] (js_text_value (js_get p ''preview_id''))) opts) previews"

subsection \<open>Provider actions\<close>

definition find_provider_action :: "exec_context \<Rightarrow> provider_seed \<Rightarrow> db \<Rightarrow> ai_action_request option" where
  "find_provider_action ctx seed s =
     List.find (\<lambda>a. act_tenant_id a = ctx_tenantId ctx \<and> act_capability_name a = sd_capabilityName seed
       \<and> act_capability_version a = sd_capabilityVersion seed
       \<and> act_idempotency_key a = Some (sd_idempotencyKey seed)) (db_actions s)"

text \<open>\<open>normalizeExpiredPending(await findExisting(seed))\<close>.\<close>

definition find_normalized :: "int \<Rightarrow> exec_context \<Rightarrow> provider_seed \<Rightarrow> db \<Rightarrow> db \<times> ai_action_request option" where
  "find_normalized now ctx seed s =
     (case find_provider_action ctx seed s of
        None \<Rightarrow> (s, None)
      | Some a \<Rightarrow>
          if \<not> providerActionIsExpired now a then (s, Some a)
          else let a' = a\<lparr>act_status := ''expired'', act_updated_at := now\<rparr>
               in (s\<lparr>db_actions := save_row act_id a' (db_actions s)\<rparr>, Some a'))"

text \<open>
  The loop that looks for the first seed not yet used up by a terminal action.  It may run for
  ever if the hash of a retried seed leads back to an earlier key; \<open>None\<close> is not returning.
\<close>

partial_function (option) retry_loop ::
  "platform \<Rightarrow> int \<Rightarrow> exec_context \<Rightarrow> provider_seed \<Rightarrow> provider_seed \<Rightarrow> ai_action_request option \<Rightarrow> db
     \<Rightarrow> (db \<times> provider_seed \<times> ai_action_request option) option" where
  "retry_loop pf now ctx seed candidate existing s =
     (case existing of
        None \<Rightarrow> Some (s, candidate, None)
      | Some a \<Rightarrow>
          if isRetryableTerminalProviderAction a candidate
          then (let candidate' = retryProviderActionSeed pf seed a;
                    found = find_normalized now ctx candidate' s
                in retry_loop pf now ctx seed candidate' (snd found) (fst found))
          else Some (s, candidate, Some a))"

definition fill_from :: "string option \<Rightarrow> string option \<Rightarrow> string option" where
  "fill_from new_value old = (if fill new_value old then new_value else old)"

definition has_keys :: "jsval \<Rightarrow> bool" where
  "has_keys v \<longleftrightarrow> obj_entries v \<noteq> []"

definition merge_seed :: "provider_seed \<Rightarrow> ai_action_request \<Rightarrow> ai_action_request" where
  "merge_seed seed a = a\<lparr>
     act_run_id := fill_from (sd_runId seed) (act_run_id a),
     act_tool_execution_id := fill_from (sd_toolExecutionId seed) (act_tool_execution_id a),
     act_evidence_ids := merged_evidence (act_evidence_ids a) (sd_evidenceIds seed),
     act_metadata_json := (if has_keys (sd_metadata seed) then spread (act_metadata_json a) (sd_metadata seed)
                           else act_metadata_json a)\<rparr>"

definition seed_changes :: "provider_seed \<Rightarrow> ai_action_request \<Rightarrow> bool" where
  "seed_changes seed a \<longleftrightarrow>
     fill (sd_runId seed) (act_run_id a) \<or> fill (sd_toolExecutionId seed) (act_tool_execution_id a)
     \<or> adds_evidence (sd_evidenceIds seed) \<or> has_keys (sd_metadata seed)"

definition mergeExistingProviderAction ::
  "platform \<Rightarrow> int \<Rightarrow> ai_action_request \<Rightarrow> provider_seed \<Rightarrow> ai_action_request op" where
  "mergeExistingProviderAction pf now existing seed =
     (let expectedHash = inputHashForProviderAction pf (stored_scope existing) in
      oguard (act_input_hash existing \<noteq> expectedHash \<or> expectedHash \<noteq> inputHashForProviderAction pf (seed_scope seed))
        (BadRequest ''Existing provider action request failed input-hash verification.'')
        (if \<not> seed_changes seed existing then oret existing
         else save_action ((merge_seed seed existing)\<lparr>act_updated_at := now\<rparr>)))"

definition seed_summary :: "provider_seed \<Rightarrow> jsval" where
  "seed_summary seed =
     (if \<not> nullish (sd_inputSummary seed) then sd_inputSummary seed
      else JObj [(''provider_kind'', JStr (sd_providerKind seed)), (''provider_key'', JStr (sd_providerKey seed)),
                 (''target_type'', JStr (sd_targetType seed)), (''target_ref'', JStr (sd_targetRef seed)),
                 (''effect'', JStr (sd_effect seed))])"

definition provider_action :: "platform \<Rightarrow> int \<Rightarrow> exec_context \<Rightarrow> provider_seed \<Rightarrow> string \<Rightarrow> ai_action_request" where
  "provider_action pf now ctx seed new_id =
     \<lparr> act_id = new_id,
       act_tenant_id = ctx_tenantId ctx,
       act_run_id = sd_runId seed,
       act_tool_execution_id = sd_toolExecutionId seed,
       act_conversation_id = or_else (sd_conversationId seed) (ctx_conversationId ctx),
       act_user_id = or_else (sd_userId seed) (Some (ctx_userId ctx)),
       act_preview_id = None,
       act_capability_name = sd_capabilityName seed,
       act_capability_version = sd_capabilityVersion seed,
       act_effect = sd_effect seed,
       act_status = ''pending'',
       act_target_type = Some (sd_targetType seed),
       act_target_id = sd_targetId seed,
       act_target_ref = Some (sd_targetRef seed),
       act_idempotency_key = Some (sd_idempotencyKey seed),
       act_action_payload_json = sd_actionPayload seed,
       act_provider_kind = Some (sd_providerKind seed),
       act_provider_key = Some (sd_providerKey seed),
       act_input_hash = inputHashForProviderAction pf (seed_scope seed),
       act_input_summary = seed_summary seed,
       act_evidence_ids = sd_evidenceIds seed,
       act_expires_at = Some (with_default (now + DEFAULT_PROVIDER_ACTION_TTL_MS) (sd_expiresAt seed)),
       act_approved_at = None,
       act_rejected_at = None,
       act_executed_at = None,
       act_error_message = None,
       act_metadata_json = null_if_undef (sd_metadata seed),
       act_created_at = now,
       act_updated_at = now \<rparr>"

text \<open>
  The insert, with what a concurrent transaction may have committed since the lookup: \<open>racer\<close>.
  The unique index on tenant, capability, version and idempotency key refuses a second row.
\<close>

definition same_key :: "ai_action_request \<Rightarrow> ai_action_request \<Rightarrow> bool" where
  "same_key a b \<longleftrightarrow> act_tenant_id a = act_tenant_id b \<and> act_capability_name a = act_capability_name b
     \<and> act_capability_version a = act_capability_version b \<and> act_idempotency_key a = act_idempotency_key b
     \<and> act_idempotency_key a \<noteq> None"

definition insert_action :: "ai_action_request option \<Rightarrow> ai_action_request \<Rightarrow> ai_action_request op" where
  "insert_action racer a = (\<lambda>s.
     let s' = (case racer of None \<Rightarrow> s | Some r \<Rightarrow> s\<lparr>db_actions := db_actions s @ [r]\<rparr>) in
     if list_ex (same_key a) (db_actions s') then (s', Inl UniqueViolation) else save_action a s')"

definition create_provider_action ::
  "platform \<Rightarrow> int \<Rightarrow> exec_context \<Rightarrow> ai_action_request option \<Rightarrow> provider_seed \<Rightarrow> ai_action_request op" where
  "create_provider_action pf now ctx racer seed =
     obind (mint pf) (\<lambda>new_id.
       otry (insert_action racer (provider_action pf now ctx seed new_id)) (\<lambda>err.
         if err \<noteq> UniqueViolation then othrow err
         else obind (oread (find_provider_action ctx seed)) (\<lambda>concurrentExisting.
           case concurrentExisting of
             None \<Rightarrow> othrow err
           | Some a \<Rightarrow> mergeExistingProviderAction pf now a seed)))"

definition createOrEnsureProviderAction ::
  "platform \<Rightarrow> int \<Rightarrow> exec_context \<Rightarrow> ai_action_request option \<Rightarrow> provider_seed \<Rightarrow> db
     \<Rightarrow> (db \<times> (ai_error + ai_action_request)) option" where
  "createOrEnsureProviderAction pf now ctx racer seed s =
     (if ctx_tenantId ctx = [] then Some (s, Inl (Forbidden ''Tenant context is required for provider action requests.''))
      else let found = find_normalized now ctx seed s in
        case retry_loop pf now ctx seed seed (snd found) (fst found) of
          None \<Rightarrow> None
        | Some (s', candidate, Some a) \<Rightarrow> Some (mergeExistingProviderAction pf now a candidate s')
        | Some (s', candidate, None) \<Rightarrow> Some (create_provider_action pf now ctx racer candidate s'))"

definition findProviderActionForExecution :: "exec_context \<Rightarrow> string \<Rightarrow> ai_action_request op" where
  "findProviderActionForExecution ctx actionRequestId =
     obind (oread (\<lambda>s. List.find (\<lambda>a. act_id a = actionRequestId \<and> act_tenant_id a = ctx_tenantId ctx) (db_actions s))) (\<lambda>found.
       case found of None \<Rightarrow> othrow (NotFound ''AI action request not found.'') | Some a \<Rightarrow> oret a)"

definition execution_scope :: "ai_action_request \<Rightarrow> action_scope" where
  "execution_scope a =
     \<lparr> sc_capabilityName = act_capability_name a, sc_capabilityVersion = act_capability_version a,
       sc_effect = act_effect a, sc_providerKind = the (act_provider_kind a), sc_providerKey = the (act_provider_key a),
       sc_targetType = the (act_target_type a), sc_targetId = act_target_id a, sc_targetRef = the (act_target_ref a),
       sc_actionPayload = act_action_payload_json a, sc_idempotencyKey = the (act_idempotency_key a) \<rparr>"

definition verifyProviderActionIntegrity :: "platform \<Rightarrow> ai_action_request \<Rightarrow> unit op" where
  "verifyProviderActionIntegrity pf a =
     oguard (\<not> truthy (act_idempotency_key a) \<or> \<not> truthy (act_provider_kind a) \<or> \<not> truthy (act_provider_key a)
             \<or> \<not> truthy (act_target_type a) \<or> \<not> truthy (act_target_ref a) \<or> nullish (act_action_payload_json a))
       (Forbidden ''Provider action request is incomplete.'')
    (oguard (inputHashForProviderAction pf (execution_scope a) \<noteq> act_input_hash a)
       (Forbidden ''Provider action request payload no longer matches its approval scope.'')
    (oret ()))"

subsection \<open>Evidence, decisions and statuses\<close>

definition find_tenant_action :: "exec_context \<Rightarrow> string \<Rightarrow> db \<Rightarrow> ai_action_request option" where
  "find_tenant_action ctx k s = List.find (\<lambda>a. act_id a = k \<and> act_tenant_id a = ctx_tenantId ctx) (db_actions s)"

definition addEvidenceIds :: "int \<Rightarrow> exec_context \<Rightarrow> string \<Rightarrow> string list \<Rightarrow> ai_action_request option op" where
  "addEvidenceIds now ctx actionRequestId evidenceIds =
     (if evidenceIds = [] then oret None
      else obind (oread (find_tenant_action ctx actionRequestId)) (\<lambda>found.
        case found of
          None \<Rightarrow> oret None
        | Some a \<Rightarrow> obind (save_action (a\<lparr>act_evidence_ids := Some (unique_texts (with_default [] (act_evidence_ids a) @ evidenceIds)),
                                        act_updated_at := now\<rparr>)) (\<lambda>saved. oret (Some saved))))"

fun outcome_text :: "policy_outcome \<Rightarrow> string" where
  "outcome_text HumanRequired = ''human_required''"
| "outcome_text PolicyApproved = ''policy_approved''"
| "outcome_text SystemRejected = ''system_rejected''"

definition reason_json :: "reason \<Rightarrow> jsval" where
  "reason_json r = JObj ((case r_severity r of None \<Rightarrow> [] | Some v \<Rightarrow> [(''severity'', JStr v)])
     @ [(''code'', JStr (r_code r)), (''detail'', JStr (r_detail r))])"

text \<open>A decision as the JSON value stored for it; a refused decision has no matched policy.\<close>

definition decision_json :: "policy_decision \<Rightarrow> jsval" where
  "decision_json d = JObj
     ([(''outcome'', JStr (outcome_text (pd_outcome d))), (''approved'', JBool (pd_approved d)),
       (''reasons'', JArr (map reason_json (pd_reasons d)))]
      @ (if pd_approved d
         then [(''matched_policy_id'', or_null (pd_matched_policy_id d)), (''matched_policy_key'', or_null (pd_matched_policy_key d)),
               (''matched_policy_version'', case pd_matched_policy_version d of None \<Rightarrow> JNull | Some v \<Rightarrow> JNum (int_num v)),
               (''effective_autonomy_level'', or_null (pd_effective_autonomy_level d)),
               (''required_autonomy_level'', or_null (pd_required_autonomy_level d)),
               (''autonomy_components'', JObj (map (\<lambda>(k, v). (k, or_null v)) (pd_autonomy_components d))),
               (''evidence_ids'', JArr (map JStr (pd_evidence_ids d)))]
         else [])
      @ [(''surface'', or_null (pd_surface d)), (''trigger_kind'', or_null (pd_trigger_kind d))])"

definition recordPolicyDecision :: "int \<Rightarrow> ai_action_request \<Rightarrow> policy_decision \<Rightarrow> ai_action_request op" where
  "recordPolicyDecision now a decision = save_action (a\<lparr>
     act_metadata_json := spread (act_metadata_json a) (JObj [(''policy_decision'', decision_json decision)]),
     act_updated_at := now\<rparr>)"

definition DAY_MILLIS :: int where "DAY_MILLIS = 86400000"

text \<open>\<open>date.toISOString()\<close>.\<close>

definition iso_instant :: "int \<Rightarrow> string" where
  "iso_instant t = (let ms = t mod DAY_MILLIS in
     iso_day (t div DAY_MILLIS) @ ''T'' @ two_digits (ms div 3600000) @ '':'' @ two_digits (ms div 60000 mod 60) @ '':''
       @ two_digits (ms div 1000 mod 60) @ ''.'' @ pad_start 3 (CHR ''0'') (show_int (ms mod 1000)) @ ''Z'')"

definition evaluation_outcome :: "string \<Rightarrow> string option \<Rightarrow> string option" where
  "evaluation_outcome status old =
     (if status = ''executed'' then Some ''provider_action_executed''
      else if status = ''rejected'' then Some ''provider_action_rejected''
      else if status = ''expired'' then Some ''provider_action_expired_unreviewed''
      else if status = ''dismissed'' then Some ''provider_action_dismissed''
      else if status = ''failed'' then Some ''provider_action_failed''
      else old)"

definition evaluated :: "int \<Rightarrow> ai_action_request \<Rightarrow> string \<Rightarrow> string option \<Rightarrow> ai_evaluation \<Rightarrow> ai_evaluation" where
  "evaluated now a status errorMessage e = e\<lparr>
     eval_status := (if status \<in> {''executed'', ''rejected'', ''expired'', ''dismissed''} then ''completed'' else ''pending''),
     eval_outcome := evaluation_outcome status (eval_outcome e),
     eval_feedback_json := spread (eval_feedback_json e) (JObj [(''provider_action'', JObj
       [(''action_request_id'', JStr (act_id a)), (''status'', JStr status), (''error_message'', or_null errorMessage),
        (''executed_at'', or_null (map_option iso_instant (act_executed_at a))),
        (''result'', if isRecord (js_get (act_metadata_json a) ''provider_result'')
                     then js_get (act_metadata_json a) ''provider_result'' else JNull)])]),
     eval_updated_at := now\<rparr>"

definition linked_evaluation :: "exec_context \<Rightarrow> ai_action_request \<Rightarrow> db \<Rightarrow> ai_evaluation option" where
  "linked_evaluation ctx a s =
     (case metadataString (act_metadata_json a) ''evaluation_id'' of
        None \<Rightarrow> None
      | Some k \<Rightarrow> List.find (\<lambda>e. eval_id e = k \<and> eval_tenant_id e = ctx_tenantId ctx) (db_evaluations s))"

definition updateLinkedEvaluation :: "int \<Rightarrow> exec_context \<Rightarrow> ai_action_request \<Rightarrow> string \<Rightarrow> string option \<Rightarrow> unit op" where
  "updateLinkedEvaluation now ctx a status errorMessage =
     obind (oread (linked_evaluation ctx a)) (\<lambda>found.
       case found of
         None \<Rightarrow> oret ()
       | Some e \<Rightarrow> obind (save_evaluation (evaluated now a status errorMessage e)) (\<lambda>_. oret ()))"

definition save_and_evaluate :: "int \<Rightarrow> exec_context \<Rightarrow> ai_action_request \<Rightarrow> string \<Rightarrow> string option \<Rightarrow> ai_action_request op" where
  "save_and_evaluate now ctx a status errorMessage =
     obind (save_action a) (\<lambda>saved. obind (updateLinkedEvaluation now ctx saved status errorMessage) (\<lambda>_. oret saved))"

definition markApproved :: "int \<Rightarrow> ai_action_request \<Rightarrow> int option option \<Rightarrow> ai_action_request op" where
  "markApproved now a expiresAt = save_action (a\<lparr>
     act_status := ''approved'', act_approved_at := Some now,
     act_expires_at := (case expiresAt of None \<Rightarrow> act_expires_at a | Some e \<Rightarrow> e),
     act_updated_at := now\<rparr>)"

definition EXPIRED_REASON :: string where
  "EXPIRED_REASON = ''Action request expired before approval or execution.''"

definition expired_action :: "int \<Rightarrow> ai_action_request \<Rightarrow> ai_action_request" where
  "expired_action now a = a\<lparr>act_status := ''expired'', act_error_message := Some EXPIRED_REASON, act_updated_at := now\<rparr>"

definition markExpired :: "int \<Rightarrow> exec_context \<Rightarrow> ai_action_request \<Rightarrow> ai_action_request op" where
  "markExpired now ctx a = save_and_evaluate now ctx (expired_action now a) ''expired'' (Some EXPIRED_REASON)"

definition markRejected :: "int \<Rightarrow> exec_context \<Rightarrow> ai_action_request \<Rightarrow> string option \<Rightarrow> ai_action_request op" where
  "markRejected now ctx a why = save_and_evaluate now ctx
     (a\<lparr>act_status := ''rejected'', act_rejected_at := Some now, act_error_message := why, act_updated_at := now\<rparr>) ''rejected'' why"

definition markDismissed :: "int \<Rightarrow> exec_context \<Rightarrow> ai_action_request \<Rightarrow> string option \<Rightarrow> ai_action_request op" where
  "markDismissed now ctx a why = save_and_evaluate now ctx
     (a\<lparr>act_status := ''dismissed'', act_error_message := why, act_updated_at := now\<rparr>) ''dismissed'' why"

definition markExecuted :: "int \<Rightarrow> exec_context \<Rightarrow> ai_action_request \<Rightarrow> string \<Rightarrow> string option \<Rightarrow> ai_action_request op" where
  "markExecuted now ctx a status errorMessage = save_and_evaluate now ctx
     (a\<lparr>act_status := status,
        act_executed_at := (if status = ''executed'' then Some now else act_executed_at a),
        act_error_message := errorMessage, act_updated_at := now\<rparr>) status errorMessage"

section \<open>Lemmas on provider actions\<close>

subsection \<open>Lookups by key\<close>

definition lookup :: "exec_context \<Rightarrow> provider_seed \<Rightarrow> string \<Rightarrow> db \<Rightarrow> ai_action_request option" where
  "lookup ctx seed k s = find_provider_action ctx (seed\<lparr>sd_idempotencyKey := k\<rparr>) s"

definition variant :: "provider_seed \<Rightarrow> provider_seed \<Rightarrow> bool" where
  "variant seed c \<longleftrightarrow> (\<exists>k m. c = seed\<lparr>sd_idempotencyKey := k, sd_metadata := m\<rparr>)"

definition retry_key :: "platform \<Rightarrow> provider_seed \<Rightarrow> string \<Rightarrow> string" where
  "retry_key pf seed k = hashStableJson pf (JObj
     [(''original_idempotency_key'', JStr (sd_idempotencyKey seed)), (''retry_after_action_request_id'', JStr k)])"

definition retryable :: "provider_seed \<Rightarrow> ai_action_request \<Rightarrow> bool" where
  "retryable seed a \<longleftrightarrow> isRetryableTerminalProviderAction a seed"

lemma variant_refl [simp]: "variant seed seed"
  unfolding variant_def by (intro exI [of _ "sd_idempotencyKey seed"] exI [of _ "sd_metadata seed"]) simp

lemma variant_retry [simp]: "variant seed (retryProviderActionSeed pf seed a)"
  by (auto simp: variant_def retryProviderActionSeed_def)

lemma retry_seed_key [simp]: "sd_idempotencyKey (retryProviderActionSeed pf seed a) = retry_key pf seed (act_id a)"
  by (simp add: retryProviderActionSeed_def retry_key_def)

lemma variant_find: "variant seed c \<Longrightarrow> find_provider_action ctx c s = lookup ctx seed (sd_idempotencyKey c) s"
  by (auto simp: variant_def lookup_def find_provider_action_def)

lemma variant_retryable: "variant seed c \<Longrightarrow> isRetryableTerminalProviderAction a c = retryable seed a"
  by (auto simp: variant_def retryable_def isRetryableTerminalProviderAction_def providerActionRetryableStatuses_def)

lemma variant_same_key: "variant seed c \<Longrightarrow> variant seed d \<Longrightarrow> sd_idempotencyKey c = sd_idempotencyKey d \<Longrightarrow> seed_scope c = seed_scope d"
  by (auto simp: variant_def seed_scope_def)

lemma lookup_Some: "lookup ctx seed k s = Some a \<Longrightarrow> a \<in> set (db_actions s) \<and> act_tenant_id a = ctx_tenantId ctx
    \<and> act_capability_name a = sd_capabilityName seed \<and> act_capability_version a = sd_capabilityVersion seed
    \<and> act_idempotency_key a = Some k"
  by (auto simp: lookup_def find_provider_action_def find_Some_iff)

lemma retryable_expired [simp]: "act_status a = ''expired'' \<Longrightarrow> retryable seed a"
  by (simp add: retryable_def isRetryableTerminalProviderAction_def providerActionRetryableStatuses_def
    PROVIDER_ACTION_RETRYABLE_TERMINAL_STATUSES_def)

lemma find_save_row:
  assumes "distinct (map i rows)" "b \<in> set rows" "i b' = i b" "P b' = P b"
  shows "List.find P (save_row i b' rows) = map_option (\<lambda>x. if i x = i b then b' else x) (List.find P rows)"
proof -
  have save: "save_row i b' rows = map (\<lambda>x. if i x = i b then b' else x) rows"
    using assms(2,3) by (auto simp: save_row_def)
  have "P (if i x = i b then b' else x) = P x" if "x \<in> set rows" for x
    using assms that by (auto simp: distinct_map inj_on_def)
  then have "List.find P (map (\<lambda>x. if i x = i b then b' else x) rows) = map_option (\<lambda>x. if i x = i b then b' else x) (List.find P rows)"
    by (induction rows) auto
  with save show ?thesis by simp
qed

lemma lookup_save:
  assumes "distinct (map act_id (db_actions s))" "b \<in> set (db_actions s)" "act_id b' = act_id b"
    "act_tenant_id b' = act_tenant_id b" "act_capability_name b' = act_capability_name b"
    "act_capability_version b' = act_capability_version b" "act_idempotency_key b' = act_idempotency_key b"
  shows "lookup ctx seed k (s\<lparr>db_actions := save_row act_id b' (db_actions s)\<rparr>) =
     map_option (\<lambda>x. if act_id x = act_id b then b' else x) (lookup ctx seed k s)"
  using assms by (simp add: lookup_def find_provider_action_def find_save_row)

subsection \<open>The chain of retried keys\<close>

text \<open>\<open>chain k k'\<close>: from key \<open>k\<close> the loop passes only terminal actions on its way to \<open>k'\<close>.\<close>

inductive chain :: "platform \<Rightarrow> exec_context \<Rightarrow> provider_seed \<Rightarrow> db \<Rightarrow> string \<Rightarrow> string \<Rightarrow> bool"
  for pf :: platform and ctx :: exec_context and seed :: provider_seed and s :: db where
  chain_refl: "chain pf ctx seed s k k"
| chain_step: "lookup ctx seed k s = Some a \<Longrightarrow> retryable seed a \<Longrightarrow> chain pf ctx seed s (retry_key pf seed (act_id a)) c \<Longrightarrow>
    chain pf ctx seed s k c"

lemma chain_mono:
  assumes "chain pf ctx seed s k c"
    and "\<And>k a. lookup ctx seed k s = Some a \<Longrightarrow> retryable seed a \<Longrightarrow>
           \<exists>a'. lookup ctx seed k s' = Some a' \<and> act_id a' = act_id a \<and> retryable seed a'"
  shows "chain pf ctx seed s' k c"
  using assms(1)
proof (induction rule: chain.induct)
  case (chain_step k a c)
  then show ?case using assms(2) by (metis chain.chain_step)
qed (rule chain.chain_refl)

text \<open>What normalising an expired action changes: the status of that action.\<close>

definition action_key :: "ai_action_request \<Rightarrow> string \<times> string option" where
  "action_key a = (act_id a, act_idempotency_key a)"

definition normalized_from :: "db \<Rightarrow> db \<Rightarrow> bool" where
  "normalized_from s s' \<longleftrightarrow> db_minted s' = db_minted s \<and> map act_id (db_actions s') = map act_id (db_actions s)
     \<and> map action_key (db_actions s') = map action_key (db_actions s)
     \<and> (\<forall>ctx seed k a. lookup ctx seed k s = Some a \<longrightarrow>
          (\<exists>a'. lookup ctx seed k s' = Some a' \<and> act_id a' = act_id a \<and> (retryable seed a \<longrightarrow> retryable seed a')))
     \<and> (\<forall>ctx seed k. lookup ctx seed k s = None \<longrightarrow> lookup ctx seed k s' = None)"

lemma normalized_from_refl [simp]: "normalized_from s s"
  by (simp add: normalized_from_def)

lemma normalized_from_trans: "normalized_from s s' \<Longrightarrow> normalized_from s' s'' \<Longrightarrow> normalized_from s s''"
  unfolding normalized_from_def by (metis (no_types, lifting))

lemma save_row_map:
  assumes "distinct (map i rows)" "b \<in> set rows" "i b' = i b" "f b' = f b"
  shows "map f (save_row i b' rows) = map f rows"
proof -
  have "f (if i x = i b then b' else x) = f x" if "x \<in> set rows" for x
    using assms that by (auto simp: distinct_map inj_on_def)
  then show ?thesis using assms(2,3) by (auto simp: save_row_def)
qed

lemma save_row_ids: "b \<in> set rows \<Longrightarrow> i b' = i b \<Longrightarrow> map i (save_row i b' rows) = map i rows"
  by (auto simp: save_row_def)

lemma find_normalized_spec:
  assumes ids: "distinct (map act_id (db_actions s))" and v: "variant seed c"
  shows "normalized_from s (fst (find_normalized now ctx c s))
    \<and> snd (find_normalized now ctx c s) = lookup ctx seed (sd_idempotencyKey c) (fst (find_normalized now ctx c s))
    \<and> pred_option (\<lambda>a. \<not> providerActionIsExpired now a) (snd (find_normalized now ctx c s))"
proof (cases "lookup ctx seed (sd_idempotencyKey c) s")
  case None
  then show ?thesis by (simp add: find_normalized_def variant_find [OF v])
next
  case (Some a)
  note found = lookup_Some [OF Some]
  show ?thesis
  proof (cases "providerActionIsExpired now a")
    case False
    with Some show ?thesis by (simp add: find_normalized_def variant_find [OF v])
  next
    case True
    let ?a = "a\<lparr>act_status := ''expired'', act_updated_at := now\<rparr>"
    let ?s = "s\<lparr>db_actions := save_row act_id ?a (db_actions s)\<rparr>"
    have run: "find_normalized now ctx c s = (?s, Some ?a)"
      using Some True by (simp add: find_normalized_def variant_find [OF v] Let_def)
    have look: "lookup ctx' seed' k ?s = map_option (\<lambda>x. if act_id x = act_id a then ?a else x) (lookup ctx' seed' k s)"
      for ctx' seed' k using ids found by (simp add: lookup_save [where b = a])
    have "normalized_from s ?s"
      using found save_row_map [OF ids, of a ?a action_key]
      by (auto simp: normalized_from_def look save_row_ids [where b = a] action_key_def)
    moreover have "lookup ctx seed (sd_idempotencyKey c) ?s = Some ?a" by (simp only: look Some) simp
    moreover have "\<not> providerActionIsExpired now ?a" by (simp add: providerActionIsExpired_def)
    ultimately show ?thesis by (simp add: run)
  qed
qed

lemma retry_loop_spec:
  assumes "retry_loop pf now ctx seed c existing s = Some (s', d, e)"
    and "distinct (map act_id (db_actions s))" "variant seed c"
    and "existing = lookup ctx seed (sd_idempotencyKey c) s" "pred_option (\<lambda>a. \<not> providerActionIsExpired now a) existing"
  shows "normalized_from s s' \<and> variant seed d \<and> chain pf ctx seed s' (sd_idempotencyKey c) (sd_idempotencyKey d)
    \<and> e = lookup ctx seed (sd_idempotencyKey d) s' \<and> pred_option (\<lambda>a. \<not> providerActionIsExpired now a \<and> \<not> retryable seed a) e"
proof -
  have "\<forall>r. retry_loop pf now ctx seed c existing s = Some r \<longrightarrow> (case r of (s', d, e) \<Rightarrow>
      distinct (map act_id (db_actions s)) \<longrightarrow> variant seed c \<longrightarrow> existing = lookup ctx seed (sd_idempotencyKey c) s \<longrightarrow>
      pred_option (\<lambda>a. \<not> providerActionIsExpired now a) existing \<longrightarrow>
      normalized_from s s' \<and> variant seed d \<and> chain pf ctx seed s' (sd_idempotencyKey c) (sd_idempotencyKey d)
      \<and> e = lookup ctx seed (sd_idempotencyKey d) s' \<and> pred_option (\<lambda>a. \<not> providerActionIsExpired now a \<and> \<not> retryable seed a) e)"
  proof (intro allI impI, erule retry_loop.raw_induct [rotated], goal_cases)
    case (1 r f pf now ctx seed c existing s r')
    obtain s' d e where r': "r' = (s', d, e)" by (cases r')
    show ?case unfolding r' prod.case
    proof (intro impI)
      assume ids: "distinct (map act_id (db_actions s))" and v: "variant seed c"
        and ex: "existing = lookup ctx seed (sd_idempotencyKey c) s"
        and live: "pred_option (\<lambda>a. \<not> providerActionIsExpired now a) existing"
      show "normalized_from s s' \<and> variant seed d \<and> chain pf ctx seed s' (sd_idempotencyKey c) (sd_idempotencyKey d)
        \<and> e = lookup ctx seed (sd_idempotencyKey d) s' \<and> pred_option (\<lambda>a. \<not> providerActionIsExpired now a \<and> \<not> retryable seed a) e"
      proof (cases existing)
        case None
        with 1(2) r' v ex show ?thesis by (auto intro: chain.chain_refl)
      next
        case (Some a)
        show ?thesis
        proof (cases "retryable seed a")
          case False
          from Some ex have l: "lookup ctx seed (sd_idempotencyKey c) s = Some a" by simp
          from 1(2) False r' v live Some have "s' = s" "d = c" "e = Some a" "\<not> providerActionIsExpired now a"
            by (auto simp: variant_retryable)
          with l v False show ?thesis by (auto intro: chain.chain_refl)
        next
          case True
          let ?c = "retryProviderActionSeed pf seed a"
          let ?f = "find_normalized now ctx ?c s"
          have n: "normalized_from s (fst ?f) \<and> snd ?f = lookup ctx seed (sd_idempotencyKey ?c) (fst ?f)
             \<and> pred_option (\<lambda>a. \<not> providerActionIsExpired now a) (snd ?f)"
            by (rule find_normalized_spec [OF ids variant_retry])
          from 1(2) Some True r' have "f pf now ctx seed ?c (snd ?f) (fst ?f) = Some (s', d, e)"
            by (simp add: variant_retryable [OF v] Let_def)
          note call = this
          have ids': "distinct (map act_id (db_actions (fst ?f)))" using n ids by (simp only: normalized_from_def)
          have rest: "normalized_from (fst ?f) s' \<and> variant seed d
            \<and> chain pf ctx seed s' (sd_idempotencyKey ?c) (sd_idempotencyKey d)
            \<and> e = lookup ctx seed (sd_idempotencyKey d) s'
            \<and> pred_option (\<lambda>a. \<not> providerActionIsExpired now a \<and> \<not> retryable seed a) e"
            using 1(1) [OF call, unfolded prod.case] ids' n variant_retry by blast
          have norm: "normalized_from s s'" using n rest normalized_from_trans by blast
          then obtain a' where "lookup ctx seed (sd_idempotencyKey c) s' = Some a'" "act_id a' = act_id a" "retryable seed a'"
            using Some ex True unfolding normalized_from_def by metis
          then have "chain pf ctx seed s' (sd_idempotencyKey c) (sd_idempotencyKey d)"
            using rest by (metis chain.chain_step retry_seed_key)
          with norm rest show ?thesis by blast
        qed
      qed
    qed
  qed
  with assms show ?thesis by blast
qed

subsection \<open>The loop returns\<close>

text \<open>
  SHA-256 does not collide on the keys of one request: distinct actions give distinct retry keys,
  none of them the original key.
\<close>

definition collision_free :: "platform \<Rightarrow> provider_seed \<Rightarrow> bool" where
  "collision_free pf seed \<longleftrightarrow> inj (retry_key pf seed) \<and> sd_idempotencyKey seed \<notin> range (retry_key pf seed)"

definition key_of :: "db \<Rightarrow> string \<Rightarrow> string option option" where
  "key_of s k = map_of (map action_key (db_actions s)) k"

text \<open>The actions passed so far: each holds the key retried after the one before it.\<close>

definition next_key :: "platform \<Rightarrow> provider_seed \<Rightarrow> string list \<Rightarrow> string" where
  "next_key pf seed vs = (if vs = [] then sd_idempotencyKey seed else retry_key pf seed (last vs))"

definition visited :: "platform \<Rightarrow> provider_seed \<Rightarrow> db \<Rightarrow> string list \<Rightarrow> bool" where
  "visited pf seed s vs \<longleftrightarrow> distinct vs \<and> set vs \<subseteq> act_id ` set (db_actions s)
     \<and> (\<forall>j<length vs. key_of s (vs ! j) = Some (Some (next_key pf seed (take j vs))))"

lemma key_of_row: "distinct (map act_id (db_actions s)) \<Longrightarrow> a \<in> set (db_actions s) \<Longrightarrow> key_of s (act_id a) = Some (act_idempotency_key a)"
  unfolding key_of_def by (rule map_of_is_SomeI) (auto simp: comp_def action_key_def)

lemma visited_fresh:
  assumes free: "collision_free pf seed" and v: "visited pf seed s vs" and k: "key_of s x = Some (Some (next_key pf seed vs))"
  shows "x \<notin> set vs"
proof
  assume "x \<in> set vs"
  then obtain j where j: "j < length vs" "vs ! j = x" by (auto simp: in_set_conv_nth)
  with v k have eq: "next_key pf seed (take j vs) = next_key pf seed vs" by (auto simp: visited_def)
  from j have ne: "vs \<noteq> []" by auto
  show False
  proof (cases j)
    case 0
    with eq ne free show False by (auto simp: next_key_def collision_free_def)
  next
    case (Suc i)
    then have "last (take j vs) = vs ! i" using j by (simp add: take_Suc_conv_app_nth)
    with eq ne Suc have "retry_key pf seed (vs ! i) = retry_key pf seed (vs ! (length vs - 1))"
      by (simp add: next_key_def last_conv_nth)
    with free have "vs ! i = vs ! (length vs - 1)" by (simp add: collision_free_def inj_eq)
    with v j Suc show False by (simp add: visited_def nth_eq_iff_index_eq)
  qed
qed

lemma visited_snoc:
  assumes "visited pf seed s vs" "x \<notin> set vs" "x \<in> act_id ` set (db_actions s)"
    "key_of s x = Some (Some (next_key pf seed vs))"
  shows "visited pf seed s (vs @ [x])"
  using assms by (auto simp: visited_def nth_append less_Suc_eq)

lemma visited_bound: "visited pf seed s vs \<Longrightarrow> length vs \<le> length (db_actions s)"
proof -
  assume v: "visited pf seed s vs"
  then have "length vs = card (set vs)" by (simp add: visited_def distinct_card)
  also have "\<dots> \<le> card (act_id ` set (db_actions s))" using v by (intro card_mono) (auto simp: visited_def)
  also have "\<dots> \<le> length (db_actions s)" using card_image_le card_length le_trans by (metis finite_set)
  finally show ?thesis .
qed

lemma visited_normalized: "normalized_from s s' \<Longrightarrow> visited pf seed s vs \<Longrightarrow> visited pf seed s' vs"
proof -
  assume n: "normalized_from s s'" and v: "visited pf seed s vs"
  from n have "set (map act_id (db_actions s')) = set (map act_id (db_actions s))" by (simp only: normalized_from_def)
  moreover from n have "key_of s' = key_of s" by (simp only: normalized_from_def key_of_def [abs_def])
  ultimately show ?thesis using v by (simp add: visited_def)
qed

lemma retry_loop_returns:
  assumes "collision_free pf seed" "visited pf seed s vs" "length (db_actions s) \<le> length vs + n"
    "distinct (map act_id (db_actions s))" "variant seed c" "sd_idempotencyKey c = next_key pf seed vs"
    "existing = lookup ctx seed (sd_idempotencyKey c) s"
  shows "\<exists>r. retry_loop pf now ctx seed c existing s = Some r"
  using assms(2-)
proof (induction n arbitrary: vs c existing s)
  case (0 vs c existing s)
  show ?case
  proof (cases existing)
    case (Some a)
    with 0 have l: "lookup ctx seed (sd_idempotencyKey c) s = Some a" by simp
    note found = lookup_Some [OF l]
    have k: "key_of s (act_id a) = Some (Some (next_key pf seed vs))" using key_of_row [OF 0(3)] found 0(5) by auto
    from visited_snoc [OF 0(1) visited_fresh [OF assms(1) 0(1) k] _ k] found have "visited pf seed s (vs @ [act_id a])" by blast
    from visited_bound [OF this] 0(2) show ?thesis by simp
  qed (simp add: retry_loop.simps)
next
  case (Suc n vs c existing s)
  show ?case
  proof (cases existing)
    case (Some a)
    show ?thesis
    proof (cases "retryable seed a")
      case True
      let ?c = "retryProviderActionSeed pf seed a"
      let ?f = "find_normalized now ctx ?c s"
      from Some Suc.prems have l: "lookup ctx seed (sd_idempotencyKey c) s = Some a" by simp
      note found = lookup_Some [OF l]
      have k: "key_of s (act_id a) = Some (Some (next_key pf seed vs))" using key_of_row [OF Suc.prems(3)] found Suc.prems(5) by auto
      have v: "visited pf seed s (vs @ [act_id a])"
        using visited_snoc [OF Suc.prems(1) visited_fresh [OF assms(1) Suc.prems(1) k] _ k] found by blast
      have n: "normalized_from s (fst ?f)" "snd ?f = lookup ctx seed (sd_idempotencyKey ?c) (fst ?f)"
        using find_normalized_spec [OF Suc.prems(3) variant_retry] by blast+
      have ids: "map act_id (db_actions (fst ?f)) = map act_id (db_actions s)" using n(1) by (simp only: normalized_from_def)
      then have len: "length (db_actions (fst ?f)) = length (db_actions s)" by (rule map_eq_imp_length_eq)
      have "\<exists>r. retry_loop pf now ctx seed ?c (snd ?f) (fst ?f) = Some r"
        by (rule Suc.IH [OF visited_normalized [OF n(1) v]])
           (use Suc.prems(2,3) len ids n(2) in \<open>simp_all add: next_key_def\<close>)
      with Some True show ?thesis
        by (subst retry_loop.simps) (simp add: variant_retryable [OF Suc.prems(4)] Let_def)
    qed (simp add: Some retry_loop.simps variant_retryable [OF Suc.prems(4)])
  qed (simp add: retry_loop.simps)
qed

lemma createOrEnsure_returns:
  assumes "collision_free pf seed" "distinct (map act_id (db_actions s))"
  shows "\<exists>r. createOrEnsureProviderAction pf now ctx racer seed s = Some r"
proof -
  let ?f = "find_normalized now ctx seed s"
  have n: "normalized_from s (fst ?f)" "snd ?f = lookup ctx seed (sd_idempotencyKey seed) (fst ?f)"
    using find_normalized_spec [OF assms(2) variant_refl] by blast+
  have ids: "map act_id (db_actions (fst ?f)) = map act_id (db_actions s)" using n(1) by (simp only: normalized_from_def)
  have "\<exists>r. retry_loop pf now ctx seed seed (snd ?f) (fst ?f) = Some r"
    by (rule retry_loop_returns [OF assms(1), of _ "[]" "length (db_actions (fst ?f))"])
       (use assms ids n(2) in \<open>simp_all add: visited_def next_key_def\<close>)
  then show ?thesis
    by (auto simp: createOrEnsureProviderAction_def Let_def split: option.split)
qed

subsection \<open>A second call finds the action of the first\<close>

definition pending_kept :: "provider_seed \<Rightarrow> bool" where
  "pending_kept seed \<longleftrightarrow> ''pending'' \<notin> set (providerActionRetryableStatuses seed)"

definition settled :: "int \<Rightarrow> exec_context \<Rightarrow> provider_seed \<Rightarrow> db \<Rightarrow> string \<Rightarrow> ai_action_request \<Rightarrow> bool" where
  "settled now ctx seed s k b \<longleftrightarrow> lookup ctx seed k s = Some b \<and> \<not> retryable seed b \<and> \<not> providerActionIsExpired now b"

lemma retryable_not_expired: "pending_kept seed \<Longrightarrow> retryable seed a \<Longrightarrow> \<not> providerActionIsExpired now a"
  by (auto simp: pending_kept_def retryable_def isRetryableTerminalProviderAction_def providerActionIsExpired_def)

lemma find_normalized_idle:
  assumes "variant seed c" "pending_kept seed" "chain pf ctx seed s (sd_idempotencyKey c) kc" "settled now ctx seed s kc b"
  shows "find_normalized now ctx c s = (s, lookup ctx seed (sd_idempotencyKey c) s)"
  using assms(3)
proof cases
  case chain_refl
  with assms(1,4) show ?thesis by (simp add: find_normalized_def variant_find settled_def)
next
  case (chain_step a)
  with assms(1) retryable_not_expired [OF assms(2)] show ?thesis by (simp add: find_normalized_def variant_find)
qed

lemma chain_run:
  assumes "chain pf ctx seed s k kc" "settled now ctx seed s kc b" "pending_kept seed" "variant seed c" "sd_idempotencyKey c = k"
  shows "\<exists>d. variant seed d \<and> sd_idempotencyKey d = kc \<and> retry_loop pf now ctx seed c (lookup ctx seed k s) s = Some (s, d, Some b)"
  using assms
proof (induction arbitrary: c rule: chain.induct)
  case (chain_refl k)
  then show ?case by (auto simp: settled_def retry_loop.simps variant_retryable)
next
  case (chain_step k a kc)
  let ?c = "retryProviderActionSeed pf seed a"
  obtain d where d: "variant seed d" "sd_idempotencyKey d = kc"
    "retry_loop pf now ctx seed ?c (lookup ctx seed (retry_key pf seed (act_id a)) s) s = Some (s, d, Some b)"
    using chain_step.IH [OF chain_step.prems(1,2) variant_retry retry_seed_key] by blast
  have "find_normalized now ctx ?c s = (s, lookup ctx seed (retry_key pf seed (act_id a)) s)"
    using find_normalized_idle [OF variant_retry chain_step.prems(2) _ chain_step.prems(1)] chain_step.hyps(3) by simp
  then have "retry_loop pf now ctx seed c (lookup ctx seed k s) s = Some (s, d, Some b)"
    using chain_step.hyps(1,2) chain_step.prems(3) d(3)
    by (subst retry_loop.simps) (simp add: variant_retryable Let_def)
  with d(1,2) show ?case by blast
qed

text \<open>What a call leaves behind: the action at the end of the chain, bound to the seed by its hash.\<close>

definition bound_to :: "platform \<Rightarrow> provider_seed \<Rightarrow> ai_action_request \<Rightarrow> bool" where
  "bound_to pf c a \<longleftrightarrow> act_input_hash a = inputHashForProviderAction pf (stored_scope a)
     \<and> act_input_hash a = inputHashForProviderAction pf (seed_scope c)"

definition ends_in :: "platform \<Rightarrow> exec_context \<Rightarrow> provider_seed \<Rightarrow> db \<Rightarrow> ai_action_request \<Rightarrow> bool" where
  "ends_in pf ctx seed s a \<longleftrightarrow> distinct (map act_id (db_actions s)) \<and>
     (\<exists>c. variant seed c \<and> chain pf ctx seed s (sd_idempotencyKey seed) (sd_idempotencyKey c)
        \<and> lookup ctx seed (sd_idempotencyKey c) s = Some a \<and> \<not> retryable seed a \<and> bound_to pf c a)"

lemma merge_seed_scope [simp]: "stored_scope ((merge_seed c b)\<lparr>act_updated_at := now\<rparr>) = stored_scope b"
  by (simp add: stored_scope_def merge_seed_def)

lemma merge_seed_fields [simp]:
  "act_id (merge_seed c b) = act_id b" "act_tenant_id (merge_seed c b) = act_tenant_id b"
  "act_capability_name (merge_seed c b) = act_capability_name b" "act_capability_version (merge_seed c b) = act_capability_version b"
  "act_idempotency_key (merge_seed c b) = act_idempotency_key b" "act_status (merge_seed c b) = act_status b"
  "act_input_hash (merge_seed c b) = act_input_hash b" "act_expires_at (merge_seed c b) = act_expires_at b"
  by (simp_all add: merge_seed_def)

lemma merge_run:
  "bound_to pf c b \<Longrightarrow> mergeExistingProviderAction pf now b c s =
     (if seed_changes c b
      then (let a = (merge_seed c b)\<lparr>act_updated_at := now\<rparr> in (s\<lparr>db_actions := save_row act_id a (db_actions s)\<rparr>, Inr a))
      else (s, Inr b))"
  by (auto simp: mergeExistingProviderAction_def bound_to_def op_simps Let_def)

lemma merge_Inr: "mergeExistingProviderAction pf now b c s = (s', Inr a) \<Longrightarrow> bound_to pf c b"
  by (auto simp: mergeExistingProviderAction_def bound_to_def oguard_Inr_iff Let_def)

lemma merge_ends_in:
  assumes m: "mergeExistingProviderAction pf now b c s = (s', Inr a)" and ids: "distinct (map act_id (db_actions s))"
    and v: "variant seed c" and ch: "chain pf ctx seed s (sd_idempotencyKey seed) (sd_idempotencyKey c)"
    and l: "lookup ctx seed (sd_idempotencyKey c) s = Some b" and nr: "\<not> retryable seed b"
  shows "ends_in pf ctx seed s' a \<and> act_id a = act_id b \<and> act_input_hash a = act_input_hash b
    \<and> map act_id (db_actions s') = map act_id (db_actions s)"
proof (cases "seed_changes c b")
  case False
  with m merge_run [OF merge_Inr [OF m]] have "s' = s" "a = b" by simp_all
  with assms merge_Inr [OF m] show ?thesis by (auto simp: ends_in_def)
next
  case True
  let ?a = "(merge_seed c b)\<lparr>act_updated_at := now\<rparr>"
  note found = lookup_Some [OF l]
  have a: "a = ?a" and s': "s' = s\<lparr>db_actions := save_row act_id ?a (db_actions s)\<rparr>"
    using True m merge_run [OF merge_Inr [OF m], of now s] by (auto simp: Let_def)
  have look: "lookup ctx' seed' k s' = map_option (\<lambda>x. if act_id x = act_id b then ?a else x) (lookup ctx' seed' k s)"
    for ctx' seed' k unfolding s' using ids found by (intro lookup_save) simp_all
  have ids': "map act_id (db_actions s') = map act_id (db_actions s)"
    unfolding s' using found by (simp add: save_row_ids [where b = b])
  have "chain pf ctx seed s' (sd_idempotencyKey seed) (sd_idempotencyKey c)"
  proof (rule chain_mono [OF ch])
    fix k x assume "lookup ctx seed k s = Some x" "retryable seed x"
    moreover then have "x \<in> set (db_actions s)" using lookup_Some by blast
    ultimately show "\<exists>a'. lookup ctx seed k s' = Some a' \<and> act_id a' = act_id x \<and> retryable seed a'"
      using nr found ids by (auto simp: look retryable_def isRetryableTerminalProviderAction_def distinct_map inj_on_def)
  qed
  moreover have "lookup ctx seed (sd_idempotencyKey c) s' = Some a" by (simp only: look l a) simp
  moreover have "\<not> retryable seed a" using nr by (simp add: a retryable_def isRetryableTerminalProviderAction_def)
  moreover have "bound_to pf c a" using merge_Inr [OF m] by (auto simp: bound_to_def a)
  ultimately show ?thesis using v ids ids' by (auto simp: ends_in_def a)
qed

lemma find_append_row: "List.find P (xs @ [x]) = (case List.find P xs of Some y \<Rightarrow> Some y | None \<Rightarrow> if P x then Some x else None)"
  by (induction xs) auto

lemma lookup_append: "lookup ctx seed k (s\<lparr>db_minted := n, db_actions := db_actions s @ [a]\<rparr>) =
   (case lookup ctx seed k s of Some x \<Rightarrow> Some x
    | None \<Rightarrow> if act_tenant_id a = ctx_tenantId ctx \<and> act_capability_name a = sd_capabilityName seed
                \<and> act_capability_version a = sd_capabilityVersion seed \<and> act_idempotency_key a = Some k then Some a else None)"
  by (auto simp: lookup_def find_provider_action_def find_append_row split: option.split)

lemma provider_action_bound: "isRecord (sd_actionPayload c) \<Longrightarrow> bound_to pf c (provider_action pf now ctx c k)"
  by (auto simp: bound_to_def provider_action_def stored_scope_def seed_scope_def with_default_def nullish_def isRecord_def)

lemma create_run:
  assumes v: "variant seed c" and none: "lookup ctx seed (sd_idempotencyKey c) s = None"
    and fresh: "uuid pf (db_minted s) \<notin> set (map act_id (db_actions s))"
  shows "create_provider_action pf now ctx None c s =
    (let a = provider_action pf now ctx c (uuid pf (db_minted s)) in
     (s\<lparr>db_minted := Suc (db_minted s), db_actions := db_actions s @ [a]\<rparr>, Inr a))"
proof -
  let ?a = "provider_action pf now ctx c (uuid pf (db_minted s))"
  have "\<not> list_ex (same_key ?a) (db_actions s)"
    using none v by (auto simp: lookup_def find_provider_action_def find_None_iff list_ex_iff same_key_def provider_action_def variant_def)
  moreover have "save_row act_id ?a (db_actions s) = db_actions s @ [?a]"
    using fresh by (simp add: save_row_def provider_action_def)
  ultimately show ?thesis
    by (simp add: create_provider_action_def obind_apply otry_def mint_def insert_action_def save_action_def Let_def)
qed

lemma create_ends_in:
  assumes v: "variant seed c" and ids: "distinct (map act_id (db_actions s))"
    and ch: "chain pf ctx seed s (sd_idempotencyKey seed) (sd_idempotencyKey c)"
    and none: "lookup ctx seed (sd_idempotencyKey c) s = None"
    and fresh: "uuid pf (db_minted s) \<notin> set (map act_id (db_actions s))"
    and r: "isRecord (sd_actionPayload seed)" and p: "pending_kept seed"
    and run: "create_provider_action pf now ctx None c s = (s', Inr a)"
  shows "ends_in pf ctx seed s' a"
proof -
  have a: "a = provider_action pf now ctx c (uuid pf (db_minted s))"
    and s': "s' = s\<lparr>db_minted := Suc (db_minted s), db_actions := db_actions s @ [a]\<rparr>"
    using run by (auto simp: create_run [OF v none fresh] Let_def)
  have "chain pf ctx seed s' (sd_idempotencyKey seed) (sd_idempotencyKey c)"
    by (rule chain_mono [OF ch]) (simp add: s' lookup_append)
  moreover have "lookup ctx seed (sd_idempotencyKey c) s' = Some a"
    using v none by (auto simp: s' lookup_append a provider_action_def variant_def)
  moreover have "\<not> retryable seed a"
    using p by (simp add: a provider_action_def pending_kept_def retryable_def isRetryableTerminalProviderAction_def)
  moreover have "bound_to pf c a" using r v unfolding a by (intro provider_action_bound) (auto simp: variant_def)
  moreover have "distinct (map act_id (db_actions s'))" using ids fresh by (simp add: s' a provider_action_def)
  ultimately show ?thesis using v by (auto simp: ends_in_def)
qed

lemma createOrEnsure_ends_in:
  assumes run: "createOrEnsureProviderAction pf now ctx None seed s = Some (s', Inr a)"
    and ids: "distinct (map act_id (db_actions s))" and fresh: "uuid pf (db_minted s) \<notin> set (map act_id (db_actions s))"
    and r: "isRecord (sd_actionPayload seed)" and p: "pending_kept seed"
  shows "ends_in pf ctx seed s' a"
proof -
  let ?f = "find_normalized now ctx seed s"
  note n = find_normalized_spec [OF ids variant_refl, of now ctx]
  from n have n1: "normalized_from s (fst ?f)" by blast
  from run have ne: "ctx_tenantId ctx \<noteq> []" by (auto simp: createOrEnsureProviderAction_def)
  with run obtain s1 c e where loop: "retry_loop pf now ctx seed seed (snd ?f) (fst ?f) = Some (s1, c, e)"
    and rest: "(case e of None \<Rightarrow> create_provider_action pf now ctx None c s1 | Some b \<Rightarrow> mergeExistingProviderAction pf now b c s1) = (s', Inr a)"
    by (auto simp: createOrEnsureProviderAction_def Let_def split: option.splits prod.splits)
  have ids1: "distinct (map act_id (db_actions (fst ?f)))" using n1 ids by (simp only: normalized_from_def)
  from retry_loop_spec [OF loop ids1 variant_refl] n have spec: "normalized_from (fst ?f) s1" "variant seed c"
    "chain pf ctx seed s1 (sd_idempotencyKey seed) (sd_idempotencyKey c)" "e = lookup ctx seed (sd_idempotencyKey c) s1"
    "pred_option (\<lambda>a. \<not> providerActionIsExpired now a \<and> \<not> retryable seed a) e" by blast+
  have norm: "normalized_from s s1" using n1 spec(1) by (rule normalized_from_trans)
  have ids2: "distinct (map act_id (db_actions s1))" using norm ids by (simp only: normalized_from_def)
  have fresh2: "uuid pf (db_minted s1) \<notin> set (map act_id (db_actions s1))" using norm fresh unfolding normalized_from_def by (elim conjE) (simp only: simp_thms)
  show ?thesis
  proof (cases e)
    case None
    with rest spec(4) show ?thesis by (intro create_ends_in [OF spec(2) ids2 spec(3) _ fresh2 r p]) simp_all
  next
    case (Some b)
    with rest have "mergeExistingProviderAction pf now b c s1 = (s', Inr a)" by simp
    from merge_ends_in [OF this ids2 spec(2,3)] Some spec(4,5) show ?thesis by simp
  qed
qed

lemma ends_in_found:
  assumes "ends_in pf ctx seed s a" "ctx_tenantId ctx \<noteq> []" "pending_kept seed" "\<not> providerActionIsExpired now a"
  shows "\<exists>s' a'. createOrEnsureProviderAction pf now ctx racer seed s = Some (s', Inr a') \<and> act_id a' = act_id a
    \<and> act_input_hash a' = act_input_hash a \<and> map act_id (db_actions s') = map act_id (db_actions s)"
proof -
  from assms(1) obtain c where ids: "distinct (map act_id (db_actions s))" and v: "variant seed c"
    and ch: "chain pf ctx seed s (sd_idempotencyKey seed) (sd_idempotencyKey c)"
    and l: "lookup ctx seed (sd_idempotencyKey c) s = Some a" and nr: "\<not> retryable seed a" and b: "bound_to pf c a"
    by (auto simp: ends_in_def)
  have st: "settled now ctx seed s (sd_idempotencyKey c) a" using l nr assms(4) by (simp add: settled_def)
  from chain_run [OF ch st assms(3) variant_refl refl] obtain d where d: "variant seed d" "sd_idempotencyKey d = sd_idempotencyKey c"
    and loop: "retry_loop pf now ctx seed seed (lookup ctx seed (sd_idempotencyKey seed) s) s = Some (s, d, Some a)" by blast
  have "bound_to pf d a" using b variant_same_key [OF d(1) v d(2)] by (auto simp: bound_to_def)
  from merge_run [OF this, of now s] obtain s' a' where m: "mergeExistingProviderAction pf now a d s = (s', Inr a')"
    by (auto simp: Let_def split: if_splits)
  have "chain pf ctx seed s (sd_idempotencyKey seed) (sd_idempotencyKey d)" using ch d(2) by simp
  from merge_ends_in [OF m ids d(1) this] l d(2) nr have
    "act_id a' = act_id a" "act_input_hash a' = act_input_hash a" "map act_id (db_actions s') = map act_id (db_actions s)"
    by simp_all
  moreover have "createOrEnsureProviderAction pf now ctx racer seed s = Some (s', Inr a')"
    using assms(2) loop m find_normalized_idle [OF variant_refl assms(3) ch st]
    by (simp add: createOrEnsureProviderAction_def)
  ultimately show ?thesis by blast
qed

subsection \<open>Properties\<close>

lemma retry_key_text: "retry_key pf seed k = sha256 pf (''{'' @ json_text ''original_idempotency_key'' @ '':'' @
    json_text (sd_idempotencyKey seed) @ '','' @ json_text ''retry_after_action_request_id'' @ '':'' @ json_text k @ ''}'')"
proof -
  have le: "''original_idempotency_key'' \<le> ''retry_after_action_request_id''"
    by (simp add: less_char_def less_eq_char_def)
  show ?thesis
    by (simp add: retry_key_def hashStableJson_def insort_key.simps le json_member_def del: json_text_def)
qed

lemma collision_freeI:
  assumes "inj (sha256 pf)" "\<And>t. sha256 pf (CHR ''{'' # t) \<noteq> sd_idempotencyKey seed"
  shows "collision_free pf seed"
proof -
  have "inj (retry_key pf seed)"
  proof (rule injI)
    fix x y assume "retry_key pf seed x = retry_key pf seed y"
    then have "json_text x @ ''}'' = json_text y @ ''}''"
      unfolding retry_key_text inj_eq [OF assms(1)] by (simp only: same_append_eq append_assoc)
    from json_text_inj [OF this] show "x = y" by blast
  qed
  moreover have "sd_idempotencyKey seed \<notin> range (retry_key pf seed)"
    using assms(2) by (auto simp: retry_key_text) (metis)
  ultimately show ?thesis by (simp add: collision_free_def)
qed


text \<open>C17: Provider actions are idempotent: what a call returns is an action of the tenant bound to the request
  by its input hash, and a later call with the same request, before that action expires or ends, returns
  the same action with the same hash and inserts none.\<close>

theorem createOrEnsureProviderAction_idempotent:
  assumes first: "createOrEnsureProviderAction pf now ctx None seed s = Some (s', Inr a)"
    and ids: "distinct (map act_id (db_actions s))" "uuid pf (db_minted s) \<notin> set (map act_id (db_actions s))"
    and seed: "isRecord (sd_actionPayload seed)" "pending_kept seed"
    and live: "\<not> providerActionIsExpired now' a"
  shows "a \<in> set (db_actions s') \<and> act_tenant_id a = ctx_tenantId ctx
    \<and> act_input_hash a = inputHashForProviderAction pf (stored_scope a)
    \<and> (\<exists>s'' a'. createOrEnsureProviderAction pf now' ctx racer seed s' = Some (s'', Inr a') \<and> act_id a' = act_id a
         \<and> act_input_hash a' = act_input_hash a \<and> map act_id (db_actions s'') = map act_id (db_actions s'))"
proof -
  have e: "ends_in pf ctx seed s' a" by (rule createOrEnsure_ends_in [OF first ids seed])
  have "ctx_tenantId ctx \<noteq> []" using first by (auto simp: createOrEnsureProviderAction_def)
  from ends_in_found [OF e this seed(2) live] e show ?thesis
    by (auto simp: ends_in_def bound_to_def dest: lookup_Some)
qed

definition sample_seed :: provider_seed where
  "sample_seed = \<lparr> sd_runId = None, sd_toolExecutionId = None, sd_conversationId = None, sd_userId = None,
     sd_capabilityName = ''cap'', sd_capabilityVersion = ''1.0.0'', sd_effect = ''write'', sd_providerKind = ''ticketing'',
     sd_providerKey = ''glpi'', sd_targetType = ''ticket'', sd_targetId = None, sd_targetRef = ''T-1'',
     sd_actionPayload = JObj [(''note'', JStr ''hello'')], sd_idempotencyKey = ''k1'', sd_evidenceIds = None,
     sd_inputSummary = JUndef, sd_metadata = JUndef, sd_expiresAt = None, sd_retryAfterStatuses = None \<rparr>"

lemma sample_collision_free: "collision_free sample_platform sample_seed"
  by (rule collision_freeI) (simp_all add: sample_platform_def sample_seed_def)

lemma sample_pending_kept: "pending_kept sample_seed"
  by (simp add: pending_kept_def providerActionRetryableStatuses_def PROVIDER_ACTION_RETRYABLE_TERMINAL_STATUSES_def
    sample_seed_def with_default_def)

lemma sample_first: "\<exists>s' a. createOrEnsureProviderAction sample_platform 0 sample_ctx None sample_seed empty_db = Some (s', Inr a)
    \<and> act_status a = ''pending'' \<and> act_expires_at a = Some DEFAULT_PROVIDER_ACTION_TTL_MS"
proof -
  have "lookup sample_ctx sample_seed k empty_db = None" for k
    by (simp add: lookup_def find_provider_action_def empty_db_def)
  then have none: "find_provider_action sample_ctx sample_seed empty_db = None"
    using variant_find [OF variant_refl, of sample_ctx sample_seed empty_db] by simp
  have "find_normalized 0 sample_ctx sample_seed empty_db = (empty_db, None)"
    by (simp add: find_normalized_def none)
  moreover have "create_provider_action sample_platform 0 sample_ctx None sample_seed empty_db =
     (let a = provider_action sample_platform 0 sample_ctx sample_seed (uuid sample_platform (db_minted empty_db)) in
     (empty_db\<lparr>db_minted := Suc (db_minted empty_db), db_actions := db_actions empty_db @ [a]\<rparr>, Inr a))"
    by (rule create_run [OF variant_refl]) (simp_all add: lookup_def find_provider_action_def empty_db_def)
  ultimately show ?thesis
    by (simp add: createOrEnsureProviderAction_def retry_loop.simps sample_ctx_def Let_def provider_action_def sample_seed_def with_default_def)
qed


theorem createOrEnsureProviderAction_idempotent_witness:
  "\<exists>s' a s'' a'. createOrEnsureProviderAction sample_platform 0 sample_ctx None sample_seed empty_db = Some (s', Inr a)
     \<and> createOrEnsureProviderAction sample_platform 5 sample_ctx None sample_seed s' = Some (s'', Inr a')
     \<and> act_id a' = act_id a \<and> map act_id (db_actions s'') = map act_id (db_actions s')"
proof -
  obtain s' a where f: "createOrEnsureProviderAction sample_platform 0 sample_ctx None sample_seed empty_db = Some (s', Inr a)"
    and a: "act_status a = ''pending''" "act_expires_at a = Some DEFAULT_PROVIDER_ACTION_TTL_MS" using sample_first by blast
  have "isRecord (sd_actionPayload sample_seed)" by (simp add: sample_seed_def isRecord_def)
  moreover have "\<not> providerActionIsExpired 5 a" using a by (simp add: providerActionIsExpired_def DEFAULT_PROVIDER_ACTION_TTL_MS_def)
  ultimately have "\<exists>s'' a'. createOrEnsureProviderAction sample_platform 5 sample_ctx None sample_seed s' = Some (s'', Inr a')
     \<and> act_id a' = act_id a \<and> map act_id (db_actions s'') = map act_id (db_actions s')"
    using createOrEnsureProviderAction_idempotent [OF f, of 5 None] sample_pending_kept by (auto simp: empty_db_def)
  with f show ?thesis by blast
qed

end
