(* ===== verification/Approvals.thy ===== *)
theory Approvals
  imports ActionRequests
begin

section \<open>Approvals (approval/ai-approval.service.ts)\<close>

text \<open>
  Human and policy decisions on action requests, and the check before execution that finds a
  durable approval of exactly this request.  An action object that a method changes is returned
  changed: \<open>resolveApprovedAction\<close> also answers with the action as its caller then sees it.
\<close>

definition DEFAULT_APPROVAL_TTL_MS :: int where "DEFAULT_APPROVAL_TTL_MS = 10 * 60 * 1000"
definition DEFAULT_APPROVED_ACTION_EXECUTION_TTL_MS :: int where
  "DEFAULT_APPROVED_ACTION_EXECUTION_TTL_MS = 30 * 60 * 1000"
definition APPROVED_ACTION_EXECUTING_STATUS :: string where "APPROVED_ACTION_EXECUTING_STATUS = ''executing''"

definition approvalExpiryForAction :: "int \<Rightarrow> ai_action_request \<Rightarrow> int" where
  "approvalExpiryForAction now action =
     (let minimum = now + DEFAULT_APPROVED_ACTION_EXECUTION_TTL_MS in
      case act_expires_at action of
        None \<Rightarrow> minimum
      | Some currentExpiry \<Rightarrow> if currentExpiry > minimum then currentExpiry else minimum)"

definition executionClaimId :: "ai_action_request \<Rightarrow> string option" where
  "executionClaimId action =
     (let batch = js_get (act_metadata_json action) ''approved_batch_context'' in
      if isRecord batch then nonblank_text (js_get batch ''execution_claim_id'') else None)"

definition executionMetadataClaimId :: "execution option \<Rightarrow> string option" where
  "executionMetadataClaimId exec =
     (case exec of None \<Rightarrow> None | Some e \<Rightarrow> nonblank_text (js_get (ex_metadata e) ''action_execution_claim_id''))"

text \<open>\<open>order: {decided_at: 'DESC', created_at: 'DESC'}\<close>, where PostgreSQL puts null first.\<close>

definition latest_first :: "ai_approval list \<Rightarrow> ai_approval list" where
  "latest_first rows =
     sort_key (\<lambda>a. if apv_decided_at a = None then 0 else 1 :: int)
    (sort_key (\<lambda>a. - with_default 0 (apv_decided_at a))
    (sort_key (\<lambda>a. - apv_created_at a) rows))"

definition durable :: "int \<Rightarrow> exec_context \<Rightarrow> ai_action_request \<Rightarrow> ai_approval \<Rightarrow> bool" where
  "durable now ctx action a \<longleftrightarrow>
     apv_tenant_id a = ctx_tenantId ctx
     \<and> apv_action_request_id a = act_id action
     \<and> apv_capability_name a = act_capability_name action
     \<and> apv_capability_version a = act_capability_version action
     \<and> apv_input_hash a = act_input_hash action
     \<and> apv_status a = ''approved''
     \<and> apv_expires_at a > now"

definition first_approval :: "int \<Rightarrow> exec_context \<Rightarrow> ai_action_request \<Rightarrow> db \<Rightarrow> ai_approval option" where
  "first_approval now ctx action s =
     (case latest_first (filter (durable now ctx action) (db_approvals s)) of [] \<Rightarrow> None | a # _ \<Rightarrow> Some a)"

definition findDurableApproval :: "int \<Rightarrow> exec_context \<Rightarrow> ai_action_request \<Rightarrow> ai_approval op" where
  "findDurableApproval now ctx action =
     obind (oread (first_approval now ctx action)) (\<lambda>found.
       case found of
         None \<Rightarrow> othrow (Forbidden ''A valid durable approval is required before execution.'')
       | Some approval \<Rightarrow>
           oguard (apv_action_request_id approval \<noteq> act_id action \<or> apv_input_hash approval \<noteq> act_input_hash action)
             (Forbidden ''Approval does not match the action request scope.'')
             (oret approval))"

definition decision_row ::
  "int \<Rightarrow> exec_context \<Rightarrow> ai_action_request \<Rightarrow> string \<Rightarrow> string \<Rightarrow> string option \<Rightarrow> string option \<Rightarrow> int \<Rightarrow> string \<Rightarrow> ai_approval" where
  "decision_row now ctx action source status actorLabel why expiresAt new_id =
     \<lparr> apv_id = new_id,
       apv_tenant_id = ctx_tenantId ctx,
       apv_action_request_id = act_id action,
       apv_capability_name = act_capability_name action,
       apv_capability_version = act_capability_version action,
       apv_source = source,
       apv_status = status,
       apv_actor_user_id = Some (ctx_userId ctx),
       apv_actor_label = actorLabel,
       apv_input_hash = act_input_hash action,
       apv_evidence_ids = act_evidence_ids action,
       apv_reason = why,
       apv_matched_policy_id = None,
       apv_matched_policy_version = None,
       apv_decision_json = JNull,
       apv_expires_at = expiresAt,
       apv_decided_at = Some now,
       apv_created_at = now \<rparr>"

definition chat_opts :: preview_opts where
  "chat_opts = \<lparr> po_runId = None, po_toolExecutionId = None,
     po_capabilityName = Some EXECUTE_APPROVED_PREVIEW_CAPABILITY, po_capabilityVersion = Some ''1.0.0'',
     po_effect = Some ''write'', po_evidenceIds = None \<rparr>"

definition expiry_or_ttl :: "int \<Rightarrow> ai_action_request \<Rightarrow> int" where
  "expiry_or_ttl now action = with_default (now + DEFAULT_APPROVAL_TTL_MS) (act_expires_at action)"

definition approvePreviewFromChat ::
  "platform \<Rightarrow> int \<Rightarrow> exec_context \<Rightarrow> string \<Rightarrow> string option \<Rightarrow> (ai_action_request \<times> ai_approval) op" where
  "approvePreviewFromChat pf now ctx previewId why =
     obind (ensureForPreview pf now ctx previewId chat_opts) (\<lambda>action.
       let expiresAt = approvalExpiryForAction now action in
       obind (mint pf) (\<lambda>new_id.
       obind (save_approval (decision_row now ctx action ''human_chat'' ''approved'' None why expiresAt new_id)) (\<lambda>approval.
       obind (markApproved now action (Some (Some expiresAt))) (\<lambda>action'. oret (action', approval)))))"

definition rejectPreviewFromChat ::
  "platform \<Rightarrow> int \<Rightarrow> exec_context \<Rightarrow> string \<Rightarrow> string option \<Rightarrow> (ai_action_request \<times> ai_approval) op" where
  "rejectPreviewFromChat pf now ctx previewId why =
     obind (ensureForPreview pf now ctx previewId chat_opts) (\<lambda>action.
       obind (mint pf) (\<lambda>new_id.
       obind (save_approval (decision_row now ctx action ''human_chat'' ''rejected'' None why (expiry_or_ttl now action) new_id)) (\<lambda>approval.
       obind (markRejected now ctx action why) (\<lambda>action'. oret (action', approval)))))"

definition approvePreviewsFromChat :: "platform \<Rightarrow> int \<Rightarrow> exec_context \<Rightarrow> string list \<Rightarrow> (ai_action_request \<times> ai_approval) list op" where
  "approvePreviewsFromChat pf now ctx previewIds = omap (\<lambda>p. approvePreviewFromChat pf now ctx p None) previewIds"

definition rejectPreviewsFromChat :: "platform \<Rightarrow> int \<Rightarrow> exec_context \<Rightarrow> string list \<Rightarrow> (ai_action_request \<times> ai_approval) list op" where
  "rejectPreviewsFromChat pf now ctx previewIds = omap (\<lambda>p. rejectPreviewFromChat pf now ctx p None) previewIds"

definition is_expired :: "int \<Rightarrow> ai_action_request \<Rightarrow> bool" where
  "is_expired now action \<longleftrightarrow> (case act_expires_at action of None \<Rightarrow> False | Some t \<Rightarrow> t \<le> now)"

record approve_opts =
  ao_source :: "string option"
  ao_reason :: "string option"
  ao_actorLabel :: "string option"

definition expire_and_refuse :: "int \<Rightarrow> exec_context \<Rightarrow> ai_action_request \<Rightarrow> string \<Rightarrow> 'a op" where
  "expire_and_refuse now ctx action message = obind (markExpired now ctx action) (\<lambda>_. othrow (Forbidden message))"

definition approveActionRequest ::
  "platform \<Rightarrow> int \<Rightarrow> exec_context \<Rightarrow> string \<Rightarrow> approve_opts \<Rightarrow> (ai_action_request \<times> ai_approval) op" where
  "approveActionRequest pf now ctx actionRequestId opts =
     obind (findProviderActionForExecution ctx actionRequestId) (\<lambda>action.
       oguard (act_status action = ''executed'') (Forbidden ''Executed action requests cannot be approved again.'')
      (oguard (act_status action = ''failed'') (Forbidden ''Failed action requests require a new approval cycle.'')
      (oguard (act_status action = ''rejected'') (Forbidden ''Rejected action requests cannot be approved.'')
      (oguard (act_status action = ''dismissed'') (Forbidden ''Dismissed action requests cannot be approved.'')
      (oguard (act_status action = ''expired'') (Forbidden ''Expired action requests cannot be approved.'')
      (if is_expired now action then expire_and_refuse now ctx action ''Expired action requests cannot be approved.''
       else let expiresAt = approvalExpiryForAction now action in
         obind (mint pf) (\<lambda>new_id.
         obind (save_approval (decision_row now ctx action (with_default ''human_ui'' (ao_source opts)) ''approved''
                  (ao_actorLabel opts) (ao_reason opts) expiresAt new_id)) (\<lambda>approval.
         obind (markApproved now action (Some (Some expiresAt))) (\<lambda>action'. oret (action', approval))))))))))"

definition rejectActionRequest ::
  "platform \<Rightarrow> int \<Rightarrow> exec_context \<Rightarrow> string \<Rightarrow> string option \<Rightarrow> (ai_action_request \<times> ai_approval) op" where
  "rejectActionRequest pf now ctx actionRequestId why =
     obind (findProviderActionForExecution ctx actionRequestId) (\<lambda>action.
       oguard (act_status action \<noteq> ''pending'' \<and> act_status action \<noteq> ''approved'')
         (Forbidden ''Only pending or approved action requests can be rejected.'')
      (if is_expired now action then expire_and_refuse now ctx action ''Expired action requests cannot be rejected.''
       else obind (mint pf) (\<lambda>new_id.
         obind (save_approval (decision_row now ctx action ''human_ui'' ''rejected'' None why (expiry_or_ttl now action) new_id)) (\<lambda>approval.
         obind (markRejected now ctx action why) (\<lambda>action'. oret (action', approval))))))"

definition dismissActionRequest ::
  "platform \<Rightarrow> int \<Rightarrow> exec_context \<Rightarrow> string \<Rightarrow> string option \<Rightarrow> (ai_action_request \<times> ai_approval) op" where
  "dismissActionRequest pf now ctx actionRequestId why =
     obind (findProviderActionForExecution ctx actionRequestId) (\<lambda>action.
       oguard (act_status action \<noteq> ''pending'' \<and> act_status action \<noteq> ''approved'')
         (Forbidden ''Only pending or approved action requests can be dismissed.'')
      (if is_expired now action then expire_and_refuse now ctx action ''Expired action requests cannot be dismissed.''
       else obind (mint pf) (\<lambda>new_id.
         obind (save_approval (decision_row now ctx action ''human_ui'' ''dismissed'' None why (expiry_or_ttl now action) new_id)) (\<lambda>approval.
         obind (markDismissed now ctx action why) (\<lambda>action'. oret (action', approval))))))"

subsection \<open>The check before execution\<close>

type_synonym resolved = "db \<times> ai_action_request \<times> (ai_error + ai_approval)"

definition resolveApprovedAction :: "int \<Rightarrow> exec_context \<Rightarrow> ai_action_request \<Rightarrow> db \<Rightarrow> resolved" where
  "resolveApprovedAction now ctx action s =
     (let refuse = (\<lambda>m. (s, action, Inl (Forbidden m))) in
      if act_tenant_id action \<noteq> ctx_tenantId ctx then refuse ''Approval does not belong to this tenant.''
      else if act_status action = ''rejected'' then refuse ''Rejected action requests cannot be executed.''
      else if act_status action = ''dismissed'' then refuse ''Dismissed action requests cannot be executed.''
      else if act_status action = ''executed'' then refuse ''Action request has already been executed.''
      else if act_status action = ''failed'' then refuse ''Failed action requests require a new approval cycle.''
      else if is_expired now action
      then (fst (markExpired now ctx action s), expired_action now action, Inl (Forbidden ''Action request approval has expired.''))
      else if act_status action \<noteq> ''approved'' then refuse ''Action request must be approved before execution.''
      else case findDurableApproval now ctx action s of (s', r) \<Rightarrow> (s', action, r))"

definition policy_row :: "int \<Rightarrow> exec_context \<Rightarrow> ai_action_request \<Rightarrow> policy_decision \<Rightarrow> int \<Rightarrow> string \<Rightarrow> ai_approval" where
  "policy_row now ctx action decision expiresAt new_id =
     (decision_row now ctx action ''policy'' ''approved''
        (Some (if truthy (pd_matched_policy_key decision) then ''policy:'' @ the (pd_matched_policy_key decision) else ''policy''))
        (Some ''Policy-approved controlled autonomy decision.'') expiresAt new_id)
     \<lparr>apv_actor_user_id := None, apv_matched_policy_id := pd_matched_policy_id decision,
      apv_matched_policy_version := pd_matched_policy_version decision, apv_decision_json := decision_json decision\<rparr>"

definition approveActionRequestByPolicy ::
  "platform \<Rightarrow> int \<Rightarrow> exec_context \<Rightarrow> ai_action_request \<Rightarrow> policy_decision \<Rightarrow> ai_approval op" where
  "approveActionRequestByPolicy pf now ctx action decision =
     (let expiresAt = approvalExpiryForAction now action in
      obind (mint pf) (\<lambda>new_id.
      obind (save_approval (policy_row now ctx action decision expiresAt new_id)) (\<lambda>approval.
      obind (markApproved now action (Some (Some expiresAt))) (\<lambda>_. oret approval))))"

definition resolve_by_policy ::
  "platform \<Rightarrow> int \<Rightarrow> exec_context \<Rightarrow> ai_action_request \<Rightarrow> capability_contract \<Rightarrow> execution option \<Rightarrow> ai_approval op" where
  "resolve_by_policy pf now ctx action contract exec =
     obind (oread (resolve_policy pf now ctx action contract exec)) (\<lambda>decision.
     obind (recordPolicyDecision now action decision) (\<lambda>action'.
       oguard (pd_outcome decision \<noteq> PolicyApproved \<or> \<not> pd_approved decision)
         (PolicyRefused (if pd_outcome decision = HumanRequired then ''Human approval is required before execution.''
                         else ''Policy approval denied.'') (decision_json decision))
         (approveActionRequestByPolicy pf now ctx action' decision)))"

text \<open>\<open>hasResolver\<close>: whether the optional policy resolver was injected.\<close>

definition resolveApprovedActionForExecution ::
  "platform \<Rightarrow> bool \<Rightarrow> int \<Rightarrow> exec_context \<Rightarrow> ai_action_request \<Rightarrow> capability_contract \<Rightarrow> execution option \<Rightarrow> ai_approval op" where
  "resolveApprovedActionForExecution pf hasResolver now ctx action contract exec = (\<lambda>s.
     case resolveApprovedAction now ctx action s of
       (s', action', Inr approval) \<Rightarrow> (s', Inr approval)
     | (s', action', Inl err) \<Rightarrow>
         if act_status action' = APPROVED_ACTION_EXECUTING_STATUS \<and> executionClaimId action' \<noteq> None
            \<and> executionClaimId action' = executionMetadataClaimId exec
         then findDurableApproval now ctx action' s'
         else if act_status action' \<noteq> ''pending'' \<or> \<not> hasResolver then (s', Inl err)
         else resolve_by_policy pf now ctx action' contract exec s')"

definition expireStaleApprovals :: "int \<Rightarrow> exec_context \<Rightarrow> nat op" where
  "expireStaleApprovals now ctx = (\<lambda>s.
     let stale = (\<lambda>a. apv_tenant_id a = ctx_tenantId ctx \<and> apv_status a = ''approved'' \<and> apv_expires_at a < now) in
     (s\<lparr>db_approvals := map (\<lambda>a. if stale a then a\<lparr>apv_status := ''expired''\<rparr> else a) (db_approvals s)\<rparr>,
      Inr (length (filter stale (db_approvals s)))))"

subsection \<open>Lemmas\<close>

lemma expire_and_refuse_Inl [simp]: "expire_and_refuse now ctx action m s \<noteq> (s', Inr r)"
  by (auto simp: expire_and_refuse_def obind_Inr_iff)

lemma latest_first_set [simp]: "set (latest_first rows) = set rows"
  by (simp add: latest_first_def)

lemma first_approval_Some: "first_approval now ctx action s = Some a \<Longrightarrow> a \<in> set (db_approvals s) \<and> durable now ctx action a"
proof -
  assume "first_approval now ctx action s = Some a"
  then obtain rest where "latest_first (filter (durable now ctx action) (db_approvals s)) = a # rest"
    by (auto simp: first_approval_def split: list.splits)
  then have "a \<in> set (latest_first (filter (durable now ctx action) (db_approvals s)))" by simp
  then show ?thesis by simp
qed

lemma first_approval_exists: "a \<in> set (db_approvals s) \<Longrightarrow> durable now ctx action a \<Longrightarrow> \<exists>b. first_approval now ctx action s = Some b"
proof -
  assume "a \<in> set (db_approvals s)" "durable now ctx action a"
  then have "a \<in> set (latest_first (filter (durable now ctx action) (db_approvals s)))" by simp
  then show ?thesis by (cases "latest_first (filter (durable now ctx action) (db_approvals s))") (auto simp: first_approval_def)
qed

lemma findDurable_run:
  "findDurableApproval now ctx action s =
     (case first_approval now ctx action s of
        None \<Rightarrow> (s, Inl (Forbidden ''A valid durable approval is required before execution.''))
      | Some a \<Rightarrow> (s, Inr a))"
  using first_approval_Some [of now ctx action s]
  by (auto simp: findDurableApproval_def durable_def oguard_def split: option.split)

lemma findDurable_Inr:
  "findDurableApproval now ctx action s = (s', Inr a) \<Longrightarrow> s' = s \<and> a \<in> set (db_approvals s) \<and> durable now ctx action a"
  using first_approval_Some by (auto simp: findDurable_run split: option.splits)

lemma findDurable_state: "fst (findDurableApproval now ctx action s) = s"
  by (simp add: findDurable_run split: option.split)

text \<open>When \<open>resolveApprovedAction\<close> looks for an approval at all.\<close>

definition executable_status :: "int \<Rightarrow> exec_context \<Rightarrow> ai_action_request \<Rightarrow> bool" where
  "executable_status now ctx action \<longleftrightarrow>
     act_tenant_id action = ctx_tenantId ctx \<and> act_status action = ''approved'' \<and> \<not> is_expired now action"

lemma resolveApprovedAction_ok:
  "executable_status now ctx action \<Longrightarrow> resolveApprovedAction now ctx action s =
     (s, action, snd (findDurableApproval now ctx action s))"
  using findDurable_state [of now ctx action s]
  by (auto simp: resolveApprovedAction_def executable_status_def Let_def split: prod.split)

lemma resolveApprovedAction_refused:
  "\<not> executable_status now ctx action \<Longrightarrow> \<exists>s' a m. resolveApprovedAction now ctx action s = (s', a, Inl (Forbidden m))"
  by (auto simp: resolveApprovedAction_def executable_status_def Let_def)

lemma resolveApprovedAction_Inr:
  assumes "resolveApprovedAction now ctx action s = (s', a, Inr approval)"
  shows "s' = s \<and> a = action \<and> executable_status now ctx action \<and> approval \<in> set (db_approvals s) \<and> durable now ctx action approval"
proof -
  have e: "executable_status now ctx action"
    using assms resolveApprovedAction_refused [of now ctx action s] by fastforce
  then have "s' = s" "a = action" "snd (findDurableApproval now ctx action s) = Inr approval"
    using assms by (auto simp: resolveApprovedAction_ok)
  moreover then have "findDurableApproval now ctx action s = (s, Inr approval)"
    using findDurable_state [of now ctx action s] by (metis prod.collapse)
  ultimately show ?thesis using e findDurable_Inr by blast
qed

lemma resolveApprovedAction_action:
  "resolveApprovedAction now ctx action s = (s', a, r) \<Longrightarrow> (s' = s \<and> a = action) \<or> a = expired_action now action"
  using findDurable_state [of now ctx action s]
  by (auto simp: resolveApprovedAction_def Let_def split: if_splits prod.splits)

lemma approvalExpiry_after: "now + DEFAULT_APPROVED_ACTION_EXECUTION_TTL_MS \<le> approvalExpiryForAction now action"
  by (simp add: approvalExpiryForAction_def Let_def split: option.split)

lemma durable_decision_row:
  "now' < expiresAt \<Longrightarrow> durable now' ctx action (decision_row now ctx action source ''approved'' label why expiresAt new_id)"
  by (simp add: durable_def decision_row_def)

lemma durable_fields: "act_id a = act_id b \<Longrightarrow> act_capability_name a = act_capability_name b \<Longrightarrow>
    act_capability_version a = act_capability_version b \<Longrightarrow> act_input_hash a = act_input_hash b \<Longrightarrow> durable now ctx a = durable now ctx b"
  by (simp add: durable_def fun_eq_iff)

lemma durable_policy_row:
  "now' < expiresAt \<Longrightarrow> durable now' ctx action (policy_row now ctx action decision expiresAt new_id)"
  by (simp add: durable_def policy_row_def decision_row_def)

lemma resolve_by_policy_Inr:
  assumes "resolve_by_policy pf now ctx action contract exec s = (s', Inr approval)"
  shows "pd_outcome (resolve_policy pf now ctx action contract exec s) = PolicyApproved
    \<and> approval \<in> set (db_approvals s') \<and> durable now ctx action approval"
proof -
  let ?d = "resolve_policy pf now ctx action contract exec s"
  from assms obtain s1 action' where rec: "recordPolicyDecision now action ?d s = (s1, Inr action')"
    and ok: "pd_outcome ?d = PolicyApproved" and run: "approveActionRequestByPolicy pf now ctx action' ?d s1 = (s', Inr approval)"
    by (auto simp: resolve_by_policy_def obind_Inr_iff oguard_Inr_iff)
  from rec have same: "act_id action' = act_id action" "act_capability_name action' = act_capability_name action"
    "act_capability_version action' = act_capability_version action" "act_input_hash action' = act_input_hash action"
    by (auto simp: recordPolicyDecision_def save_action_def)
  from run have "approval \<in> set (db_approvals s')" "durable now ctx action' approval"
    using approvalExpiry_after [of now action']
    by (auto simp: approveActionRequestByPolicy_def markApproved_def op_simps Let_def DEFAULT_APPROVED_ACTION_EXECUTION_TTL_MS_def
      intro!: durable_policy_row)
  with ok durable_fields [OF same] show ?thesis by simp
qed

lemma resolved_for_execution:
  assumes "resolveApprovedActionForExecution pf hasResolver now ctx action contract exec s = (s', Inr approval)"
  shows "durable now ctx action approval \<and> approval \<in> set (db_approvals s')
    \<and> (s' = s \<and> (executable_status now ctx action
          \<or> act_status action = APPROVED_ACTION_EXECUTING_STATUS \<and> executionClaimId action = executionMetadataClaimId exec
            \<and> executionClaimId action \<noteq> None)
       \<or> act_status action = ''pending'' \<and> hasResolver
          \<and> pd_outcome (resolve_policy pf now ctx action contract exec s) = PolicyApproved)"
proof -
  obtain s1 a r where res: "resolveApprovedAction now ctx action s = (s1, a, r)" by (metis prod_cases3)
  show ?thesis
  proof (cases r)
    case (Inr b)
    with assms res have "s' = s1" "approval = b" by (simp_all add: resolveApprovedActionForExecution_def)
    with resolveApprovedAction_Inr [of now ctx action s s1 a b] res Inr show ?thesis by auto
  next
    case (Inl e)
    have not_expired: "a = expired_action now action \<Longrightarrow> act_status a = ''expired''" by (simp add: expired_action_def)
    from assms res Inl consider
        (claim) y where "act_status a = APPROVED_ACTION_EXECUTING_STATUS" "executionClaimId a = Some y"
          "executionMetadataClaimId exec = Some y" "findDurableApproval now ctx a s1 = (s', Inr approval)"
      | (policy) "act_status a = ''pending''" "hasResolver" "resolve_by_policy pf now ctx a contract exec s1 = (s', Inr approval)"
      by (auto simp: resolveApprovedActionForExecution_def split: if_splits) metis
    then show ?thesis
    proof cases
      case claim
      then have "a = action" "s1 = s"
        using resolveApprovedAction_action [OF res] not_expired by (auto simp: APPROVED_ACTION_EXECUTING_STATUS_def)
      with claim findDurable_Inr [of now ctx action s s' approval] show ?thesis by auto
    next
      case policy
      then have "a = action" "s1 = s" using resolveApprovedAction_action [OF res] not_expired by auto
      with policy resolve_by_policy_Inr show ?thesis by blast
    qed
  qed
qed

text \<open>C18: An action is let through to execution only with an approval of exactly this request: same tenant,
  action, capability, version and input hash, approved and unexpired, stored in the table.  Either that
  approval was there before and the action is approved (or executing under this very claim), or a
  policy has approved the pending action just now.\<close>

theorem execution_needs_approval:
  assumes "resolveApprovedActionForExecution pf hasResolver now ctx action contract exec s = (s', Inr approval)"
  shows "durable now ctx action approval \<and> approval \<in> set (db_approvals s')
    \<and> (s' = s \<and> (executable_status now ctx action
          \<or> act_status action = APPROVED_ACTION_EXECUTING_STATUS \<and> executionClaimId action = executionMetadataClaimId exec
            \<and> executionClaimId action \<noteq> None)
       \<or> act_status action = ''pending'' \<and> hasResolver
          \<and> pd_outcome (resolve_policy pf now ctx action contract exec s) = PolicyApproved)"
  using assms by (rule resolved_for_execution)

definition closed_statuses :: "string list" where
  "closed_statuses = [''executed'', ''failed'', ''rejected'', ''dismissed'']"

text \<open>C19: An executed, failed, rejected or dismissed action request is final: it can be neither approved, nor
  rejected, nor dismissed, nor executed, and every attempt leaves the database as it was.\<close>

theorem closed_action_final:
  assumes "find_tenant_action ctx k s = Some action" "act_status action \<in> set closed_statuses"
  shows "\<exists>e1 e2 e3 e4. approveActionRequest pf now ctx k opts s = (s, Inl e1)
    \<and> rejectActionRequest pf now ctx k why s = (s, Inl e2)
    \<and> dismissActionRequest pf now ctx k why s = (s, Inl e3)
    \<and> resolveApprovedActionForExecution pf hasResolver now ctx action contract exec s = (s, Inl e4)"
proof -
  have f: "findProviderActionForExecution ctx k s = (s, Inr action)"
    using assms(1) by (simp add: findProviderActionForExecution_def find_tenant_action_def)
  have b: "obind (findProviderActionForExecution ctx k) g s = g action s" for g :: "ai_action_request \<Rightarrow> 'z op"
    using f by (rule obind_step)
  have t: "act_tenant_id action = ctx_tenantId ctx" using assms(1) by (auto simp: find_tenant_action_def find_Some_iff)
  from assms(2) have st: "act_status action \<in> {''executed'', ''failed'', ''rejected'', ''dismissed''}" by (simp add: closed_statuses_def)
  then have "\<exists>e. approveActionRequest pf now ctx k opts s = (s, Inl e)"
    by (auto simp: approveActionRequest_def b oguard_def)
  moreover from st have "\<exists>e. rejectActionRequest pf now ctx k why s = (s, Inl e)"
    by (auto simp: rejectActionRequest_def b oguard_def)
  moreover from st have "\<exists>e. dismissActionRequest pf now ctx k why s = (s, Inl e)"
    by (auto simp: dismissActionRequest_def b oguard_def)
  moreover from st t have "\<exists>e. resolveApprovedActionForExecution pf hasResolver now ctx action contract exec s = (s, Inl e)"
    by (auto simp: resolveApprovedActionForExecution_def resolveApprovedAction_def Let_def APPROVED_ACTION_EXECUTING_STATUS_def)
  ultimately show ?thesis by blast
qed

text \<open>An approved action can be executed: within thirty minutes of a successful approval the check before
  execution finds a valid durable approval of the approved action.\<close>

theorem approved_action_executable:
  assumes approved: "approveActionRequest pf now ctx k opts s = (s', Inr (action, approval))"
    and soon: "now' < now + DEFAULT_APPROVED_ACTION_EXECUTION_TTL_MS"
  shows "\<exists>valid. resolveApprovedActionForExecution pf hasResolver now' ctx action contract exec s' = (s', Inr valid)
    \<and> durable now' ctx action valid"
proof -
  from approved obtain a where f: "findProviderActionForExecution ctx k s = (s, Inr a)"
    and action: "action = a\<lparr>act_status := ''approved'', act_approved_at := Some now,
        act_expires_at := Some (approvalExpiryForAction now a), act_updated_at := now\<rparr>"
    and approval: "approval = decision_row now ctx a (with_default ''human_ui'' (ao_source opts)) ''approved''
        (ao_actorLabel opts) (ao_reason opts) (approvalExpiryForAction now a) (uuid pf (db_minted s))"
    and rows: "db_approvals s' = save_row apv_id approval (db_approvals s)"
    by (auto simp: approveActionRequest_def obind_Inr_iff oguard_Inr_iff findProviderActionForExecution_def
      markApproved_def op_simps Let_def split: if_splits option.splits)
  have later: "now' < approvalExpiryForAction now a" using soon approvalExpiry_after [of now a] by simp
  have "act_tenant_id a = ctx_tenantId ctx"
    using f by (auto simp: findProviderActionForExecution_def find_Some_iff split: option.splits)
  with later have e: "executable_status now' ctx action" by (simp add: action executable_status_def is_expired_def)
  have "durable now' ctx a approval" unfolding approval using later by (rule durable_decision_row)
  then have "durable now' ctx action approval" by (simp add: action durable_def)
  moreover have "approval \<in> set (db_approvals s')" by (simp add: rows)
  ultimately obtain valid where v: "first_approval now' ctx action s' = Some valid" using first_approval_exists by blast
  then have "resolveApprovedActionForExecution pf hasResolver now' ctx action contract exec s' = (s', Inr valid)"
    using resolveApprovedAction_ok [OF e, of s'] by (simp add: resolveApprovedActionForExecution_def findDurable_run)
  with first_approval_Some [OF v] show ?thesis by blast
qed

definition ready_action :: ai_action_request where
  "ready_action = sample_action\<lparr>act_status := ''approved''\<rparr>"

definition ready_db :: db where
  "ready_db = empty_db\<lparr>db_actions := [ready_action],
     db_approvals := [decision_row 0 sample_ctx ready_action ''human_ui'' ''approved'' None None 900 ''v1'']\<rparr>"

lemma ready_run: "\<exists>a. resolveApprovedActionForExecution sample_platform True 10 sample_ctx ready_action sample_contract None ready_db
    = (ready_db, Inr a)"
proof -
  have e: "executable_status 10 sample_ctx ready_action"
    by (simp add: executable_status_def ready_action_def sample_action_def sample_ctx_def is_expired_def)
  have "durable 10 sample_ctx ready_action (decision_row 0 sample_ctx ready_action ''human_ui'' ''approved'' None None 900 ''v1'')"
    by (rule durable_decision_row) simp
  from first_approval_exists [OF _ this, of ready_db]
  obtain b where "first_approval 10 sample_ctx ready_action ready_db = Some b" by (auto simp: ready_db_def)
  with resolveApprovedAction_ok [OF e, of ready_db] show ?thesis
    by (simp add: resolveApprovedActionForExecution_def findDurable_run)
qed

theorem execution_needs_approval_witness:
  "\<exists>a. durable 10 sample_ctx ready_action a \<and> a \<in> set (db_approvals ready_db)"
  using ready_run execution_needs_approval by blast

theorem closed_action_final_witness:
  "\<exists>e. approveActionRequest sample_platform 10 sample_ctx ''act1'' \<lparr> ao_source = None, ao_reason = None, ao_actorLabel = None \<rparr>
       (empty_db\<lparr>db_actions := [sample_action\<lparr>act_status := ''rejected''\<rparr>]\<rparr>)
     = (empty_db\<lparr>db_actions := [sample_action\<lparr>act_status := ''rejected''\<rparr>]\<rparr>, Inl e)"
  using closed_action_final [of sample_ctx "''act1''" "empty_db\<lparr>db_actions := [sample_action\<lparr>act_status := ''rejected''\<rparr>]\<rparr>"
      "sample_action\<lparr>act_status := ''rejected''\<rparr>" sample_platform 10]
  by (simp add: find_tenant_action_def sample_action_def sample_ctx_def closed_statuses_def)

lemma sample_approve: "\<exists>s' a v. approveActionRequest sample_platform 10 sample_ctx ''act1''
      \<lparr> ao_source = None, ao_reason = None, ao_actorLabel = None \<rparr> (empty_db\<lparr>db_actions := [sample_action]\<rparr>) = (s', Inr (a, v))"
  by (simp add: approveActionRequest_def findProviderActionForExecution_def op_simps Let_def sample_action_def sample_ctx_def
    is_expired_def markApproved_def)

theorem approved_action_executable_witness:
  "\<exists>s' a v valid. approveActionRequest sample_platform 10 sample_ctx ''act1''
       \<lparr> ao_source = None, ao_reason = None, ao_actorLabel = None \<rparr> (empty_db\<lparr>db_actions := [sample_action]\<rparr>) = (s', Inr (a, v))
     \<and> resolveApprovedActionForExecution sample_platform True 500 sample_ctx a sample_contract None s' = (s', Inr valid)"
proof -
  obtain s' a v where f: "approveActionRequest sample_platform 10 sample_ctx ''act1''
      \<lparr> ao_source = None, ao_reason = None, ao_actorLabel = None \<rparr> (empty_db\<lparr>db_actions := [sample_action]\<rparr>) = (s', Inr (a, v))"
    using sample_approve by blast
  from approved_action_executable [OF f, of 500 True sample_contract None] f show ?thesis
    by (auto simp: DEFAULT_APPROVED_ACTION_EXECUTION_TTL_MS_def)
qed

end
