(* ===== verification/Pauses.thy ===== *)
theory Pauses
  imports Contracts
begin

section \<open>Emergency pauses (pause/ai-emergency-pause.service.ts)\<close>

text \<open>
  Creating, revoking and looking up the pauses that stop capabilities of a tenant.  A column that
  is SQL null matches everything.  Query results are ordered by creation, newest first.
\<close>

record pause_input =
  pi_scope :: "string option"
  pi_agentDefinitionId :: "string option"
  pi_capabilityName :: "string option"
  pi_category :: "string option"
  pi_effect :: "string option"
  pi_reason :: string
  pi_expiresAt :: "int option"

definition pause_row :: "int \<Rightarrow> exec_context \<Rightarrow> pause_input \<Rightarrow> string \<Rightarrow> string \<Rightarrow> ai_emergency_pause" where
  "pause_row now ctx input scope new_id =
     \<lparr> pause_id = new_id,
       pause_tenant_id = Some (ctx_tenantId ctx),
       pause_scope = scope,
       pause_agent_definition_id = (if scope = ''agent'' then pi_agentDefinitionId input else None),
       pause_capability_name = pi_capabilityName input,
       pause_category = pi_category input,
       pause_effect = pi_effect input,
       pause_active = True,
       pause_reason = pi_reason input,
       pause_actor_user_id = Some (ctx_userId ctx),
       pause_actor_label = None,
       pause_expires_at = pi_expiresAt input,
       pause_revoked_at = None,
       pause_created_at = now \<rparr>"

definition agent_known :: "exec_context \<Rightarrow> string option \<Rightarrow> db \<Rightarrow> bool" where
  "agent_known ctx agentId s \<longleftrightarrow>
     list_ex (\<lambda>a. Some (agent_id a) = agentId \<and> agent_tenant_id a = ctx_tenantId ctx) (db_agents s)"

definition createPause :: "platform \<Rightarrow> int \<Rightarrow> exec_context \<Rightarrow> pause_input \<Rightarrow> ai_emergency_pause op" where
  "createPause pf now ctx input =
     (let scope = with_default ''tenant'' (pi_scope input);
          agentDefinitionId = pi_agentDefinitionId input;
          insert_row = obind (mint pf) (\<lambda>new_id. save_pause (pause_row now ctx input scope new_id))
      in oguard (scope = ''global'') (Forbidden ''Global emergency pause mutation requires a platform control path.'')
        (if scope = ''agent''
         then oguard (\<not> truthy agentDefinitionId) (Forbidden ''Agent emergency pause requires an agent definition.'')
             (obind (oread (agent_known ctx agentDefinitionId)) (\<lambda>known.
                oguard (\<not> known) (Forbidden ''Agent definition not found.'') insert_row))
         else oguard (truthy agentDefinitionId) (Forbidden ''Only agent-scoped pauses may reference an agent definition.'')
             insert_row))"

definition find_pause :: "exec_context \<Rightarrow> string \<Rightarrow> db \<Rightarrow> ai_emergency_pause option" where
  "find_pause ctx pauseId s =
     List.find (\<lambda>p. pause_id p = pauseId \<and> pause_tenant_id p = Some (ctx_tenantId ctx)) (db_pauses s)"

definition revokePause :: "int \<Rightarrow> exec_context \<Rightarrow> string \<Rightarrow> ai_emergency_pause op" where
  "revokePause now ctx pauseId =
     obind (oread (find_pause ctx pauseId)) (\<lambda>found.
       case found of
         None \<Rightarrow> othrow (Forbidden ''Emergency pause not found.'')
       | Some p \<Rightarrow> save_pause (p\<lparr>pause_active := False, pause_revoked_at := Some now\<rparr>))"

definition getPause :: "exec_context \<Rightarrow> string \<Rightarrow> ai_emergency_pause option op" where
  "getPause ctx pauseId = oread (find_pause ctx pauseId)"

text \<open>\<open>column IS NULL OR column = :value\<close>.\<close>

definition null_or_eq :: "'a option \<Rightarrow> 'a \<Rightarrow> bool" where
  "null_or_eq col v \<longleftrightarrow> col = None \<or> col = Some v"

definition pause_live :: "int \<Rightarrow> exec_context \<Rightarrow> ai_emergency_pause \<Rightarrow> bool" where
  "pause_live now ctx p \<longleftrightarrow>
     (pause_tenant_id p = Some (ctx_tenantId ctx) \<or> pause_tenant_id p = None)
     \<and> pause_active p
     \<and> (case pause_expires_at p of None \<Rightarrow> True | Some t \<Rightarrow> now < t)"

definition newest_first :: "ai_emergency_pause list \<Rightarrow> ai_emergency_pause list" where
  "newest_first ps = sort_key (\<lambda>p. - pause_created_at p) ps"

definition first_row :: "'a list \<Rightarrow> 'a option" where
  "first_row rows = (case rows of [] \<Rightarrow> None | r # _ \<Rightarrow> Some r)"

definition tenant_wide :: "ai_emergency_pause \<Rightarrow> bool" where
  "tenant_wide p \<longleftrightarrow> pause_agent_definition_id p = None \<and> (pause_scope p = ''tenant'' \<or> pause_scope p = ''global'')"

definition findActiveTenantWidePause :: "int \<Rightarrow> exec_context \<Rightarrow> db \<Rightarrow> ai_emergency_pause option" where
  "findActiveTenantWidePause now ctx s =
     first_row (newest_first (filter (\<lambda>p. pause_live now ctx p \<and> tenant_wide p) (db_pauses s)))"

record pause_check =
  pc_capabilityName :: string
  pc_category :: string
  pc_effect :: string
  pc_agentDefinitionId :: "string option"

definition pause_covers :: "pause_check \<Rightarrow> ai_emergency_pause \<Rightarrow> bool" where
  "pause_covers input p \<longleftrightarrow>
     null_or_eq (pause_capability_name p) (pc_capabilityName input)
     \<and> null_or_eq (pause_category p) (pc_category input)
     \<and> null_or_eq (pause_effect p) (pc_effect input)
     \<and> (if truthy (pc_agentDefinitionId input)
        then null_or_eq (pause_agent_definition_id p) (the (pc_agentDefinitionId input))
        else pause_agent_definition_id p = None)"

definition findActivePause :: "int \<Rightarrow> exec_context \<Rightarrow> pause_check \<Rightarrow> db \<Rightarrow> ai_emergency_pause option" where
  "findActivePause now ctx input s =
     first_row (newest_first (filter (\<lambda>p. pause_live now ctx p \<and> pause_covers input p) (db_pauses s)))"

definition contract_check :: "capability_contract \<Rightarrow> string option \<Rightarrow> pause_check" where
  "contract_check contract agentDefinitionId =
     \<lparr> pc_capabilityName = c_name contract, pc_category = c_category contract,
       pc_effect = c_effect contract, pc_agentDefinitionId = agentDefinitionId \<rparr>"

definition assertNotPaused :: "int \<Rightarrow> exec_context \<Rightarrow> capability_contract \<Rightarrow> string option \<Rightarrow> unit op" where
  "assertNotPaused now ctx contract agentDefinitionId =
     obind (oread (findActivePause now ctx (contract_check contract agentDefinitionId))) (\<lambda>pause.
       case pause of
         None \<Rightarrow> oret ()
       | Some p \<Rightarrow> othrow (Forbidden (''AI emergency pause is active: '' @ pause_reason p)))"

subsection \<open>Lemmas\<close>

lemma first_row_None: "first_row (newest_first ps) = None \<longleftrightarrow> ps = []"
proof -
  have "newest_first ps = [] \<longleftrightarrow> ps = []"
    by (metis newest_first_def length_0_conv length_sort)
  then show ?thesis by (cases "newest_first ps") (auto simp: first_row_def)
qed

lemma findActivePause_None:
  "findActivePause now ctx input s = None \<longleftrightarrow> (\<forall>p\<in>set (db_pauses s). \<not> (pause_live now ctx p \<and> pause_covers input p))"
  by (simp add: findActivePause_def first_row_None filter_empty_conv)

lemma assertNotPaused_Inr:
  "assertNotPaused now ctx contract agent s = (s', Inr u) \<longleftrightarrow>
     s' = s \<and> findActivePause now ctx (contract_check contract agent) s = None"
  by (auto simp: assertNotPaused_def op_simps split: option.splits)

lemma assertNotPaused_cases:
  "assertNotPaused now ctx contract agent s = (s, Inr ()) \<or> (\<exists>m. assertNotPaused now ctx contract agent s = (s, Inl (Forbidden m)))"
  by (auto simp: assertNotPaused_def op_simps split: option.splits)

lemma assertNotPaused_keeps [intro]: "keeps P (assertNotPaused now ctx contract agent)"
  unfolding assertNotPaused_def by (intro keeps_obind) (auto split: option.splits)

lemma createPause_Inr:
  assumes "createPause pf now ctx input s = (s', Inr p)"
  shows "p = pause_row now ctx input (with_default ''tenant'' (pi_scope input)) (uuid pf (db_minted s))
    \<and> s' = s\<lparr>db_minted := Suc (db_minted s), db_pauses := save_row pause_id p (db_pauses s)\<rparr>
    \<and> with_default ''tenant'' (pi_scope input) \<noteq> ''global''
    \<and> (with_default ''tenant'' (pi_scope input) = ''agent'' \<longrightarrow> truthy (pi_agentDefinitionId input) \<and> agent_known ctx (pi_agentDefinitionId input) s)"
  using assms by (auto simp: createPause_def op_simps Let_def split: if_splits)

lemma other_tenant_untouched:
  assumes "\<forall>p. p \<in> set ps' \<and> pause_live now ctx p \<longleftrightarrow> p \<in> set ps \<and> pause_live now ctx p"
  shows "(\<forall>p\<in>set ps'. \<not> (pause_live now ctx p \<and> Q p)) \<longleftrightarrow> (\<forall>p\<in>set ps. \<not> (pause_live now ctx p \<and> Q p))"
  using assms by blast

text \<open>C15: A pause a tenant creates stops, from then until it expires, every capability it covers, and it
  changes nothing for any other tenant: what was running there runs, what was stopped is stopped.\<close>

theorem createPause_stops:
  assumes created: "createPause pf now ctx input s = (s', Inr p)"
    and fresh: "uuid pf (db_minted s) \<notin> pause_id ` set (db_pauses s)"
  shows "(pause_covers (contract_check contract agent) p \<longrightarrow> pred_option (\<lambda>t. now' < t) (pi_expiresAt input) \<longrightarrow>
           (\<exists>m. assertNotPaused now' ctx contract agent s' = (s', Inl (Forbidden m))))
     \<and> (ctx_tenantId ctx' \<noteq> ctx_tenantId ctx \<longrightarrow>
           (\<forall>u. assertNotPaused now' ctx' contract agent s' = (s', Inr u) \<longleftrightarrow>
                assertNotPaused now' ctx' contract agent s = (s, Inr u)))"
proof -
  note c = createPause_Inr [OF created]
  have "pause_id p = uuid pf (db_minted s)" using c by (simp add: pause_row_def)
  then have "\<forall>x\<in>set (db_pauses s). pause_id x \<noteq> pause_id p" using fresh by (metis image_eqI)
  moreover have "db_pauses s' = save_row pause_id p (db_pauses s)" using c by simp
  ultimately have rows: "set (db_pauses s') = insert p (set (db_pauses s))"
    by (auto simp: pause_rows.save_rows)
  have live: "pause_live now' ctx p" if "pred_option (\<lambda>t. now' < t) (pi_expiresAt input)"
    using c that by (auto simp: pause_live_def pause_row_def split: option.splits)
  have dead: "\<not> pause_live now' ctx' p" if "ctx_tenantId ctx' \<noteq> ctx_tenantId ctx"
    using c that by (simp add: pause_live_def pause_row_def)
  show ?thesis
  proof (intro conjI impI)
    assume "pause_covers (contract_check contract agent) p" "pred_option (\<lambda>t. now' < t) (pi_expiresAt input)"
    then have "findActivePause now' ctx (contract_check contract agent) s' \<noteq> None"
      using live by (auto simp: findActivePause_None rows)
    then show "\<exists>m. assertNotPaused now' ctx contract agent s' = (s', Inl (Forbidden m))"
      using assertNotPaused_cases [of now' ctx contract agent s'] by (auto simp: assertNotPaused_Inr)
  next
    assume "ctx_tenantId ctx' \<noteq> ctx_tenantId ctx"
    then show "\<forall>u. assertNotPaused now' ctx' contract agent s' = (s', Inr u) \<longleftrightarrow>
        assertNotPaused now' ctx' contract agent s = (s, Inr u)"
      using dead by (auto simp: assertNotPaused_Inr findActivePause_None rows)
  qed
qed

definition stop_all :: pause_input where
  "stop_all = \<lparr> pi_scope = None, pi_agentDefinitionId = None, pi_capabilityName = None, pi_category = None,
     pi_effect = Some ''write'', pi_reason = ''incident'', pi_expiresAt = Some 100 \<rparr>"

lemma stop_all_created: "\<exists>s' p. createPause sample_platform 5 sample_ctx stop_all empty_db = (s', Inr p)
    \<and> pause_covers (contract_check sample_contract None) p"
  by (simp add: createPause_def op_simps Let_def stop_all_def with_default_def truthy_def pause_row_def
    pause_covers_def contract_check_def sample_contract_def null_or_eq_def)

theorem createPause_stops_witness:
  "\<exists>s' p m. createPause sample_platform 5 sample_ctx stop_all empty_db = (s', Inr p)
     \<and> assertNotPaused 50 sample_ctx sample_contract None s' = (s', Inl (Forbidden m))"
proof -
  obtain s' p where c: "createPause sample_platform 5 sample_ctx stop_all empty_db = (s', Inr p)"
    and cov: "pause_covers (contract_check sample_contract None) p" using stop_all_created by blast
  from createPause_stops [OF c, of sample_contract None 50 sample_ctx] cov c show ?thesis
    by (auto simp: empty_db_def stop_all_def)
qed

lemma find_pause_Some: "find_pause ctx k s = Some p \<Longrightarrow> p \<in> set (db_pauses s) \<and> pause_id p = k
    \<and> pause_tenant_id p = Some (ctx_tenantId ctx)"
  by (auto simp: find_pause_def find_Some_iff)

text \<open>Revoking a pause turns off that pause of the tenant and no other: afterwards exactly the other
  pauses stop capabilities, for every tenant, and a pause of another tenant or a global one is never revoked.\<close>

theorem revokePause_exact:
  assumes revoked: "revokePause now ctx pauseId s = (s', Inr p)"
    and ids: "distinct (map pause_id (db_pauses s))"
  shows "pause_tenant_id p = Some (ctx_tenantId ctx) \<and> pause_id p = pauseId
     \<and> (findActivePause now' ctx' check s' = None \<longleftrightarrow>
          (\<forall>q\<in>set (db_pauses s). pause_id q \<noteq> pauseId \<longrightarrow> \<not> (pause_live now' ctx' q \<and> pause_covers check q)))"
proof -
  from revoked obtain q where q: "find_pause ctx pauseId s = Some q"
    and p: "p = q\<lparr>pause_active := False, pause_revoked_at := Some now\<rparr>"
    and s': "s' = s\<lparr>db_pauses := save_row pause_id p (db_pauses s)\<rparr>"
    by (auto simp: revokePause_def op_simps split: option.splits)
  note found = find_pause_Some [OF q]
  have "\<not> pause_live now' ctx' p" by (simp add: p pause_live_def)
  then have "findActivePause now' ctx' check s' = None \<longleftrightarrow>
          (\<forall>q\<in>set (db_pauses s). pause_id q \<noteq> pauseId \<longrightarrow> \<not> (pause_live now' ctx' q \<and> pause_covers check q))"
    using found by (auto simp: findActivePause_None s' pause_rows.save_rows p)
  with found p show ?thesis by simp
qed

definition paused_db :: db where
  "paused_db = empty_db\<lparr>db_pauses := [pause_row 5 sample_ctx stop_all ''tenant'' ''x1'']\<rparr>"

theorem revokePause_exact_witness:
  "\<exists>s' p. revokePause 7 sample_ctx ''x1'' paused_db = (s', Inr p)
     \<and> findActivePause 8 sample_ctx (contract_check sample_contract None) s' = None"
proof -
  obtain s' p where r: "revokePause 7 sample_ctx ''x1'' paused_db = (s', Inr p)"
    by (simp add: revokePause_def find_pause_def paused_db_def pause_row_def op_simps)
  from revokePause_exact [OF r, of 8 sample_ctx "contract_check sample_contract None"] r show ?thesis
    by (auto simp: paused_db_def pause_row_def)
qed

end
