(* ===== verification/Dispatcher.thy ===== *)
theory Dispatcher
  imports Approvals Pauses
begin

section \<open>The capability dispatcher (dispatcher/ai-capability-dispatcher.service.ts)\<close>

text \<open>
  Every capability runs through \<open>execute\<close>: surface, run, contract, step and tool rows, the checks,
  the emergency pause, the approval gate, the pause once more, then the handler under a savepoint,
  its evidence and the final statuses; a throw in between marks the rows failed and is rethrown.
\<close>

subsection \<open>Reading the output\<close>

definition isKnownSurface :: "string option \<Rightarrow> bool" where
  "isKnownSurface v \<longleftrightarrow> v \<in> {Some ''chat'', Some ''mcp'', Some ''scheduler'', Some ''alert'', Some ''internal''}"

fun js_boolean :: "jsval \<Rightarrow> bool" where
  "js_boolean (JBool _) = True"
| "js_boolean _ = False"

definition isAdapterFailure :: "jsval \<Rightarrow> bool" where
  "isAdapterFailure v \<longleftrightarrow> isRecord v \<and> js_get v ''ok'' = JBool False
     \<and> js_text_value (js_get v ''errorCode'') \<noteq> None \<and> js_text_value (js_get v ''message'') \<noteq> None
     \<and> js_boolean (js_get v ''retryable'')"

definition has_own :: "jsval \<Rightarrow> string \<Rightarrow> bool" where
  "has_own v k \<longleftrightarrow> k \<in> set (map fst (obj_entries v))"

definition toOutputStatus :: "jsval \<Rightarrow> string" where
  "toOutputStatus output =
     (if isAdapterFailure output then ''provider_error''
      else if has_own output ''error'' then ''failed''
      else ''completed'')"

definition evidence_seed_shape :: "jsval \<Rightarrow> bool" where
  "evidence_seed_shape v \<longleftrightarrow> isRecord v
     \<and> list_all (\<lambda>k. js_text_value (js_get v k) \<noteq> None) [''sourceProvider'', ''sourceType'', ''collectedAt'', ''trustLevel'', ''summary'']"

definition field_text :: "jsval \<Rightarrow> string \<Rightarrow> string" where
  "field_text v k = with_default [] (js_text_value (js_get v k))"

definition adapterEvidenceSeeds :: "(string \<Rightarrow> int) \<Rightarrow> jsval \<Rightarrow> adapter_seed list" where
  "adapterEvidenceSeeds instant v =
     (case js_get v ''evidence'' of
        JArr vs \<Rightarrow> map (\<lambda>e.
          \<lparr> as_sourceProvider = field_text e ''sourceProvider'', as_sourceType = field_text e ''sourceType'',
            as_sourceId = js_text_value (js_get e ''sourceId''), as_sourceUri = js_text_value (js_get e ''sourceUri''),
            as_collectedAt = instant (field_text e ''collectedAt''), as_trustLevel = field_text e ''trustLevel'',
            as_summary = field_text e ''summary'', as_redactedPayload = js_get e ''redactedPayload'',
            as_rawPayloadRetention = js_text_value (js_get e ''rawPayloadRetention'') \<rparr>)
          (filter evidence_seed_shape vs)
      | _ \<Rightarrow> [])"

definition nonempty_text :: "jsval \<Rightarrow> string list" where
  "nonempty_text v = (case v of JStr s \<Rightarrow> if s = [] then [] else [s] | _ \<Rightarrow> [])"

definition actionRequestIdsFromProviderOutput :: "jsval \<Rightarrow> string list" where
  "actionRequestIdsFromProviderOutput v =
     (if js_get v ''ok'' \<noteq> JBool True \<or> \<not> isRecord (js_get v ''data'') then []
      else let data = js_get v ''data'' in
        unique_texts (nonempty_text (js_get data ''action_request_id'')
          @ nonempty_text (js_get (js_get data ''actionRequest'') ''id'')))"

definition providerErrorMetadata :: "jsval \<Rightarrow> jsval option" where
  "providerErrorMetadata output =
     (if \<not> isAdapterFailure output then None
      else Some (JObj [(''error_code'', js_get output ''errorCode''), (''message'', js_get output ''message''),
                       (''retryable'', js_get output ''retryable''),
                       (''provider_request_id'', null_if_undef (js_get output ''providerRequestId''))]))"

definition aggregateRunStatus :: "string \<Rightarrow> string \<Rightarrow> string" where
  "aggregateRunStatus current next =
     (if current = ''failed'' \<or> next = ''failed'' then ''failed''
      else if current = ''provider_error'' \<or> next = ''provider_error'' then ''provider_error''
      else next)"

definition asMetadata :: "jsval \<Rightarrow> (string \<times> jsval) list" where
  "asMetadata v = obj_entries v"

subsection \<open>The environment of the dispatcher\<close>

text \<open>
  The registry, the handlers, the compiled JSON schemas (Ajv: \<open>None\<close> for a valid value, else the
  errors as path and message) and date texts come from outside.  \<open>dp_meanwhile\<close> is what other
  transactions commit between the approval gate and the second look at the pauses.
\<close>

record dispatcher =
  dp_platform :: platform
  dp_registry :: "exec_context \<Rightarrow> string \<Rightarrow> string option \<Rightarrow> string \<Rightarrow> capability_contract op"
  dp_handler :: "capability_contract \<Rightarrow> exec_context \<Rightarrow> jsval \<Rightarrow> execution \<Rightarrow> jsval op"
  dp_ajv :: "jsval \<Rightarrow> jsval \<Rightarrow> (string \<times> string option) list option"
  dp_instant :: "string \<Rightarrow> int"
  dp_hasResolver :: bool
  dp_inTransaction :: bool
  dp_meanwhile :: "db \<Rightarrow> db"

record dispatch_input =
  di_capabilityName :: string
  di_capabilityVersion :: "string option"
  di_input :: jsval
  di_execution :: "execution option"

definition resolveSurface :: "exec_context \<Rightarrow> execution option \<Rightarrow> string op" where
  "resolveSurface ctx exec =
     (if isKnownSurface (Option.bind exec ex_surface) then oret (the (Option.bind exec ex_surface))
      else if isKnownSurface (Some (ctx_surface ctx)) then oret (ctx_surface ctx)
      else othrow (BadRequest ''Unsupported capability surface.''))"

definition formatValidationErrors :: "(string \<times> string option) list \<Rightarrow> string list" where
  "formatValidationErrors errors = map (\<lambda>(path, message).
     js_trim ((if path = [] then ''/'' else path) @ '' '' @ with_default ''is invalid'' message)) errors"

definition validateCapabilityInput :: "dispatcher \<Rightarrow> capability_contract \<Rightarrow> jsval \<Rightarrow> unit op" where
  "validateCapabilityInput env contract v =
     (case dp_ajv env (c_input_schema contract) v of
        None \<Rightarrow> oret ()
      | Some errors \<Rightarrow> othrow (InvalidInput ''Capability input validation failed.'' (formatValidationErrors errors)))"

definition exec_metadata :: "execution option \<Rightarrow> jsval" where
  "exec_metadata exec = (case exec of None \<Rightarrow> JUndef | Some e \<Rightarrow> ex_metadata e)"

definition executionMetadata :: "exec_context \<Rightarrow> execution option \<Rightarrow> string \<Rightarrow> jsval" where
  "executionMetadata ctx exec surface =
     (let metadata = asMetadata (exec_metadata exec);
          metadata' = (if surface = ''mcp'' then obj_put metadata ''ai_api_key_id'' (or_null (ctx_aiApiKeyId ctx)) else metadata)
      in if metadata' \<noteq> [] then JObj metadata' else JNull)"

definition requiresApproval :: "capability_contract \<Rightarrow> bool" where
  "requiresApproval contract \<longleftrightarrow>
     c_effect contract = ''write'' \<or> c_effect contract = ''remediate'' \<or> c_default_approval contract \<noteq> ''none''"

definition extractPreviewIds :: "jsval \<Rightarrow> string \<Rightarrow> string list op" where
  "extractPreviewIds v field =
     (case js_get v field of
        JArr vs \<Rightarrow> oguard (list_ex (\<lambda>e. js_text_value e = None) vs)
                    (Forbidden ''Capability approval strategy could not resolve action requests.'')
                    (oret (map (\<lambda>e. the (js_text_value e)) vs))
      | _ \<Rightarrow> othrow (Forbidden ''Capability approval strategy could not resolve action requests.''))"

definition extractActionRequestId :: "jsval \<Rightarrow> string \<Rightarrow> string op" where
  "extractActionRequestId v field =
     (case nonblank_text (js_get v field) of
        None \<Rightarrow> othrow (Forbidden ''Capability approval strategy could not resolve action request.'')
      | Some k \<Rightarrow> oret k)"

subsection \<open>The approval gate\<close>

type_synonym gate = "ai_action_request list \<times> ai_approval list"

definition resolve_approved_op :: "int \<Rightarrow> exec_context \<Rightarrow> ai_action_request \<Rightarrow> ai_approval op" where
  "resolve_approved_op now ctx action = (\<lambda>s. case resolveApprovedAction now ctx action s of (s', _, r) \<Rightarrow> (s', r))"

definition gate_action ::
  "dispatcher \<Rightarrow> int \<Rightarrow> exec_context \<Rightarrow> capability_contract \<Rightarrow> jsval \<Rightarrow> string \<Rightarrow> execution \<Rightarrow> gate op" where
  "gate_action env now ctx contract v field exec =
     obind (extractActionRequestId v field) (\<lambda>actionRequestId.
     obind (findProviderActionForExecution ctx actionRequestId) (\<lambda>action.
       oguard (act_capability_name action \<noteq> c_name contract \<or> act_capability_version action \<noteq> c_version contract
               \<or> act_effect action \<noteq> c_effect contract)
         (Forbidden ''Action request does not match the executing capability.'')
      (obind (verifyProviderActionIntegrity (dp_platform env) action) (\<lambda>_.
       obind (resolveApprovedActionForExecution (dp_platform env) (dp_hasResolver env) now ctx action contract (Some exec)) (\<lambda>approval.
         oret ([action], [approval]))))))"

definition gate_preview ::
  "dispatcher \<Rightarrow> int \<Rightarrow> exec_context \<Rightarrow> capability_contract \<Rightarrow> ai_run \<Rightarrow> ai_tool_execution \<Rightarrow> string
     \<Rightarrow> (ai_action_request \<times> ai_approval) op" where
  "gate_preview env now ctx contract run tool previewId =
     obind (ensureForPreview (dp_platform env) now ctx previewId
        \<lparr> po_runId = Some (run_id run), po_toolExecutionId = Some (tool_id tool),
          po_capabilityName = Some (c_name contract), po_capabilityVersion = Some (c_version contract),
          po_effect = Some (c_effect contract), po_evidenceIds = None \<rparr>) (\<lambda>action.
     obind (resolve_approved_op now ctx action) (\<lambda>approval. oret (action, approval)))"

definition enforceApprovalGate ::
  "dispatcher \<Rightarrow> int \<Rightarrow> exec_context \<Rightarrow> capability_contract \<Rightarrow> jsval \<Rightarrow> ai_run \<Rightarrow> ai_tool_execution \<Rightarrow> execution \<Rightarrow> gate op" where
  "enforceApprovalGate env now ctx contract v run tool exec =
     (if \<not> requiresApproval contract then oret ([], [])
      else case c_approval_strategy contract of
        ActionRequestStrategy field \<Rightarrow> gate_action env now ctx contract v field exec
      | NoStrategy \<Rightarrow> othrow (Forbidden ''Capability requires an explicit approval strategy before execution.'')
      | MutationPreviewStrategy field \<Rightarrow>
          obind (extractPreviewIds v field) (\<lambda>previewIds.
          obind (omap (gate_preview env now ctx contract run tool) previewIds) (\<lambda>pairs.
            oret (map fst pairs, map snd pairs))))"

definition first_id :: "('a \<Rightarrow> string) \<Rightarrow> 'a list \<Rightarrow> string option" where
  "first_id f xs = (case xs of [] \<Rightarrow> None | x # _ \<Rightarrow> Some (f x))"

definition applyApprovalGateMetadata :: "ai_tool_execution \<Rightarrow> gate \<Rightarrow> ai_tool_execution" where
  "applyApprovalGateMetadata tool g =
     (case g of (actionRequests, approvals) \<Rightarrow>
       if actionRequests = [] \<and> approvals = [] then tool
       else tool\<lparr>
         tool_action_request_id := first_id act_id actionRequests,
         tool_approval_id := first_id apv_id approvals,
         tool_metadata_json := spread (tool_metadata_json tool) (JObj [(''approval_gate'', JObj
           [(''action_request_ids'', JArr (map (\<lambda>a. JStr (act_id a)) actionRequests)),
            (''approval_ids'', JArr (map (\<lambda>a. JStr (apv_id a)) approvals)),
            (''preview_ids'', JArr (map JStr (filter (\<lambda>p. p \<noteq> []) (List.map_filter act_preview_id actionRequests))))])])\<rparr>)"

subsection \<open>Rows of a run\<close>

definition default_trigger :: "execution option \<Rightarrow> string \<Rightarrow> string" where
  "default_trigger exec surface =
     with_default (if surface = ''mcp'' then ''mcp_client'' else if surface = ''internal'' then ''internal'' else ''human_user'')
       (Option.bind exec ex_trigger_kind)"

definition new_run :: "dispatcher \<Rightarrow> int \<Rightarrow> exec_context \<Rightarrow> dispatch_input \<Rightarrow> string \<Rightarrow> string \<Rightarrow> ai_run" where
  "new_run env now ctx input surface new_id =
     \<lparr> run_id = new_id,
       run_tenant_id = ctx_tenantId ctx,
       run_user_id = (if ctx_userId ctx = [] then None else Some (ctx_userId ctx)),
       run_conversation_id = ctx_conversationId ctx,
       run_request_id = ctx_requestId ctx,
       run_ai_api_key_id = ctx_aiApiKeyId ctx,
       run_invocation_channel = surface,
       run_trigger_kind = default_trigger (di_execution input) surface,
       run_status = ''running'',
       run_input_summary = summarize (dp_platform env) (di_input input),
       run_output_summary = JNull,
       run_usage_json = JNull,
       run_cost_json = JNull,
       run_metadata_json = executionMetadata ctx (di_execution input) surface,
       run_started_at = now,
       run_completed_at = None,
       run_created_at = now,
       run_updated_at = now \<rparr>"

definition createOrLoadRun :: "dispatcher \<Rightarrow> int \<Rightarrow> exec_context \<Rightarrow> dispatch_input \<Rightarrow> string \<Rightarrow> ai_run op" where
  "createOrLoadRun env now ctx input surface =
     (let requestedRunId = Option.bind (di_execution input) ex_runId in
      if truthy requestedRunId
      then obind (oread (\<lambda>s. List.find (\<lambda>r. run_id r = the requestedRunId \<and> run_tenant_id r = ctx_tenantId ctx) (db_runs s))) (\<lambda>existing.
        case existing of None \<Rightarrow> othrow (BadRequest ''Unknown AI run.'') | Some r \<Rightarrow> oret r)
      else obind (mint (dp_platform env)) (\<lambda>new_id. save_run (new_run env now ctx input surface new_id)))"

definition new_step :: "int \<Rightarrow> exec_context \<Rightarrow> dispatch_input \<Rightarrow> ai_run \<Rightarrow> capability_contract \<Rightarrow> jsval \<Rightarrow> string \<Rightarrow> ai_run_step" where
  "new_step now ctx input run contract inputSummary new_id =
     \<lparr> step_id = new_id,
       step_tenant_id = ctx_tenantId ctx,
       step_run_id = run_id run,
       step_step_index = with_default 1 (Option.bind (di_execution input) ex_stepIndex),
       step_kind = ''tool'',
       step_status = ''running'',
       step_capability_name = Some (c_name contract),
       step_capability_version = Some (c_version contract),
       step_input_summary = inputSummary,
       step_output_summary = JNull,
       step_error_message = None,
       step_started_at = now,
       step_completed_at = None,
       step_created_at = now \<rparr>"

definition new_tool ::
  "int \<Rightarrow> exec_context \<Rightarrow> ai_run \<Rightarrow> ai_run_step \<Rightarrow> capability_contract \<Rightarrow> string \<Rightarrow> string \<Rightarrow> jsval \<Rightarrow> jsval \<Rightarrow> string \<Rightarrow> ai_tool_execution" where
  "new_tool now ctx run step contract surface inputHash inputSummary metadata new_id =
     \<lparr> tool_id = new_id,
       tool_tenant_id = ctx_tenantId ctx,
       tool_run_id = run_id run,
       tool_step_id = Some (step_id step),
       tool_action_request_id = None,
       tool_approval_id = None,
       tool_capability_name = c_name contract,
       tool_capability_version = c_version contract,
       tool_surface = surface,
       tool_effect = c_effect contract,
       tool_status = ''running'',
       tool_input_hash = Some inputHash,
       tool_input_summary = inputSummary,
       tool_output_summary = JNull,
       tool_error_message = None,
       tool_duration_ms = None,
       tool_usage_json = JNull,
       tool_cost_json = JNull,
       tool_metadata_json = metadata,
       tool_started_at = now,
       tool_completed_at = None,
       tool_created_at = now \<rparr>"

subsection \<open>Execution\<close>

definition or_message :: "string \<Rightarrow> ai_error \<Rightarrow> string" where
  "or_message fallback err = (if error_message err = [] then fallback else error_message err)"

definition failed_run :: "int \<Rightarrow> string \<Rightarrow> ai_run \<Rightarrow> ai_run" where
  "failed_run t message run = run\<lparr>run_status := ''failed'', run_output_summary := JObj [(''error'', JStr message)],
     run_completed_at := Some t, run_updated_at := t\<rparr>"

definition resolve_contract :: "dispatcher \<Rightarrow> int \<Rightarrow> exec_context \<Rightarrow> dispatch_input \<Rightarrow> string \<Rightarrow> ai_run \<Rightarrow> capability_contract op" where
  "resolve_contract env now ctx input surface run =
     otry (dp_registry env ctx (di_capabilityName input) (di_capabilityVersion input) surface) (\<lambda>err.
       obind (save_run (failed_run now (or_message ''Capability resolution failed.'' err) run)) (\<lambda>_. othrow err))"

definition checks ::
  "dispatcher \<Rightarrow> int \<Rightarrow> exec_context \<Rightarrow> capability_contract \<Rightarrow> jsval \<Rightarrow> string \<Rightarrow> jsval \<Rightarrow> unit op" where
  "checks env now ctx contract v surface metadata =
     oguard (surface \<notin> set (c_supported_surfaces contract)) (BadRequest ''Capability is not available on this surface.'')
    (oguard (surface = ''mcp'' \<and> (c_effect contract \<noteq> ''read'' \<or> c_default_approval contract \<noteq> ''none''
               \<or> \<not> c_mcp_enabled contract \<or> \<not> c_mcp_read_only contract))
       (BadRequest ''Capability is not exposed through MCP.'')
    (obind (validateCapabilityInput env contract v) (\<lambda>_.
       assertNotPaused now ctx contract (metadataString metadata ''agent_definition_id''))))"

definition handler_execution :: "dispatch_input \<Rightarrow> string \<Rightarrow> jsval \<Rightarrow> ai_run \<Rightarrow> ai_run_step \<Rightarrow> ai_tool_execution \<Rightarrow> execution" where
  "handler_execution input surface metadata run step tool =
     \<lparr> ex_runId = Some (run_id run), ex_toolExecutionId = Some (tool_id tool),
       ex_stepIndex = Some (step_step_index step), ex_surface = Some surface,
       ex_trigger_kind = Some (default_trigger (di_execution input) surface),
       ex_idempotency_key = Option.bind (di_execution input) ex_idempotency_key,
       ex_metadata = metadata \<rparr>"

text \<open>Everything up to the approval gate; the tool execution comes back with what the gate noted on it.\<close>

definition admit ::
  "dispatcher \<Rightarrow> int \<Rightarrow> exec_context \<Rightarrow> dispatch_input \<Rightarrow> capability_contract \<Rightarrow> string \<Rightarrow> jsval \<Rightarrow> ai_run \<Rightarrow> ai_run_step
     \<Rightarrow> ai_tool_execution \<Rightarrow> ai_tool_execution op" where
  "admit env now ctx input contract surface metadata run step tool =
     obind (checks env now ctx contract (di_input input) surface metadata) (\<lambda>_.
     obind (enforceApprovalGate env now ctx contract (di_input input) run tool
              (handler_execution input surface metadata run step tool)) (\<lambda>g.
     let tool' = applyApprovalGateMetadata tool g in
     if truthy (tool_action_request_id tool') \<or> truthy (tool_approval_id tool') then save_tool tool' else oret tool'))"

text \<open>\<open>withSavepoint\<close> (common/savepoint.util.ts): a throw undoes what the function did.\<close>

definition withSavepoint :: "bool \<Rightarrow> 'a op \<Rightarrow> 'a op" where
  "withSavepoint inTransaction m = (\<lambda>s.
     if \<not> inTransaction then m s
     else case m s of (s', Inr a) \<Rightarrow> (s', Inr a) | (s', Inl e) \<Rightarrow> (s, Inl e))"

definition meanwhile :: "dispatcher \<Rightarrow> unit op" where
  "meanwhile env = (\<lambda>s. (dp_meanwhile env s, Inr ()))"

text \<open>The second look at the pauses, then the handler.\<close>

definition run_handler ::
  "dispatcher \<Rightarrow> int \<Rightarrow> exec_context \<Rightarrow> dispatch_input \<Rightarrow> capability_contract \<Rightarrow> string \<Rightarrow> jsval \<Rightarrow> ai_run \<Rightarrow> ai_run_step
     \<Rightarrow> ai_tool_execution \<Rightarrow> jsval op" where
  "run_handler env now ctx input contract surface metadata run step tool =
     obind (meanwhile env) (\<lambda>_.
     obind (assertNotPaused now ctx contract (metadataString metadata ''agent_definition_id'')) (\<lambda>_.
       withSavepoint (dp_inTransaction env)
         (dp_handler env contract ctx (di_input input) (handler_execution input surface metadata run step tool))))"

definition output_evidence_seed ::
  "capability_contract \<Rightarrow> ai_run \<Rightarrow> ai_tool_execution \<Rightarrow> string option \<Rightarrow> jsval \<Rightarrow> jsval \<Rightarrow> evidence_seed" where
  "output_evidence_seed contract run tool actionRequestId outputSummary output =
     \<lparr> es_runId = Some (run_id run), es_toolExecutionId = Some (tool_id tool), es_actionRequestId = actionRequestId,
       es_sourceProvider = c_provider_kind contract, es_sourceObjectType = c_name contract,
       es_sourceObjectId = Some (with_default (c_name contract) (c_ai_tool_name contract)), es_sourceUri = None,
       es_trustLevel = Some (if c_provider_kind contract = ''kanap_domain'' then ''system'' else ''external''),
       es_summary = Some (js_string (js_get outputSummary ''summary'')), es_payload = output,
       es_retentionClass = Some (er_retention (c_evidence contract)),
       es_redactFields = er_redact_fields (c_evidence contract), es_collectedAt = None \<rparr>"

definition record_output_evidence ::
  "dispatcher \<Rightarrow> int \<Rightarrow> exec_context \<Rightarrow> capability_contract \<Rightarrow> ai_run \<Rightarrow> ai_tool_execution \<Rightarrow> jsval \<Rightarrow> jsval \<Rightarrow> jsval \<Rightarrow> string list op" where
  "record_output_evidence env t ctx contract run tool rawOutput output outputSummary =
     (let actionRequestId = or_else (tool_action_request_id tool)
            (first_id (\<lambda>k. k) (actionRequestIdsFromProviderOutput output));
          adapterSeeds = adapterEvidenceSeeds (dp_instant env) rawOutput
      in if \<not> er_persist_output (c_evidence contract) then oret []
         else if adapterSeeds \<noteq> []
         then obind (recordAdapterEvidenceSeeds (dp_platform env) t ctx adapterSeeds
                \<lparr> eo_runId = Some (run_id run), eo_toolExecutionId = Some (tool_id tool), eo_actionRequestId = actionRequestId,
                  eo_retentionClass = Some (er_retention (c_evidence contract)),
                  eo_redactFields = er_redact_fields (c_evidence contract) \<rparr>) (\<lambda>rows. oret (map evi_id rows))
         else obind (recordEvidence (dp_platform env) t ctx
                (output_evidence_seed contract run tool actionRequestId outputSummary output)) (\<lambda>e. oret [evi_id e]))"

definition propose_actions ::
  "dispatcher \<Rightarrow> int \<Rightarrow> exec_context \<Rightarrow> capability_contract \<Rightarrow> ai_run \<Rightarrow> ai_tool_execution \<Rightarrow> jsval \<Rightarrow> string list
     \<Rightarrow> ai_action_request list op" where
  "propose_actions env t ctx contract run tool output evidenceIds =
     (if c_effect contract \<noteq> ''propose'' then oret []
      else ensureForPreviewDtos (dp_platform env) t ctx (mutationPreviewDtosFromCapabilityResult output)
        \<lparr> po_runId = Some (run_id run), po_toolExecutionId = Some (tool_id tool),
          po_capabilityName = Some EXECUTE_APPROVED_PREVIEW_CAPABILITY, po_capabilityVersion = Some ''1.0.0'',
          po_effect = Some ''write'', po_evidenceIds = Some evidenceIds \<rparr>)"

definition provider_message :: "jsval option \<Rightarrow> string option" where
  "provider_message providerError = Option.bind providerError (\<lambda>p. js_text_value (js_get p ''message''))"

definition finished_tool ::
  "int \<Rightarrow> int \<Rightarrow> jsval \<Rightarrow> jsval \<Rightarrow> string list \<Rightarrow> ai_action_request list \<Rightarrow> ai_tool_execution \<Rightarrow> ai_tool_execution" where
  "finished_tool now t output outputSummary evidenceIds actionRequests tool =
     (let providerError = providerErrorMetadata output in
      tool\<lparr>tool_status := toOutputStatus output,
           tool_output_summary := outputSummary,
           tool_error_message := provider_message providerError,
           tool_action_request_id := or_else (first_id act_id actionRequests) (tool_action_request_id tool),
           tool_metadata_json := JObj (obj_merge (asMetadata (tool_metadata_json tool))
             ([(''evidence_ids'', JArr (map JStr evidenceIds))]
              @ (case providerError of None \<Rightarrow> [] | Some p \<Rightarrow> [(''provider_error'', p)]))),
           tool_duration_ms := Some (max 0 (t - now)),
           tool_completed_at := Some t\<rparr>)"

definition finished_step :: "int \<Rightarrow> jsval \<Rightarrow> jsval \<Rightarrow> ai_run_step \<Rightarrow> ai_run_step" where
  "finished_step t output outputSummary step =
     step\<lparr>step_status := toOutputStatus output, step_output_summary := outputSummary,
          step_error_message := provider_message (providerErrorMetadata output), step_completed_at := Some t\<rparr>"

definition finished_run :: "int \<Rightarrow> jsval \<Rightarrow> jsval \<Rightarrow> ai_run \<Rightarrow> ai_run" where
  "finished_run t output outputSummary run =
     run\<lparr>run_status := aggregateRunStatus (run_status run) (toOutputStatus output),
         run_output_summary := outputSummary, run_completed_at := Some t, run_updated_at := t\<rparr>"

record execution_result =
  xr_run_id :: string
  xr_step_id :: string
  xr_tool_execution_id :: string
  xr_output :: jsval

definition settle ::
  "dispatcher \<Rightarrow> int \<Rightarrow> int \<Rightarrow> exec_context \<Rightarrow> capability_contract \<Rightarrow> ai_run \<Rightarrow> ai_run_step \<Rightarrow> ai_tool_execution \<Rightarrow> jsval
     \<Rightarrow> execution_result op" where
  "settle env now t ctx contract run step tool rawOutput =
     (let output = redact (dp_platform env) rawOutput (c_redaction_fields contract);
          outputSummary = summarize (dp_platform env) output
      in obind (record_output_evidence env t ctx contract run tool rawOutput output outputSummary) (\<lambda>evidenceIds.
         obind (omap (\<lambda>k. addEvidenceIds t ctx k evidenceIds) (actionRequestIdsFromProviderOutput output)) (\<lambda>_.
         obind (propose_actions env t ctx contract run tool output evidenceIds) (\<lambda>actionRequests.
         obind (save_tool (finished_tool now t output outputSummary evidenceIds actionRequests tool)) (\<lambda>tool'.
         obind (save_step (finished_step t output outputSummary step)) (\<lambda>step'.
         obind (save_run (finished_run t output outputSummary run)) (\<lambda>run'.
           oret \<lparr> xr_run_id = run_id run', xr_step_id = step_id step', xr_tool_execution_id = tool_id tool',
                  xr_output = output \<rparr>)))))))"

text \<open>The catch block.\<close>

definition fail_execution :: "int \<Rightarrow> int \<Rightarrow> ai_run \<Rightarrow> ai_run_step \<Rightarrow> ai_tool_execution \<Rightarrow> ai_error \<Rightarrow> 'a op" where
  "fail_execution now t run step tool err =
     (let message = or_message ''Capability execution failed.'' err in
      obind (save_tool (tool\<lparr>tool_status := ''failed'', tool_error_message := Some message,
               tool_duration_ms := Some (max 0 (t - now)), tool_completed_at := Some t\<rparr>)) (\<lambda>_.
      obind (save_step (step\<lparr>step_status := ''failed'', step_error_message := Some message, step_completed_at := Some t\<rparr>)) (\<lambda>_.
      obind (save_run (failed_run t message run)) (\<lambda>_. othrow err))))"

text \<open>The try block of one execution, \<open>t\<close> being the clock after the handler.\<close>

definition perform ::
  "dispatcher \<Rightarrow> int \<Rightarrow> int \<Rightarrow> exec_context \<Rightarrow> dispatch_input \<Rightarrow> capability_contract \<Rightarrow> string \<Rightarrow> jsval \<Rightarrow> ai_run \<Rightarrow> ai_run_step
     \<Rightarrow> ai_tool_execution \<Rightarrow> execution_result op" where
  "perform env now t ctx input contract surface metadata run step tool = (\<lambda>s.
     case admit env now ctx input contract surface metadata run step tool s of
       (s1, Inl err) \<Rightarrow> fail_execution now t run step tool err s1
     | (s1, Inr tool') \<Rightarrow>
         otry (obind (run_handler env now ctx input contract surface metadata run step tool') (\<lambda>rawOutput.
                 settle env now t ctx contract run step tool' rawOutput))
              (fail_execution now t run step tool') s1)"

definition execute :: "dispatcher \<Rightarrow> int \<Rightarrow> int \<Rightarrow> exec_context \<Rightarrow> dispatch_input \<Rightarrow> execution_result op" where
  "execute env now t ctx input =
     oguard (ctx_tenantId ctx = []) (Forbidden ''Tenant context is required for capability execution.'')
    (obind (resolveSurface ctx (di_execution input)) (\<lambda>surface.
     obind (createOrLoadRun env now ctx input surface) (\<lambda>run.
     obind (resolve_contract env now ctx input surface run) (\<lambda>contract.
     let metadata = executionMetadata ctx (di_execution input) surface;
         inputSummary = summarize (dp_platform env) (di_input input);
         inputHash = hashStableJson (dp_platform env) (di_input input) in
     obind (mint (dp_platform env)) (\<lambda>stepId.
     obind (save_step (new_step now ctx input run contract inputSummary stepId)) (\<lambda>step.
     obind (mint (dp_platform env)) (\<lambda>toolId.
     obind (save_tool (new_tool now ctx run step contract surface inputHash inputSummary metadata toolId)) (\<lambda>tool.
       perform env now t ctx input contract surface metadata run step tool))))))))"

section \<open>Lemmas on the dispatcher\<close>

subsection \<open>What the handler cannot reach\<close>

text \<open>Replacing the handler changes nothing up to the call of the handler, and nothing after it.\<close>

lemma swap_fields:
  "dp_platform (env\<lparr>dp_handler := h\<rparr>) = dp_platform env" "dp_registry (env\<lparr>dp_handler := h\<rparr>) = dp_registry env"
  "dp_ajv (env\<lparr>dp_handler := h\<rparr>) = dp_ajv env" "dp_instant (env\<lparr>dp_handler := h\<rparr>) = dp_instant env"
  "dp_hasResolver (env\<lparr>dp_handler := h\<rparr>) = dp_hasResolver env" "dp_meanwhile (env\<lparr>dp_handler := h\<rparr>) = dp_meanwhile env"
  "dp_inTransaction (env\<lparr>dp_handler := h\<rparr>) = dp_inTransaction env"
  by simp_all

lemma swap_parts:
  "new_run (env\<lparr>dp_handler := h\<rparr>) = new_run env"
  "validateCapabilityInput (env\<lparr>dp_handler := h\<rparr>) = validateCapabilityInput env"
  "gate_action (env\<lparr>dp_handler := h\<rparr>) = gate_action env"
  "gate_preview (env\<lparr>dp_handler := h\<rparr>) = gate_preview env"
  "record_output_evidence (env\<lparr>dp_handler := h\<rparr>) = record_output_evidence env"
  "propose_actions (env\<lparr>dp_handler := h\<rparr>) = propose_actions env"
  "resolve_contract (env\<lparr>dp_handler := h\<rparr>) = resolve_contract env"
  by (intro ext; simp only: new_run_def validateCapabilityInput_def gate_action_def gate_preview_def
    record_output_evidence_def propose_actions_def resolve_contract_def swap_fields)+

lemma swap_gate: "enforceApprovalGate (env\<lparr>dp_handler := h\<rparr>) = enforceApprovalGate env"
  "checks (env\<lparr>dp_handler := h\<rparr>) = checks env"
  "createOrLoadRun (env\<lparr>dp_handler := h\<rparr>) = createOrLoadRun env"
  "settle (env\<lparr>dp_handler := h\<rparr>) = settle env"
  by (intro ext; simp only: enforceApprovalGate_def checks_def createOrLoadRun_def settle_def swap_parts swap_fields)+

lemma swap_admit: "admit (env\<lparr>dp_handler := h\<rparr>) = admit env"
  by (intro ext) (simp only: admit_def swap_gate)

definition not_paused :: "dispatcher \<Rightarrow> int \<Rightarrow> exec_context \<Rightarrow> capability_contract \<Rightarrow> jsval \<Rightarrow> db \<Rightarrow> bool" where
  "not_paused env now ctx contract metadata s \<longleftrightarrow>
     findActivePause now ctx (contract_check contract (metadataString metadata ''agent_definition_id'')) s = None"

lemma run_handler_stopped:
  assumes "\<not> not_paused env now ctx contract metadata (dp_meanwhile env s)"
  shows "run_handler (env\<lparr>dp_handler := h\<rparr>) now ctx input contract surface metadata run step tool s
       = run_handler env now ctx input contract surface metadata run step tool s"
  using assms assertNotPaused_cases [of now ctx contract "metadataString metadata ''agent_definition_id''" "dp_meanwhile env s"]
  by (auto simp: run_handler_def meanwhile_def obind_apply not_paused_def assertNotPaused_Inr)

lemma perform_differs:
  assumes "perform (env\<lparr>dp_handler := h\<rparr>) now t ctx input contract surface metadata run step tool s
         \<noteq> perform env now t ctx input contract surface metadata run step tool s"
  shows "\<exists>s1 tool'. admit env now ctx input contract surface metadata run step tool s = (s1, Inr tool')
    \<and> not_paused env now ctx contract metadata (dp_meanwhile env s1)"
proof -
  obtain s1 r where a: "admit env now ctx input contract surface metadata run step tool s = (s1, r)" by (metis prod.collapse)
  with assms obtain tool' where r: "r = Inr tool'" by (cases r) (auto simp: perform_def swap_admit)
  with assms a have "run_handler (env\<lparr>dp_handler := h\<rparr>) now ctx input contract surface metadata run step tool' s1
      \<noteq> run_handler env now ctx input contract surface metadata run step tool' s1"
    by (auto simp: perform_def swap_admit swap_gate otry_def obind_def)
  with run_handler_stopped a r show ?thesis by blast
qed

text \<open>\<open>execute\<close> once its run and its contract are there.\<close>

lemma execute_run:
  assumes "ctx_tenantId ctx \<noteq> []" "resolveSurface ctx (di_execution input) s = (s, Inr surface)"
    and "createOrLoadRun env now ctx input surface s = (s0, Inr run)"
    and "dp_registry env ctx (di_capabilityName input) (di_capabilityVersion input) surface s0 = (s1, Inr contract)"
  obtains s2 step tool where "\<And>h. execute (env\<lparr>dp_handler := h\<rparr>) now t ctx input s = perform (env\<lparr>dp_handler := h\<rparr>) now t ctx input
      contract surface (executionMetadata ctx (di_execution input) surface) run step tool s2"
    "db_pauses s2 = db_pauses s1" "db_approvals s2 = db_approvals s1" "db_actions s2 = db_actions s1"
    "tool_run_id tool = run_id run" "tool_step_id tool = Some (step_id step)" "step_run_id step = run_id run"
    "tool_action_request_id tool = None" "tool_approval_id tool = None"
proof -
  let ?pf = "dp_platform env"
  let ?step = "new_step now ctx input run contract (summarize ?pf (di_input input)) (uuid ?pf (db_minted s1))"
  let ?tool = "new_tool now ctx run ?step contract surface (hashStableJson ?pf (di_input input)) (summarize ?pf (di_input input))
    (executionMetadata ctx (di_execution input) surface) (uuid ?pf (Suc (db_minted s1)))"
  let ?s2 = "s1\<lparr>db_steps := save_row step_id ?step (db_steps s1), db_minted := Suc (Suc (db_minted s1)),
             db_tools := save_row tool_id ?tool (db_tools s1)\<rparr>"
  have "execute (env\<lparr>dp_handler := h\<rparr>) now t ctx input s = perform (env\<lparr>dp_handler := h\<rparr>) now t ctx input
      contract surface (executionMetadata ctx (di_execution input) surface) run ?step ?tool ?s2" for h
    using assms by (simp add: execute_def obind_apply resolve_contract_def otry_def Let_def save_simps swap_gate swap_fields)
  from that [of ?step ?tool ?s2, OF this] show ?thesis by (simp add: new_step_def new_tool_def)
qed

lemma execute_stuck:
  assumes "execute env now t ctx input s \<noteq> execute (env\<lparr>dp_handler := h\<rparr>) now t ctx input s"
  shows "\<exists>surface s0 run s1 contract. ctx_tenantId ctx \<noteq> [] \<and> resolveSurface ctx (di_execution input) s = (s, Inr surface)
    \<and> createOrLoadRun env now ctx input surface s = (s0, Inr run)
    \<and> dp_registry env ctx (di_capabilityName input) (di_capabilityVersion input) surface s0 = (s1, Inr contract)"
proof (rule ccontr)
  assume n: "\<not> ?thesis"
  have sw: "dp_registry (env\<lparr>dp_handler := h\<rparr>) = dp_registry env" "dp_platform (env\<lparr>dp_handler := h\<rparr>) = dp_platform env" by simp_all
  have "execute env now t ctx input s = execute (env\<lparr>dp_handler := h\<rparr>) now t ctx input s"
  proof (cases "ctx_tenantId ctx = []")
    case False
    show ?thesis
    proof (cases "resolveSurface ctx (di_execution input) s")
      case (Pair s' r)
      then have s': "s' = s" by (auto simp: resolveSurface_def split: if_splits)
      show ?thesis
      proof (cases r)
        case (Inr surface)
        obtain s0 r0 where c: "createOrLoadRun env now ctx input surface s = (s0, r0)" by (metis prod.collapse)
        show ?thesis
        proof (cases r0)
          case (Inr run)
          obtain s1 r1 where d: "dp_registry env ctx (di_capabilityName input) (di_capabilityVersion input) surface s0 = (s1, r1)"
            by (metis prod.collapse)
          then obtain e where "r1 = Inl e"
            using n False Pair s' \<open>r = Inr surface\<close> c Inr by (cases r1) auto
          then show ?thesis using False Pair s' \<open>r = Inr surface\<close> c Inr d
            by (simp add: execute_def obind_apply swap_gate swap_parts resolve_contract_def otry_def save_simps)
        qed (use False Pair s' Inr c in \<open>simp add: execute_def obind_apply swap_gate\<close>)
      qed (use False Pair in \<open>simp add: execute_def obind_apply\<close>)
    qed
  qed (simp add: execute_def)
  with assms show False by blast
qed


subsection \<open>The approval gate\<close>

text \<open>
  An approval of the action that the gate may rely on: stored before the call, or, off chat and MCP,
  given by a policy to the pending action.
\<close>

definition approval_held :: "dispatcher \<Rightarrow> int \<Rightarrow> exec_context \<Rightarrow> string \<Rightarrow> db \<Rightarrow> ai_action_request \<Rightarrow> bool" where
  "approval_held env now ctx surface s action \<longleftrightarrow>
     (\<exists>approval. durable now ctx action approval
       \<and> (approval \<in> set (db_approvals s)
          \<or> surface \<noteq> ''chat'' \<and> surface \<noteq> ''mcp'' \<and> dp_hasResolver env \<and> act_status action = ''pending''))"

definition granted :: "dispatcher \<Rightarrow> int \<Rightarrow> exec_context \<Rightarrow> jsval \<Rightarrow> string \<Rightarrow> capability_contract \<Rightarrow> db \<Rightarrow> bool" where
  "granted env now ctx v surface contract s \<longleftrightarrow>
     (case c_approval_strategy contract of
        NoStrategy \<Rightarrow> False
      | ActionRequestStrategy field \<Rightarrow>
          (\<exists>action\<in>set (db_actions s). nonblank_text (js_get v field) = Some (act_id action)
             \<and> act_tenant_id action = ctx_tenantId ctx \<and> act_capability_name action = c_name contract
             \<and> act_capability_version action = c_version contract \<and> act_effect action = c_effect contract
             \<and> act_input_hash action = inputHashForProviderAction (dp_platform env) (execution_scope action)
             \<and> approval_held env now ctx surface s action)
      | MutationPreviewStrategy field \<Rightarrow>
          (\<exists>previewIds. js_get v field = JArr (map JStr previewIds)
             \<and> (\<forall>k\<in>set previewIds. \<exists>action. act_preview_id action = Some k \<and> executable_status now ctx action
                  \<and> (\<exists>approval\<in>set (db_approvals s). durable now ctx action approval))))"

lemma ensureForPreview_Inr:
  assumes "ensureForPreview pf now ctx k opts s = (s', Inr a)"
  shows "act_preview_id a = Some k \<and> db_approvals s' = db_approvals s \<and> db_pauses s' = db_pauses s"
proof -
  from assms obtain p where "prev_id p = k"
    and "(case action_for_preview ctx k s of
         Some a \<Rightarrow> if preview_opts_change opts a then save_action ((merge_preview_opts opts a)\<lparr>act_updated_at := now\<rparr>) else oret a
       | None \<Rightarrow> obind (mint pf) (\<lambda>new_id. save_action (preview_action pf now ctx opts p new_id))) s = (s', Inr a)"
    by (auto simp: ensureForPreview_def getPreviewForAction_def obind_Inr_iff oguard_Inr_iff find_Some_iff split: option.splits)
  moreover have "act_preview_id x = Some k" if "action_for_preview ctx k s = Some x" for x
    using that by (auto simp: action_for_preview_def find_Some_iff)
  ultimately show ?thesis
    by (auto simp: save_simps obind_def merge_preview_opts_def preview_action_def split: option.splits if_splits)
qed

lemma gate_preview_Inr:
  assumes "gate_preview env now ctx contract run tool k s = (s', Inr (action, approval))"
  shows "act_preview_id action = Some k \<and> executable_status now ctx action \<and> approval \<in> set (db_approvals s)
    \<and> durable now ctx action approval \<and> db_approvals s' = db_approvals s \<and> db_pauses s' = db_pauses s"
proof -
  from assms obtain s1 opts where e: "ensureForPreview (dp_platform env) now ctx k opts s = (s1, Inr action)"
    and r: "resolve_approved_op now ctx action s1 = (s', Inr approval)"
    by (auto simp: gate_preview_def obind_Inr_iff)
  from r obtain b where "resolveApprovedAction now ctx action s1 = (s', b, Inr approval)"
    by (auto simp: resolve_approved_op_def split: prod.splits)
  from resolveApprovedAction_Inr [OF this] ensureForPreview_Inr [OF e] show ?thesis by auto
qed

lemma gate_previews_Inr:
  "omap (gate_preview env now ctx contract run tool) ks s = (s', Inr pairs) \<Longrightarrow>
   db_approvals s' = db_approvals s \<and> db_pauses s' = db_pauses s
   \<and> (\<forall>k\<in>set ks. \<exists>action. act_preview_id action = Some k \<and> executable_status now ctx action
        \<and> (\<exists>approval\<in>set (db_approvals s). durable now ctx action approval))"
proof (induction ks arbitrary: s pairs)
  case (Cons k ks)
  from Cons.prems obtain s1 a v rest where g: "gate_preview env now ctx contract run tool k s = (s1, Inr (a, v))"
    and m: "omap (gate_preview env now ctx contract run tool) ks s1 = (s', Inr rest)"
    by (auto simp: obind_Inr_iff)
  from gate_preview_Inr [OF g] Cons.IH [OF m] show ?case by auto
qed simp

lemma resolved_for_execution_pauses:
  assumes "resolveApprovedActionForExecution pf hasResolver now ctx action contract exec s = (s', Inr approval)"
  shows "db_pauses s' = db_pauses s"
proof -
  have "db_pauses (fst (markExpired now ctx action s)) = db_pauses s"
    by (auto simp: markExpired_def save_and_evaluate_def updateLinkedEvaluation_def linked_evaluation_def op_simps
      split: option.splits)
  then have p: "db_pauses (fst (resolveApprovedAction now ctx action s)) = db_pauses s"
    using findDurable_state [of now ctx action s] by (auto simp: resolveApprovedAction_def Let_def split: prod.splits)
  have q: "db_pauses x' = db_pauses x" if "resolve_by_policy pf now ctx a contract exec x = (x', Inr approval)" for a x x'
    using that by (auto simp: resolve_by_policy_def approveActionRequestByPolicy_def recordPolicyDecision_def markApproved_def
      op_simps Let_def oguard_Inr_iff split: if_splits)
  from assms p q show ?thesis
    by (auto simp: resolveApprovedActionForExecution_def dest: findDurable_Inr split: prod.splits sum.splits if_splits)
qed


lemma all_texts: "(\<forall>e\<in>set vs. js_text_value e \<noteq> None) \<longleftrightarrow> vs = map (\<lambda>e. JStr (the (js_text_value e))) vs"
proof (induction vs)
  case (Cons v vs)
  have "js_text_value v \<noteq> None \<longleftrightarrow> v = JStr (the (js_text_value v))" by (cases v) auto
  with Cons.IH show ?case by auto
qed simp

lemma extractPreviewIds_Inr:
  "extractPreviewIds v field s = (s', Inr ks) \<Longrightarrow> s' = s \<and> js_get v field = JArr (map JStr ks)"
  using all_texts by (auto simp: extractPreviewIds_def oguard_def list_ex_iff comp_def split: jsval.splits if_splits)

lemma findProviderAction_Inr:
  "findProviderActionForExecution ctx k s = (s', Inr a) \<longleftrightarrow> s' = s \<and> find_tenant_action ctx k s = Some a"
  by (auto simp: findProviderActionForExecution_def find_tenant_action_def split: option.splits)

lemma find_tenant_action_Some: "find_tenant_action ctx k s = Some a \<Longrightarrow>
    a \<in> set (db_actions s) \<and> act_id a = k \<and> act_tenant_id a = ctx_tenantId ctx"
  by (auto simp: find_tenant_action_def find_Some_iff)

lemma integrity_Inr: "verifyProviderActionIntegrity pf a s = (s', Inr u) \<Longrightarrow>
    s' = s \<and> act_input_hash a = inputHashForProviderAction pf (execution_scope a)"
  by (auto simp: verifyProviderActionIntegrity_def oguard_Inr_iff)

lemma extractActionRequestId_Inr:
  "extractActionRequestId v field s = (s', Inr k) \<longleftrightarrow> s' = s \<and> nonblank_text (js_get v field) = Some k"
  by (auto simp: extractActionRequestId_def split: option.splits)

lemma policy_off_chat:
  assumes "pd_outcome (resolve_policy pf now ctx action contract (Some exec) s) = PolicyApproved" "ex_surface exec = Some surface"
  shows "surface \<noteq> ''chat'' \<and> surface \<noteq> ''mcp''"
proof -
  from assms(1) obtain policy where "action_eligible now ctx action contract (Some exec)" by (rule resolve_approved)
  then show ?thesis using assms(2) by (simp add: action_eligible_def)
qed

lemma held_after_resolving:
  assumes "resolveApprovedActionForExecution (dp_platform env) (dp_hasResolver env) now ctx action contract (Some exec) s = (s', Inr approval)"
    "ex_surface exec = Some surface"
  shows "approval_held env now ctx surface s action"
  using resolved_for_execution [OF assms(1)] policy_off_chat [OF _ assms(2)] unfolding approval_held_def by blast

lemma gate_action_Inr:
  assumes "gate_action env now ctx contract v field exec s = (s', Inr g)" "ex_surface exec = Some surface"
    "c_approval_strategy contract = ActionRequestStrategy field"
  shows "granted env now ctx v surface contract s \<and> db_pauses s' = db_pauses s"
proof -
  let ?resolve = "\<lambda>action. resolveApprovedActionForExecution (dp_platform env) (dp_hasResolver env) now ctx action contract (Some exec)"
  from assms(1) obtain k action s1 where id: "nonblank_text (js_get v field) = Some k"
    and f: "find_tenant_action ctx k s = Some action"
    and c: "act_capability_name action = c_name contract" "act_capability_version action = c_version contract"
      "act_effect action = c_effect contract"
    and i: "verifyProviderActionIntegrity (dp_platform env) action s = (s1, Inr ())"
    and rest: "obind (?resolve action) (\<lambda>approval. oret ([action], [approval])) s1 = (s', Inr g)"
    unfolding gate_action_def obind_Inr_iff oguard_Inr_iff extractActionRequestId_Inr findProviderAction_Inr by fastforce
  note a = find_tenant_action_Some [OF f] and h = integrity_Inr [OF i]
  from rest h obtain approval where r: "?resolve action s = (s', Inr approval)" by (auto simp: obind_Inr_iff)
  have "approval_held env now ctx surface s action"
    using r assms(2) by (rule held_after_resolving)
  with id a c h resolved_for_execution_pauses [OF r] assms(3) show ?thesis by (auto simp: granted_def intro!: bexI [of _ action])
qed

lemma gate_Inr:
  assumes "enforceApprovalGate env now ctx contract v run tool exec s = (s', Inr g)" "ex_surface exec = Some surface"
  shows "(requiresApproval contract \<longrightarrow> granted env now ctx v surface contract s) \<and> db_pauses s' = db_pauses s"
proof (cases "requiresApproval contract")
  case True
  with assms show ?thesis
  proof (cases "c_approval_strategy contract")
    case (MutationPreviewStrategy field)
    with True assms(1) obtain ks s1 pairs where x: "extractPreviewIds v field s = (s1, Inr ks)"
      and m: "omap (gate_preview env now ctx contract run tool) ks s1 = (s', Inr pairs)"
      by (auto simp: enforceApprovalGate_def obind_Inr_iff)
    from extractPreviewIds_Inr [OF x] gate_previews_Inr [OF m] MutationPreviewStrategy show ?thesis by (auto simp: granted_def)
  qed (auto simp: enforceApprovalGate_def dest: gate_action_Inr)
qed (use assms in \<open>auto simp: enforceApprovalGate_def\<close>)

text \<open>What must hold of a call, its contract and the database when the contract was resolved.\<close>

definition admitted ::
  "dispatcher \<Rightarrow> int \<Rightarrow> exec_context \<Rightarrow> dispatch_input \<Rightarrow> string \<Rightarrow> capability_contract \<Rightarrow> db \<Rightarrow> bool" where
  "admitted env now ctx input surface contract s \<longleftrightarrow>
     surface \<in> set (c_supported_surfaces contract)
     \<and> (surface = ''mcp'' \<longrightarrow> c_effect contract = ''read'' \<and> c_default_approval contract = ''none''
          \<and> c_mcp_enabled contract \<and> c_mcp_read_only contract)
     \<and> dp_ajv env (c_input_schema contract) (di_input input) = None
     \<and> not_paused env now ctx contract (executionMetadata ctx (di_execution input) surface) s
     \<and> (requiresApproval contract \<longrightarrow> granted env now ctx (di_input input) surface contract s)"

lemma checks_Inr:
  "checks env now ctx contract v surface metadata s = (s', Inr u) \<longleftrightarrow>
     s' = s \<and> surface \<in> set (c_supported_surfaces contract)
     \<and> (surface = ''mcp'' \<longrightarrow> c_effect contract = ''read'' \<and> c_default_approval contract = ''none''
          \<and> c_mcp_enabled contract \<and> c_mcp_read_only contract)
     \<and> dp_ajv env (c_input_schema contract) v = None \<and> not_paused env now ctx contract metadata s"
  by (auto simp: checks_def oguard_Inr_iff obind_Inr_iff validateCapabilityInput_def assertNotPaused_Inr not_paused_def
    split: option.splits)

lemma admit_Inr:
  assumes "admit env now ctx input contract surface (executionMetadata ctx (di_execution input) surface) run step tool s = (s', Inr tool')"
  shows "admitted env now ctx input surface contract s \<and> db_pauses s' = db_pauses s"
proof -
  let ?meta = "executionMetadata ctx (di_execution input) surface"
  from assms obtain s1 g where c: "checks env now ctx contract (di_input input) surface ?meta s = (s, Inr ())"
    and gate: "enforceApprovalGate env now ctx contract (di_input input) run tool (handler_execution input surface ?meta run step tool) s
      = (s1, Inr g)" and p: "db_pauses s' = db_pauses s1"
    by (auto simp: admit_def obind_Inr_iff checks_Inr Let_def save_simps split: if_splits)
  have "ex_surface (handler_execution input surface ?meta run step tool) = Some surface" by (simp add: handler_execution_def)
  from gate_Inr [OF gate this] c p show ?thesis by (simp add: admitted_def checks_Inr)
qed

lemma same_pauses: "db_pauses s' = db_pauses s \<Longrightarrow> not_paused env now ctx contract metadata s' = not_paused env now ctx contract metadata s"
  by (simp add: not_paused_def findActivePause_def)

lemma same_grants:
  assumes "db_approvals s' = db_approvals s" "db_actions s' = db_actions s" "db_pauses s' = db_pauses s"
  shows "admitted env now ctx input surface contract s' = admitted env now ctx input surface contract s"
proof -
  have "approval_held env now ctx surface s' = approval_held env now ctx surface s"
    by (intro ext) (simp only: approval_held_def assms)
  then have "granted env now ctx v surface contract s' = granted env now ctx v surface contract s" for v
    by (simp only: granted_def assms)
  with same_pauses [OF assms(3)] show ?thesis by (simp only: admitted_def)
qed

subsection \<open>Properties\<close>


text \<open>The rows of a failed execution.\<close>

definition failed_rows :: "string \<Rightarrow> string \<Rightarrow> db \<Rightarrow> bool" where
  "failed_rows runId message s \<longleftrightarrow>
     (\<exists>tool\<in>set (db_tools s). \<exists>step\<in>set (db_steps s). \<exists>run\<in>set (db_runs s).
        tool_run_id tool = runId \<and> tool_status tool = ''failed'' \<and> tool_error_message tool = Some message
        \<and> tool_step_id tool = Some (step_id step) \<and> step_run_id step = runId \<and> step_status step = ''failed''
        \<and> step_error_message step = Some message \<and> run_id run = runId \<and> run_status run = ''failed''
        \<and> run_output_summary run = JObj [(''error'', JStr message)])"

lemma fail_execution_rows:
  assumes "fail_execution now t run step tool err s = (s', r)"
    "tool_run_id tool = run_id run" "tool_step_id tool = Some (step_id step)" "step_run_id step = run_id run"
  shows "r = Inl err \<and> failed_rows (run_id run) (or_message ''Capability execution failed.'' err) s'"
proof -
  define m where "m = or_message ''Capability execution failed.'' err"
  define x where "x = tool\<lparr>tool_status := ''failed'', tool_error_message := Some m,
               tool_duration_ms := Some (max 0 (t - now)), tool_completed_at := Some t\<rparr>"
  define y where "y = step\<lparr>step_status := ''failed'', step_error_message := Some m, step_completed_at := Some t\<rparr>"
  define z where "z = failed_run t m run"
  have r: "r = Inl err" and rows: "db_tools s' = save_row tool_id x (db_tools s)" "db_steps s' = save_row step_id y (db_steps s)"
    "db_runs s' = save_row run_id z (db_runs s)"
    using assms(1) by (auto simp: fail_execution_def Let_def op_simps m_def x_def y_def z_def)
  have there: "x \<in> set (db_tools s')" "y \<in> set (db_steps s')" "z \<in> set (db_runs s')" by (simp_all add: rows)
  have "tool_run_id x = run_id run \<and> tool_status x = ''failed'' \<and> tool_error_message x = Some m
      \<and> tool_step_id x = Some (step_id y)" "step_run_id y = run_id run \<and> step_status y = ''failed'' \<and> step_error_message y = Some m"
    "run_id z = run_id run \<and> run_status z = ''failed'' \<and> run_output_summary z = JObj [(''error'', JStr m)]"
    using assms(2-4) by (simp_all add: x_def y_def z_def failed_run_def)
  with there have "failed_rows (run_id run) m s'" unfolding failed_rows_def by (intro bexI [of _ x] bexI [of _ y] bexI [of _ z] conjI) simp_all
  with r show ?thesis by (simp add: m_def)
qed

lemma admit_tool:
  assumes "admit env now ctx input contract surface metadata run step tool s = (s', Inr tool')"
  shows "tool_run_id tool' = tool_run_id tool \<and> tool_step_id tool' = tool_step_id tool \<and> tool_id tool' = tool_id tool"
proof -
  from assms obtain g x where "(if truthy (tool_action_request_id (applyApprovalGateMetadata tool g))
      \<or> truthy (tool_approval_id (applyApprovalGateMetadata tool g)) then save_tool (applyApprovalGateMetadata tool g)
      else oret (applyApprovalGateMetadata tool g)) x = (s', Inr tool')"
    unfolding admit_def obind_Inr_iff Let_def by blast
  then have "tool' = applyApprovalGateMetadata tool g" by (simp add: save_tool_def split: if_splits)
  then show ?thesis by (simp add: applyApprovalGateMetadata_def split: prod.splits)
qed

lemma perform_failure:
  assumes "perform env now t ctx input contract surface metadata run step tool s = (s', Inl err)"
    "tool_run_id tool = run_id run" "tool_step_id tool = Some (step_id step)" "step_run_id step = run_id run"
  shows "failed_rows (run_id run) (or_message ''Capability execution failed.'' err) s'"
proof -
  obtain s1 r where a: "admit env now ctx input contract surface metadata run step tool s = (s1, r)" by (metis prod.collapse)
  show ?thesis
  proof (cases r)
    case (Inl e)
    with assms(1) a have "(fail_execution now t run step tool e :: execution_result op) s1 = (s', Inl err)" by (simp add: perform_def)
    from fail_execution_rows [OF this assms(2-4)] show ?thesis by simp
  next
    case (Inr tool')
    with assms(1) a obtain s2 e where "(fail_execution now t run step tool' e :: execution_result op) s2 = (s', Inl err)"
      by (auto simp: perform_def otry_def split: prod.splits sum.splits)
    from fail_execution_rows [OF this] admit_tool [of env now ctx input contract surface metadata run step tool s s1 tool'] a Inr assms(2-4)
    show ?thesis by auto
  qed
qed

lemma execute_same: "env\<lparr>dp_handler := dp_handler env\<rparr> = env"
  by simp


text \<open>C22: Inside a transaction a handler that throws leaves nothing behind but its error: two handlers that
  throw the same errors give the same outcome and the same database, whatever they wrote before.\<close>

theorem failed_handler_undone:
  assumes transaction: "dp_inTransaction env"
    and throws: "\<And>contract v exec s. \<exists>err. snd (dp_handler env contract ctx v exec s) = Inl err
                   \<and> snd (h contract ctx v exec s) = Inl err"
  shows "execute (env\<lparr>dp_handler := h\<rparr>) now t ctx input s = execute env now t ctx input s"
proof (rule ccontr)
  assume "\<not> ?thesis"
  then have d: "execute env now t ctx input s \<noteq> execute (env\<lparr>dp_handler := h\<rparr>) now t ctx input s" by simp
  from execute_stuck [OF d] obtain surface s0 run s1 contract where g: "ctx_tenantId ctx \<noteq> []"
    "resolveSurface ctx (di_execution input) s = (s, Inr surface)" "createOrLoadRun env now ctx input surface s = (s0, Inr run)"
    "dp_registry env ctx (di_capabilityName input) (di_capabilityVersion input) surface s0 = (s1, Inr contract)" by blast
  obtain s2 step tool where e: "\<And>h. execute (env\<lparr>dp_handler := h\<rparr>) now t ctx input s
      = perform (env\<lparr>dp_handler := h\<rparr>) now t ctx input contract surface
          (executionMetadata ctx (di_execution input) surface) run step tool s2" by (rule execute_run [OF g, of t]) blast
  have "withSavepoint True (h c ctx v x) = withSavepoint True (dp_handler env c ctx v x)" for c v x
  proof
    fix s show "withSavepoint True (h c ctx v x) s = withSavepoint True (dp_handler env c ctx v x) s"
      using throws [of c v x s] by (auto simp: withSavepoint_def split: prod.splits)
  qed
  then have "run_handler (env\<lparr>dp_handler := h\<rparr>) now ctx = run_handler env now ctx"
    by (intro ext) (simp add: run_handler_def meanwhile_def transaction)
  then have "perform (env\<lparr>dp_handler := h\<rparr>) now t ctx = perform env now t ctx" by (intro ext) (simp only: perform_def swap_admit swap_gate)
  with e [of h] e [of "dp_handler env"] d show False by (simp add: execute_same)
qed

definition evidenced :: "string \<Rightarrow> db \<Rightarrow> bool" where
  "evidenced toolId s \<longleftrightarrow> (\<exists>e\<in>set (db_evidence s). evi_tool_execution_id e = Some toolId)"

lemma recordEvidence_evidenced:
  assumes "recordEvidence pf now ctx seed s = (s', Inr e)" "es_toolExecutionId seed = Some toolId"
  shows "evidenced toolId s'"
proof -
  have "e \<in> set (db_evidence s')" "evi_tool_execution_id e = Some toolId"
    using assms by (auto simp: recordEvidence_def obind_Inr_iff save_simps evidence_row_def Let_def)
  then show ?thesis unfolding evidenced_def by blast
qed

lemma recordAdapter_evidenced:
  "recordAdapterEvidenceSeeds pf now ctx seeds opts s = (s', Inr rows) \<Longrightarrow> seeds \<noteq> [] \<Longrightarrow>
   eo_toolExecutionId opts = Some toolId \<Longrightarrow> evidenced toolId s'"
proof (induction seeds arbitrary: s rows)
  case (Cons seed seeds)
  let ?seed = "seed_of_adapter opts seed"
  from Cons.prems(1) obtain s1 e more where one: "recordEvidence pf now ctx (seed_of_adapter opts seed) s = (s1, Inr e)"
    and rest: "recordAdapterEvidenceSeeds pf now ctx seeds opts s1 = (s', Inr more)"
    by (auto simp: recordAdapterEvidenceSeeds_def obind_Inr_iff)
  show ?case
  proof (cases "seeds = []")
    case True
    with rest have "s' = s1" by (simp add: recordAdapterEvidenceSeeds_def)
    with recordEvidence_evidenced [OF one] Cons.prems(3) show ?thesis by (simp add: seed_of_adapter_def)
  qed (use Cons.IH [OF rest] Cons.prems(3) in blast)
qed simp

lemma record_output_evidenced:
  assumes "record_output_evidence env t ctx contract run tool rawOutput output outputSummary s = (s', Inr ids)"
    "er_persist_output (c_evidence contract)"
  shows "evidenced (tool_id tool) s'"
proof (cases "adapterEvidenceSeeds (dp_instant env) rawOutput = []")
  case True
  with assms obtain e seed where "recordEvidence (dp_platform env) t ctx seed s = (s', Inr e)" "es_toolExecutionId seed = Some (tool_id tool)"
    by (auto simp: record_output_evidence_def Let_def obind_Inr_iff output_evidence_seed_def)
  then show ?thesis by (rule recordEvidence_evidenced)
next
  case False
  with assms obtain rows opts where "recordAdapterEvidenceSeeds (dp_platform env) t ctx (adapterEvidenceSeeds (dp_instant env) rawOutput) opts s = (s', Inr rows)"
      "eo_toolExecutionId opts = Some (tool_id tool)"
    by (auto simp: record_output_evidence_def Let_def obind_Inr_iff)
  with False show ?thesis using recordAdapter_evidenced by blast
qed

lemma evidence_untouched:
  "keeps (\<lambda>s. Q (db_evidence s)) (addEvidenceIds t ctx k ids)"
  "keeps (\<lambda>s. Q (db_evidence s)) (ensureForPreview pf t ctx p opts)"
  by (auto simp: keeps_def addEvidenceIds_def ensureForPreview_def getPreviewForAction_def op_simps split: option.splits)

lemma evidenced_kept:
  assumes "omap (\<lambda>k. addEvidenceIds t ctx k ids) ks s = (s1, r1)" "propose_actions env t ctx contract run tool output ids s1 = (s2, r2)"
    "evidenced toolId s"
  shows "evidenced toolId s2"
proof -
  let ?Q = "\<lambda>s. evidenced toolId s"
  have "keeps ?Q (omap (\<lambda>k. addEvidenceIds t ctx k ids) ks)" "keeps ?Q (propose_actions env t ctx contract run tool output ids)"
    using evidence_untouched [of "\<lambda>es. \<exists>e\<in>set es. evi_tool_execution_id e = Some toolId"]
    by (auto simp: propose_actions_def ensureForPreviewDtos_def evidenced_def intro!: keeps_omap)
  from keepsD [OF this(1) assms(3)] keepsD [OF this(2), of s1] assms(1,2) show ?thesis by simp
qed

text \<open>The rows of a finished execution.\<close>

definition finished_rows :: "platform \<Rightarrow> string \<Rightarrow> string \<Rightarrow> execution_result \<Rightarrow> db \<Rightarrow> bool" where
  "finished_rows pf runId before r s \<longleftrightarrow>
     (\<exists>tool\<in>set (db_tools s). \<exists>step\<in>set (db_steps s). \<exists>run\<in>set (db_runs s).
        tool_id tool = xr_tool_execution_id r \<and> tool_run_id tool = runId \<and> tool_step_id tool = Some (step_id step)
        \<and> tool_status tool = toOutputStatus (xr_output r) \<and> tool_output_summary tool = summarize pf (xr_output r)
        \<and> step_id step = xr_step_id r \<and> step_run_id step = runId \<and> step_status step = toOutputStatus (xr_output r)
        \<and> run_id run = runId \<and> run_id run = xr_run_id r
        \<and> run_status run = aggregateRunStatus before (toOutputStatus (xr_output r))
        \<and> run_output_summary run = summarize pf (xr_output r))"

lemma settle_Inr:
  assumes "settle env now t ctx contract run step tool rawOutput s = (s', Inr r)"
    "tool_run_id tool = run_id run" "tool_step_id tool = Some (step_id step)" "step_run_id step = run_id run"
  shows "finished_rows (dp_platform env) (run_id run) (run_status run) r s'
    \<and> xr_output r = redact (dp_platform env) rawOutput (c_redaction_fields contract)
    \<and> (er_persist_output (c_evidence contract) \<longrightarrow> evidenced (xr_tool_execution_id r) s')"
proof -
  define redacted where "redacted = redact (dp_platform env) rawOutput (c_redaction_fields contract)"
  define summary where "summary = summarize (dp_platform env) redacted"
  from assms(1) obtain s1 ids s2 seen s3 actions where
    rec: "record_output_evidence env t ctx contract run tool rawOutput redacted summary s = (s1, Inr ids)"
    and add: "omap (\<lambda>k. addEvidenceIds t ctx k ids) (actionRequestIdsFromProviderOutput redacted) s1 = (s2, Inr seen)"
    and prp: "propose_actions env t ctx contract run tool redacted ids s2 = (s3, Inr actions)"
    and last: "obind (save_tool (finished_tool now t redacted summary ids actions tool)) (\<lambda>tool'.
         obind (save_step (finished_step t redacted summary step)) (\<lambda>step'.
         obind (save_run (finished_run t redacted summary run)) (\<lambda>run'.
           oret \<lparr> xr_run_id = run_id run', xr_step_id = step_id step', xr_tool_execution_id = tool_id tool',
                  xr_output = redacted \<rparr>))) s3 = (s', Inr r)"
    unfolding settle_def Let_def obind_Inr_iff [of "record_output_evidence env t ctx contract run tool rawOutput _ _"]
      obind_Inr_iff [of "omap _ _"] obind_Inr_iff [of "propose_actions env t ctx contract run tool _ _"] redacted_def summary_def by blast
  define x where "x = finished_tool now t redacted summary ids actions tool"
  define y where "y = finished_step t redacted summary step"
  define z where "z = finished_run t redacted summary run"
  from last have rows: "db_tools s' = save_row tool_id x (db_tools s3)" "db_steps s' = save_row step_id y (db_steps s3)"
    "db_runs s' = save_row run_id z (db_runs s3)" "db_evidence s' = db_evidence s3"
    and r: "r = \<lparr> xr_run_id = run_id z, xr_step_id = step_id y, xr_tool_execution_id = tool_id x, xr_output = redacted \<rparr>"
    by (auto simp: op_simps x_def y_def z_def)
  have there: "x \<in> set (db_tools s')" "y \<in> set (db_steps s')" "z \<in> set (db_runs s')" by (simp_all add: rows)
  have "tool_run_id x = run_id run \<and> tool_status x = toOutputStatus redacted \<and> tool_output_summary x = summary
      \<and> tool_step_id x = Some (step_id y) \<and> tool_id x = tool_id tool"
    "step_run_id y = run_id run \<and> step_status y = toOutputStatus redacted"
    "run_id z = run_id run \<and> run_status z = aggregateRunStatus (run_status run) (toOutputStatus redacted) \<and> run_output_summary z = summary"
    using assms(2-4) by (simp_all add: x_def y_def z_def finished_tool_def finished_step_def finished_run_def Let_def)
  note f = this
  have "finished_rows (dp_platform env) (run_id run) (run_status run) r s'"
    unfolding finished_rows_def using there f by (intro bexI [of _ x] bexI [of _ y] bexI [of _ z] conjI) (simp_all add: r summary_def)
  moreover have "evidenced (tool_id tool) s'" if "er_persist_output (c_evidence contract)"
    using evidenced_kept [OF add prp record_output_evidenced [OF rec that]] rows(4) by (simp add: evidenced_def)
  ultimately show ?thesis using f(1) r by (simp add: redacted_def)
qed

lemma fail_execution_never: "fail_execution now t run step tool err s \<noteq> (s', Inr r)"
  by (auto simp: fail_execution_def Let_def op_simps)


subsection \<open>A concrete run\<close>

definition read_contract :: capability_contract where
  "read_contract = sample_contract\<lparr>c_effect := ''read'', c_default_approval := ''none'', c_supported_surfaces := [''chat''],
     c_approval_strategy := NoStrategy\<rparr>"

definition sample_dispatcher :: "jsval op \<Rightarrow> dispatcher" where
  "sample_dispatcher h = \<lparr> dp_platform = sample_platform, dp_registry = (\<lambda>ctx name version surface. oret read_contract),
     dp_handler = (\<lambda>contract ctx v exec. h), dp_ajv = (\<lambda>schema v. None), dp_instant = (\<lambda>t. 0),
     dp_hasResolver = True, dp_inTransaction = True, dp_meanwhile = (\<lambda>s. s) \<rparr>"

definition sample_call :: dispatch_input where
  "sample_call = \<lparr> di_capabilityName = ''c'', di_capabilityVersion = None, di_input = JNull, di_execution = None \<rparr>"

definition fails :: "string \<Rightarrow> jsval op" where
  "fails m = obind (mint sample_platform) (\<lambda>_. othrow (Forbidden m))"

lemma sample_start:
  "resolveSurface sample_ctx (di_execution sample_call) s = (s, Inr ''chat'')"
  "dp_registry (sample_dispatcher h) sample_ctx (di_capabilityName sample_call) (di_capabilityVersion sample_call) surface s = (s, Inr read_contract)"
  "\<exists>s0 run. createOrLoadRun (sample_dispatcher h) 0 sample_ctx sample_call ''chat'' empty_db = (s0, Inr run)
     \<and> db_pauses s0 = [] \<and> run_status run = ''running''"
  by (simp_all add: resolveSurface_def isKnownSurface_def sample_ctx_def sample_call_def sample_dispatcher_def
    createOrLoadRun_def op_simps truthy_def new_run_def empty_db_def)

lemma sample_admit:
  assumes "db_pauses s = []" "tool_action_request_id tool = None" "tool_approval_id tool = None"
  shows "admit (sample_dispatcher h) 0 sample_ctx sample_call read_contract ''chat'' metadata run step tool s = (s, Inr tool)"
  using assms by (simp add: admit_def checks_def validateCapabilityInput_def assertNotPaused_def findActivePause_def first_row_def newest_first_def
    sample_dispatcher_def read_contract_def enforceApprovalGate_def requiresApproval_def applyApprovalGateMetadata_def truthy_def op_simps)


lemma sample_perform:
  obtains s2 run step tool where "execute (sample_dispatcher h) 0 5 sample_ctx sample_call empty_db
       = otry (obind (withSavepoint True h) (\<lambda>raw. settle (sample_dispatcher h) 0 5 sample_ctx read_contract run step tool raw))
           (fail_execution 0 5 run step tool) s2"
proof -
  let ?env = "sample_dispatcher h"
  obtain s0 run where c: "createOrLoadRun ?env 0 sample_ctx sample_call ''chat'' empty_db = (s0, Inr run)" "db_pauses s0 = []"
    using sample_start(3) by blast
  have tenant: "ctx_tenantId sample_ctx \<noteq> []" by (simp add: sample_ctx_def)
  let ?meta = "executionMetadata sample_ctx (di_execution sample_call) ''chat''"
  obtain s2 step tool where e: "\<And>h'. execute (?env\<lparr>dp_handler := h'\<rparr>) 0 5 sample_ctx sample_call empty_db
      = perform (?env\<lparr>dp_handler := h'\<rparr>) 0 5 sample_ctx sample_call read_contract ''chat'' ?meta run step tool s2"
    and p: "db_pauses s2 = db_pauses s0" and none: "tool_action_request_id tool = None" "tool_approval_id tool = None"
    by (rule execute_run [OF tenant sample_start(1) c(1) sample_start(2), of 5]) blast
  have a: "admit ?env 0 sample_ctx sample_call read_contract ''chat'' ?meta run step tool s2 = (s2, Inr tool)"
    using p c(2) none by (intro sample_admit) simp_all
  have "assertNotPaused 0 sample_ctx read_contract k s2 = (s2, Inr ())" for k
    using p c(2) by (simp add: assertNotPaused_Inr findActivePause_None)
  then have "run_handler ?env 0 sample_ctx sample_call read_contract ''chat'' ?meta run step tool s2 = withSavepoint True h s2"
    by (simp add: run_handler_def meanwhile_def obind_apply sample_dispatcher_def)
  with e [of "dp_handler ?env"] a have "execute ?env 0 5 sample_ctx sample_call empty_db
       = otry (obind (withSavepoint True h) (\<lambda>raw. settle ?env 0 5 sample_ctx read_contract run step tool raw))
           (fail_execution 0 5 run step tool) s2"
    by (simp add: execute_same perform_def otry_def obind_def)
  then show ?thesis by (rule that)
qed

lemma sample_fails: "\<exists>s'. execute (sample_dispatcher (fails m)) 0 5 sample_ctx sample_call empty_db = (s', Inl (Forbidden m))"
proof -
  obtain s2 run step tool where "execute (sample_dispatcher (fails m)) 0 5 sample_ctx sample_call empty_db
       = otry (obind (withSavepoint True (fails m)) (\<lambda>raw. settle (sample_dispatcher (fails m)) 0 5 sample_ctx read_contract run step tool raw))
           (fail_execution 0 5 run step tool) s2" by (rule sample_perform)
  then show ?thesis by (simp add: otry_def obind_def withSavepoint_def fails_def mint_def fail_execution_def Let_def op_simps)
qed

lemma sample_succeeds: "\<exists>s' r. execute (sample_dispatcher (oret (JObj []))) 0 5 sample_ctx sample_call empty_db = (s', Inr r)"
proof -
  let ?h = "oret (JObj [])"
  obtain s2 run step tool where e: "execute (sample_dispatcher ?h) 0 5 sample_ctx sample_call empty_db
       = otry (obind (withSavepoint True ?h) (\<lambda>raw. settle (sample_dispatcher ?h) 0 5 sample_ctx read_contract run step tool raw))
           (fail_execution 0 5 run step tool) s2" by (rule sample_perform)
  have "\<exists>s' r. settle (sample_dispatcher ?h) 0 5 sample_ctx read_contract run step tool (JObj []) s2 = (s', Inr r)"
    by (simp add: settle_def Let_def record_output_evidence_def propose_actions_def read_contract_def sample_contract_def
      adapterEvidenceSeeds_def js_get_def obj_get_def recordEvidence_def redact_def actionRequestIdsFromProviderOutput_def op_simps)
  then show ?thesis unfolding e by (auto simp: otry_def obind_def withSavepoint_def)
qed



theorem failed_handler_undone_witness:
  "execute ((sample_dispatcher (fails ''a''))\<lparr>dp_handler := (\<lambda>contract ctx v exec. othrow (Forbidden ''a''))\<rparr>) 0 5 sample_ctx sample_call empty_db
     = execute (sample_dispatcher (fails ''a'')) 0 5 sample_ctx sample_call empty_db
   \<and> fst (fails ''a'' empty_db) \<noteq> empty_db"
proof
  show "execute ((sample_dispatcher (fails ''a''))\<lparr>dp_handler := (\<lambda>contract ctx v exec. othrow (Forbidden ''a''))\<rparr>) 0 5 sample_ctx sample_call empty_db
     = execute (sample_dispatcher (fails ''a'')) 0 5 sample_ctx sample_call empty_db"
    by (rule failed_handler_undone) (simp_all add: sample_dispatcher_def fails_def op_simps)
  show "fst (fails ''a'' empty_db) \<noteq> empty_db" by (simp add: fails_def op_simps empty_db_def)
qed


end
