(* ===== verification/Secrets.thy ===== *)
theory Secrets
  imports Entities
begin

section \<open>Stored secrets (ai/ai-secret-cipher.service.ts)\<close>

text \<open>
  A secret is kept as \<open>v1:iv:tag:ciphertext\<close>, the parts in base64url.  AES-256-GCM, SHA-256, the random
  bytes and the encodings are those of Node: the fields of \<open>cipher\<close>.  Bytes are characters.
\<close>

record cipher =
  ci_secret :: "string option"
  ci_randomBytes :: "nat \<Rightarrow> string"
  ci_sha256 :: "string \<Rightarrow> string"
  ci_utf8 :: "string \<Rightarrow> string"
  ci_from_utf8 :: "string \<Rightarrow> string"
  ci_base64url :: "string \<Rightarrow> string"
  ci_from_base64url :: "string \<Rightarrow> string"
  ci_seal :: "string \<Rightarrow> string \<Rightarrow> string \<Rightarrow> string \<times> string"
  ci_open :: "string \<Rightarrow> string \<Rightarrow> string \<Rightarrow> string \<Rightarrow> string option"

fun js_split :: "char \<Rightarrow> string \<Rightarrow> string list" where
  "js_split sep [] = [[]]"
| "js_split sep (c # s) =
     (if c = sep then [] # js_split sep s
      else case js_split sep s of [] \<Rightarrow> [[c]] | p # ps \<Rightarrow> (c # p) # ps)"

definition ENCRYPTION_VERSION :: string where "ENCRYPTION_VERSION = ''v1''"

definition NOT_CONFIGURED :: ai_error where
  "NOT_CONFIGURED = BadRequest ''AI secret storage is not configured on this instance.''"

definition canEncrypt :: "cipher \<Rightarrow> bool" where
  "canEncrypt c \<longleftrightarrow> truthy (map_option js_trim (ci_secret c))"

definition getKey :: "cipher \<Rightarrow> ai_error + string" where
  "getKey c =
     (case ci_secret c of
        None \<Rightarrow> Inl NOT_CONFIGURED
      | Some raw \<Rightarrow> if raw = [] \<or> js_trim raw = [] then Inl NOT_CONFIGURED else Inr (ci_sha256 c (ci_utf8 c raw)))"

text \<open>The \<open>n\<close>-th call of \<open>randomBytes\<close> gives the initialisation vector.\<close>

definition encrypt :: "cipher \<Rightarrow> nat \<Rightarrow> string \<Rightarrow> ai_error + string" where
  "encrypt c n plaintext =
     (if \<not> canEncrypt c then Inl NOT_CONFIGURED
      else rbind (getKey c) (\<lambda>key.
        let iv = ci_randomBytes c n; (ciphertext, tag) = ci_seal c key iv (ci_utf8 c plaintext) in
        Inr (join '':'' [ENCRYPTION_VERSION, ci_base64url c iv, ci_base64url c tag, ci_base64url c ciphertext])))"

definition part :: "string list \<Rightarrow> nat \<Rightarrow> string option" where
  "part parts i = (if i < length parts then Some (parts ! i) else None)"

definition decrypt :: "cipher \<Rightarrow> string \<Rightarrow> ai_error + string" where
  "decrypt c payload =
     (if \<not> canEncrypt c then Inl NOT_CONFIGURED
      else
        let parts = js_split (CHR '':'') payload in
        if part parts 0 \<noteq> Some ENCRYPTION_VERSION \<or> \<not> truthy (part parts 1) \<or> \<not> truthy (part parts 2) \<or> \<not> truthy (part parts 3)
        then Inl (Thrown ''Unsupported encrypted payload'')
        else rbind (getKey c) (\<lambda>key.
          case ci_open c key (ci_from_base64url c (parts ! 1)) (ci_from_base64url c (parts ! 2)) (ci_from_base64url c (parts ! 3)) of
            None \<Rightarrow> Inl (Thrown ''Unsupported state or unable to authenticate data'')
          | Some bytes \<Rightarrow> Inr (ci_from_utf8 c bytes)))"

subsection \<open>A stored secret reads back\<close>

text \<open>What the code relies on of Node: the encodings invert, base64url has no colon and is empty only for no bytes,
  and what was sealed under a key and a vector opens with them and the tag; tag and ciphertext are not empty.\<close>

definition node_crypto :: "cipher \<Rightarrow> bool" where
  "node_crypto c \<longleftrightarrow>
     (\<forall>s. ci_from_utf8 c (ci_utf8 c s) = s) \<and> (\<forall>s. ci_utf8 c s = [] \<longrightarrow> s = [])
     \<and> (\<forall>b. ci_from_base64url c (ci_base64url c b) = b) \<and> (\<forall>b. CHR '':'' \<notin> set (ci_base64url c b))
     \<and> (\<forall>b. ci_base64url c b = [] \<longrightarrow> b = [])
     \<and> (\<forall>n. ci_randomBytes c n \<noteq> [])
     \<and> (\<forall>key iv p ct tag. ci_seal c key iv p = (ct, tag) \<longrightarrow> ci_open c key iv tag ct = Some p \<and> tag \<noteq> [] \<and> (p \<noteq> [] \<longrightarrow> ct \<noteq> []))"

lemma js_split_plain: "sep \<notin> set s \<Longrightarrow> js_split sep s = [s]"
  by (induction s) auto

lemma js_split_append: "sep \<notin> set s \<Longrightarrow> js_split sep (s @ sep # t) = s # js_split sep t"
  by (induction s) auto

lemma split_joined:
  "\<forall>p\<in>{a, b, d, e}. CHR '':'' \<notin> set p \<Longrightarrow> js_split (CHR '':'') (join '':'' [a, b, d, e]) = [a, b, d, e]"
  by (simp add: js_split_append js_split_plain)

lemma encrypted_reads_back:
  assumes node: "node_crypto c" and p: "p \<noteq> []" and e: "encrypt c n p = Inr payload"
  shows "decrypt c payload = Inr p"
proof -
  obtain key where can: "canEncrypt c" and key: "getKey c = Inr key"
    using e by (cases "getKey c") (auto simp: encrypt_def split: if_splits)
  define iv where "iv = ci_randomBytes c n"
  obtain ct tag where seal: "ci_seal c key iv (ci_utf8 c p) = (ct, tag)" by force
  let ?b = "ci_base64url c"
  have payload: "payload = join '':'' [ENCRYPTION_VERSION, ?b iv, ?b tag, ?b ct]"
    using e can key seal by (simp add: encrypt_def iv_def Let_def)
  have nonempty: "?b iv \<noteq> []" "?b tag \<noteq> []" "?b ct \<noteq> []" and opens: "ci_open c key iv tag ct = Some (ci_utf8 c p)"
    using node p seal unfolding node_crypto_def iv_def by metis+
  have "js_split (CHR '':'') payload = [ENCRYPTION_VERSION, ?b iv, ?b tag, ?b ct]"
    unfolding payload using node by (intro split_joined) (simp add: node_crypto_def ENCRYPTION_VERSION_def)
  moreover have "ci_from_base64url c (?b x) = x" "ci_from_utf8 c (ci_utf8 c p) = p" for x
    using node by (simp_all add: node_crypto_def)
  ultimately show ?thesis
    using can key opens nonempty by (simp add: decrypt_def part_def truthy_def)
qed

text \<open>C30: a secret that is not empty and could be stored is read back as it was entered.\<close>

theorem secret_roundtrip:
  assumes "node_crypto c" and "p \<noteq> []" and "encrypt c n p = Inr payload"
  shows "decrypt c payload = Inr p"
  by (rule encrypted_reads_back [OF assms])

text \<open>A stand-in for Node: two letters per byte, and a seal that keeps the text behind a mark.\<close>

definition hex2 :: "char \<Rightarrow> string" where
  "hex2 ch = (let k = (of_char ch :: nat) in [char_of (97 + k div 16), char_of (97 + k mod 16)])"

fun unhex2 :: "string \<Rightarrow> string" where
  "unhex2 (a # b # s) = char_of (((of_char a :: nat) - 97) * 16 + (of_char b - 97)) # unhex2 s"
| "unhex2 _ = []"

definition sample_cipher :: cipher where
  "sample_cipher = \<lparr> ci_secret = Some ''secret'', ci_randomBytes = (\<lambda>n. ''iv''), ci_sha256 = id, ci_utf8 = id, ci_from_utf8 = id,
     ci_base64url = (\<lambda>b. concat (map hex2 b)), ci_from_base64url = unhex2,
     ci_seal = (\<lambda>key iv p. (p, ''t'')), ci_open = (\<lambda>key iv tag ct. Some ct) \<rparr>"

lemma hex2_letters: "\<exists>i j. i < 16 \<and> j < 16 \<and> hex2 ch = [char_of (97 + i), char_of (97 + j :: nat)] \<and> (of_char ch :: nat) = i * 16 + j"
proof -
  have "(of_char ch :: nat) < 256" by simp
  then have "(of_char ch :: nat) div 16 < 16" by (intro less_mult_imp_div_less) simp
  then show ?thesis
    by (intro exI [of _ "(of_char ch :: nat) div 16"] exI [of _ "(of_char ch :: nat) mod 16"]) (simp add: hex2_def Let_def)
qed

lemma unhex2_hex2: "unhex2 (concat (map hex2 b)) = b"
proof (induction b)
  case (Cons ch b)
  obtain i j where ij: "i < 16" "j < 16" "hex2 ch = [char_of (97 + i), char_of (97 + j :: nat)]" "(of_char ch :: nat) = i * 16 + j"
    using hex2_letters [of ch] by blast
  have "(char_of (i * 16 + j) :: char) = ch" by (metis ij(4) char_of_char)
  with Cons ij show ?case by (simp add: of_char_of)
qed simp

lemma hex2_no_colon: "CHR '':'' \<notin> set (hex2 ch)"
proof -
  obtain i j :: nat where ij: "i < 16" "j < 16" "hex2 ch = [char_of (97 + i), char_of (97 + j)]" using hex2_letters [of ch] by blast
  have "CHR '':'' \<noteq> char_of (97 + k)" if "k < 16" for k :: nat
  proof
    assume colon: "CHR '':'' = char_of (97 + k)"
    have "(of_char (char_of (97 + k) :: char) :: nat) = 97 + k" using that by (simp add: of_char_of)
    then show False unfolding colon [symmetric] by simp
  qed
  with ij(1,2) show ?thesis unfolding ij(3) by simp
qed

lemma sample_cipher_node: "node_crypto sample_cipher"
  unfolding node_crypto_def
  by (auto simp: sample_cipher_def unhex2_hex2 hex2_no_colon) (simp add: hex2_def Let_def)

theorem secret_roundtrip_witness: "decrypt sample_cipher ''v1:gjhg:he:gc'' = Inr ''b''"
proof (rule secret_roundtrip [OF sample_cipher_node])
  show "encrypt sample_cipher 0 ''b'' = Inr ''v1:gjhg:he:gc''" by code_simp
qed simp

end
