(* ===== verification/RateLimits.thy ===== *)
theory RateLimits
  imports Json "HOL-Library.AList"
begin

section \<open>Rate limits and the monthly quota (ai/platform, ai/control-plane/mcp)\<close>

text \<open>
  The two sliding-window limiters, of the included model and of the MCP keys, and the monthly count of
  included messages.  A \<open>Map\<close> is an association list in insertion order, a time is a number of
  milliseconds, \<open>Date.now()\<close> is an argument.  A thrown \<open>HttpException\<close> is its status code and its
  \<open>code\<close> field.
\<close>

type_synonym windows = "(string \<times> int list) list"
type_synonym http_error = "nat \<times> string"

definition prune :: "int list \<Rightarrow> int \<Rightarrow> int list" where
  "prune values minTs = filter (\<lambda>t. t \<ge> minTs) values"

definition window_of :: "windows \<Rightarrow> string \<Rightarrow> int list" where
  "window_of ws key = (case map_of ws key of Some values \<Rightarrow> values | None \<Rightarrow> [])"

definition cleanup_entry :: "int \<Rightarrow> windows \<Rightarrow> string \<times> int list \<Rightarrow> windows" where
  "cleanup_entry minTs ws entry =
     (case entry of (key, values) \<Rightarrow>
        let next = prune values minTs in
        if next = [] then AList.delete key ws else AList.update key next ws)"

definition cleanup_windows :: "int \<Rightarrow> windows \<Rightarrow> windows" where
  "cleanup_windows minTs ws = foldl (cleanup_entry minTs) ws ws"

subsection \<open>The included model (ai-builtin-rate-limiter.ts)\<close>

definition TENANT_WINDOW_MS :: int where "TENANT_WINDOW_MS = 60000"
definition USER_WINDOW_MS :: int where "USER_WINDOW_MS = 3600000"

record builtin_limiter =
  tenantWindows :: windows
  userWindows :: windows

record builtin_call =
  bc_tenantId :: string
  bc_userId :: string
  tenantPerMinute :: int
  userPerHour :: int

definition userKey :: "builtin_call \<Rightarrow> string" where
  "userKey c = bc_tenantId c @ '':'' @ bc_userId c"

definition RATE_LIMITED :: http_error where "RATE_LIMITED = (429, ''RATE_LIMITED'')"

definition builtin_allowed :: "int \<Rightarrow> builtin_call \<Rightarrow> builtin_limiter \<Rightarrow> builtin_limiter \<times> (http_error + unit)" where
  "builtin_allowed now c s =
     (let tenantEvents = prune (window_of (tenantWindows s) (bc_tenantId c)) (now - TENANT_WINDOW_MS) in
      if int (length tenantEvents) \<ge> tenantPerMinute c
      then (s\<lparr>tenantWindows := AList.update (bc_tenantId c) tenantEvents (tenantWindows s)\<rparr>, Inl RATE_LIMITED)
      else
        let userEvents = prune (window_of (userWindows s) (userKey c)) (now - USER_WINDOW_MS) in
        if int (length userEvents) \<ge> userPerHour c
        then (s\<lparr>userWindows := AList.update (userKey c) userEvents (userWindows s)\<rparr>, Inl RATE_LIMITED)
        else (s\<lparr>tenantWindows := AList.update (bc_tenantId c) (tenantEvents @ [now]) (tenantWindows s),
                userWindows := AList.update (userKey c) (userEvents @ [now]) (userWindows s)\<rparr>, Inr ()))"

definition builtin_cleanup :: "int \<Rightarrow> builtin_limiter \<Rightarrow> builtin_limiter" where
  "builtin_cleanup now s =
     s\<lparr>tenantWindows := cleanup_windows (now - TENANT_WINDOW_MS) (tenantWindows s),
       userWindows := cleanup_windows (now - USER_WINDOW_MS) (userWindows s)\<rparr>"

subsection \<open>MCP keys (ai-mcp-rate-limiter.service.ts)\<close>

definition WINDOW_MS :: int where "WINDOW_MS = 60000"

record mcp_call =
  mc_tenantId :: string
  mc_apiKeyId :: "string option"
  limitPerMinute :: int

definition mcp_key :: "mcp_call \<Rightarrow> string" where
  "mcp_key c = mc_tenantId c @ '':'' @ (if truthy (mc_apiKeyId c) then the (mc_apiKeyId c) else ''anonymous'')"

definition MCP_RATE_LIMITED :: http_error where "MCP_RATE_LIMITED = (429, ''MCP_RATE_LIMITED'')"

definition mcp_allowed :: "int \<Rightarrow> mcp_call \<Rightarrow> windows \<Rightarrow> windows \<times> (http_error + unit)" where
  "mcp_allowed now c ws =
     (let events = prune (window_of ws (mcp_key c)) (now - WINDOW_MS) in
      if int (length events) \<ge> limitPerMinute c
      then (AList.update (mcp_key c) events ws, Inl MCP_RATE_LIMITED)
      else (AList.update (mcp_key c) (events @ [now]) ws, Inr ()))"

definition mcp_cleanup :: "int \<Rightarrow> windows \<Rightarrow> windows" where
  "mcp_cleanup now ws = cleanup_windows (now - WINDOW_MS) ws"

subsection \<open>The contract of a limiter\<close>

text \<open>
  A limiter sees calls and, from its timer, clean-ups.  The reference keeps the whole history of accepted
  calls, forgets nothing and decides from it.
\<close>

datatype 'c event = Call int 'c | Tick int

fun time_of :: "'c event \<Rightarrow> int" where
  "time_of (Call t c) = t"
| "time_of (Tick t) = t"

fun decisions :: "(int \<Rightarrow> 'c \<Rightarrow> 's \<Rightarrow> 's \<times> ('e + unit)) \<Rightarrow> (int \<Rightarrow> 's \<Rightarrow> 's) \<Rightarrow> 's \<Rightarrow> 'c event list \<Rightarrow> (int \<times> 'c \<times> bool) list" where
  "decisions step clean s [] = []"
| "decisions step clean s (Call t c # es) =
     (case step t c s of (s', r) \<Rightarrow> (t, c, \<not> isl r) # decisions step clean s' es)"
| "decisions step clean s (Tick t # es) = decisions step clean (clean t s) es"

fun reference :: "(int \<Rightarrow> (int \<times> 'c) list \<Rightarrow> 'c \<Rightarrow> bool) \<Rightarrow> (int \<times> 'c) list \<Rightarrow> 'c event list \<Rightarrow> (int \<times> 'c \<times> bool) list" where
  "reference admits h [] = []"
| "reference admits h (Call t c # es) =
     (t, c, admits t h c) # reference admits (if admits t h c then h @ [(t, c)] else h) es"
| "reference admits h (Tick t # es) = reference admits h es"

definition accepted :: "(int \<times> 'c \<times> bool) list \<Rightarrow> (int \<times> 'c) list" where
  "accepted ds = map (\<lambda>(t, c, ok). (t, c)) (filter (\<lambda>(t, c, ok). ok) ds)"

definition in_order :: "'c event list \<Rightarrow> bool" where
  "in_order es \<longleftrightarrow> sorted (map time_of es)"

text \<open>The calls of a history under a key in the window that ends at \<open>now\<close>.\<close>

definition recent :: "('c \<Rightarrow> string) \<Rightarrow> int \<Rightarrow> int \<Rightarrow> (int \<times> 'c) list \<Rightarrow> string \<Rightarrow> (int \<times> 'c) list" where
  "recent key W now h k = filter (\<lambda>(t, c). key c = k \<and> t \<ge> now - W) h"

locale limiter =
  fixes step :: "int \<Rightarrow> 'c \<Rightarrow> 's \<Rightarrow> 's \<times> ('e + unit)" and clean :: "int \<Rightarrow> 's \<Rightarrow> 's"
    and admits :: "int \<Rightarrow> (int \<times> 'c) list \<Rightarrow> 'c \<Rightarrow> bool" and knows :: "int \<Rightarrow> 's \<Rightarrow> (int \<times> 'c) list \<Rightarrow> bool"
  assumes knows_later: "now \<le> now' \<Longrightarrow> knows now s h \<Longrightarrow> knows now' s h"
    and knows_clean: "knows now s h \<Longrightarrow> knows now (clean now s) h"
    and step_decides: "knows now s h \<Longrightarrow> isl (snd (step now c s)) \<longleftrightarrow> \<not> admits now h c"
    and knows_step: "knows now s h \<Longrightarrow> knows now (fst (step now c s)) (if admits now h c then h @ [(now, c)] else h)"
begin

lemma refines:
  "in_order es \<Longrightarrow> \<forall>e\<in>set es. now \<le> time_of e \<Longrightarrow> knows now s h \<Longrightarrow> decisions step clean s es = reference admits h es"
proof (induction es arbitrary: now s h)
  case (Cons e es)
  from Cons.prems have es: "in_order es" "\<forall>x\<in>set es. time_of e \<le> time_of x" by (auto simp: in_order_def)
  from Cons.prems have k: "knows (time_of e) s h" using knows_later by auto
  show ?case
  proof (cases e)
    case (Call t c)
    obtain s' r where step: "step t c s = (s', r)" by force
    with k Call have "isl r \<longleftrightarrow> \<not> admits t h c" "knows t s' (if admits t h c then h @ [(t, c)] else h)"
      using step_decides [of t s h c] knows_step [of t s h c] by auto
    with Cons.IH [OF es(1), of t s'] es(2) Call step show ?thesis by simp
  next
    case (Tick t)
    with k have "knows t (clean t s) h" using knows_clean by auto
    with Cons.IH [OF es(1), of t] es(2) Tick show ?thesis by simp
  qed
qed simp

end


subsection \<open>Windows know their history\<close>

definition times_of :: "('c \<Rightarrow> string) \<Rightarrow> (int \<times> 'c) list \<Rightarrow> string \<Rightarrow> int list" where
  "times_of key h k = map fst (filter (\<lambda>(t, c). key c = k) h)"

definition window_knows :: "('c \<Rightarrow> string) \<Rightarrow> int \<Rightarrow> int \<Rightarrow> windows \<Rightarrow> (int \<times> 'c) list \<Rightarrow> bool" where
  "window_knows key W now ws h \<longleftrightarrow> distinct (map fst ws)
     \<and> (\<forall>k. \<forall>t\<ge>now. prune (window_of ws k) (t - W) = prune (times_of key h k) (t - W))"

lemma prune_prune: "m \<le> n \<Longrightarrow> prune (prune xs m) n = prune xs n"
  by (induction xs) (auto simp: prune_def)

lemma prune_Nil [simp]: "prune [] m = []"
  by (simp add: prune_def)

lemma prune_append [simp]: "prune (xs @ ys) m = prune xs m @ prune ys m"
  by (simp add: prune_def)

lemma window_of_update: "window_of (AList.update k v ws) j = (if j = k then v else window_of ws j)"
  by (simp add: window_of_def update_conv')

lemma window_of_delete: "window_of (AList.delete k ws) j = (if j = k then [] else window_of ws j)"
  by (simp add: window_of_def delete_conv')

lemma times_of_append: "times_of key (h @ [(t, c)]) k = times_of key h k @ (if key c = k then [t] else [])"
  by (simp add: times_of_def)

lemma recent_times: "map fst (recent key W now h k) = prune (times_of key h k) (now - W)"
  by (induction h) (auto simp: recent_def times_of_def prune_def)

lemma recent_count: "length (recent key W now h k) = length (prune (times_of key h k) (now - W))"
  by (metis recent_times length_map)

lemma window_knows_Nil [simp]: "window_knows key W now [] []"
  by (simp add: window_knows_def window_of_def times_of_def prune_def)

lemma window_knows_later: "now \<le> now' \<Longrightarrow> window_knows key W now ws h \<Longrightarrow> window_knows key W now' ws h"
  by (simp add: window_knows_def)

text \<open>Storing back the pruned window, alone or with the new call.\<close>

lemma window_knows_refused:
  "window_knows key W now ws h \<Longrightarrow> window_knows key W now (AList.update k (prune (window_of ws k) (now - W)) ws) h"
  by (auto simp: window_knows_def window_of_update prune_prune distinct_update)

lemma window_knows_pushed:
  "window_knows key W now ws h \<Longrightarrow> k = key c \<Longrightarrow>
   window_knows key W now (AList.update k (prune (window_of ws k) (now - W) @ [now]) ws) (h @ [(now, c)])"
  by (auto simp: window_knows_def window_of_update prune_prune distinct_update times_of_append)

lemma cleanup_windows_at:
  "distinct (map fst xs) \<Longrightarrow> window_of (foldl (cleanup_entry m) ws xs) k
     = (if k \<in> fst ` set xs then prune (window_of xs k) m else window_of ws k)"
proof (induction xs arbitrary: ws)
  case (Cons x xs)
  obtain j v where x: "x = (j, v)" by force
  have "window_of (cleanup_entry m ws x) k = (if k = j then prune v m else window_of ws k)"
    by (simp add: x cleanup_entry_def Let_def window_of_update window_of_delete)
  moreover have "window_of (x # xs) k = (if k = j then v else window_of xs k)" by (simp add: x window_of_def)
  ultimately show ?case using Cons by (auto simp: x)
qed simp

lemma cleanup_windows_keys: "distinct (map fst ws) \<Longrightarrow> distinct (map fst (foldl (cleanup_entry m) ws xs))"
  by (induction xs arbitrary: ws) (auto simp: cleanup_entry_def Let_def distinct_update distinct_delete split: prod.split)

lemma cleanup_windows_window:
  assumes "distinct (map fst ws)"
  shows "window_of (cleanup_windows m ws) k = prune (window_of ws k) m"
proof (cases "k \<in> fst ` set ws")
  case False
  then have "window_of ws k = []" by (simp add: window_of_def map_of_eq_None_iff [THEN iffD2])
  with False assms show ?thesis by (simp add: cleanup_windows_def cleanup_windows_at)
qed (use assms in \<open>simp add: cleanup_windows_def cleanup_windows_at\<close>)

lemma window_knows_cleanup: "window_knows key W now ws h \<Longrightarrow> window_knows key W now (cleanup_windows (now - W) ws) h"
  by (auto simp: window_knows_def cleanup_windows_window prune_prune) (simp add: cleanup_windows_def cleanup_windows_keys)

lemma window_count:
  "window_knows key W now ws h \<Longrightarrow> length (prune (window_of ws k) (now - W)) = length (recent key W now h k)"
  by (simp add: window_knows_def recent_count)

subsection \<open>Both limiters meet the contract\<close>

definition builtin_admits :: "int \<Rightarrow> (int \<times> builtin_call) list \<Rightarrow> builtin_call \<Rightarrow> bool" where
  "builtin_admits now h c \<longleftrightarrow>
     int (length (recent bc_tenantId TENANT_WINDOW_MS now h (bc_tenantId c))) < tenantPerMinute c
     \<and> int (length (recent userKey USER_WINDOW_MS now h (userKey c))) < userPerHour c"

definition builtin_knows :: "int \<Rightarrow> builtin_limiter \<Rightarrow> (int \<times> builtin_call) list \<Rightarrow> bool" where
  "builtin_knows now s h \<longleftrightarrow> window_knows bc_tenantId TENANT_WINDOW_MS now (tenantWindows s) h
     \<and> window_knows userKey USER_WINDOW_MS now (userWindows s) h"

interpretation builtin: limiter builtin_allowed builtin_cleanup builtin_admits builtin_knows
proof
  fix now s h c
  assume k: "builtin_knows now s h"
  then have kt: "window_knows bc_tenantId TENANT_WINDOW_MS now (tenantWindows s) h"
    and ku: "window_knows userKey USER_WINDOW_MS now (userWindows s) h" by (simp_all add: builtin_knows_def)
  note counts = window_count [OF kt] window_count [OF ku]
  show "isl (snd (builtin_allowed now c s)) \<longleftrightarrow> \<not> builtin_admits now h c"
    by (auto simp: builtin_allowed_def Let_def counts builtin_admits_def)
  show "builtin_knows now (fst (builtin_allowed now c s)) (if builtin_admits now h c then h @ [(now, c)] else h)"
    using window_knows_refused [OF kt] window_knows_refused [OF ku] window_knows_pushed [OF kt refl] window_knows_pushed [OF ku refl] kt ku
    by (auto simp: builtin_allowed_def Let_def counts builtin_admits_def builtin_knows_def)
next
  fix now s h
  assume "builtin_knows now s h"
  then show "builtin_knows now (builtin_cleanup now s) h"
    by (simp add: builtin_knows_def builtin_cleanup_def window_knows_cleanup)
qed (auto simp: builtin_knows_def intro: window_knows_later)

definition mcp_admits :: "int \<Rightarrow> (int \<times> mcp_call) list \<Rightarrow> mcp_call \<Rightarrow> bool" where
  "mcp_admits now h c \<longleftrightarrow> int (length (recent mcp_key WINDOW_MS now h (mcp_key c))) < limitPerMinute c"

interpretation mcp: limiter mcp_allowed mcp_cleanup mcp_admits "window_knows mcp_key WINDOW_MS"
proof
  fix now ws h c
  assume k: "window_knows mcp_key WINDOW_MS now ws h"
  note count = window_count [OF k]
  show "isl (snd (mcp_allowed now c ws)) \<longleftrightarrow> \<not> mcp_admits now h c"
    by (simp add: mcp_allowed_def Let_def count mcp_admits_def)
  show "window_knows mcp_key WINDOW_MS now (fst (mcp_allowed now c ws)) (if mcp_admits now h c then h @ [(now, c)] else h)"
    using window_knows_refused [OF k] window_knows_pushed [OF k refl]
    by (simp add: mcp_allowed_def Let_def count mcp_admits_def)
qed (auto simp: mcp_cleanup_def window_knows_cleanup intro: window_knows_later)


subsection \<open>How many calls pass\<close>

text \<open>The accepted calls under one key within a window of \<open>W\<close> that ends anywhere.\<close>

definition in_window :: "('c \<Rightarrow> string) \<Rightarrow> int \<Rightarrow> int \<Rightarrow> (int \<times> 'c) list \<Rightarrow> string \<Rightarrow> (int \<times> 'c) list" where
  "in_window key W T h k = filter (\<lambda>(t, c). key c = k \<and> T - W \<le> t \<and> t \<le> T) h"

definition bounded :: "('c \<Rightarrow> string) \<Rightarrow> int \<Rightarrow> int \<Rightarrow> (int \<times> 'c) list \<Rightarrow> string \<Rightarrow> bool" where
  "bounded key W L h k \<longleftrightarrow> (\<forall>T. int (length (in_window key W T h k)) \<le> L)"

lemma bounded_push:
  assumes h: "bounded key W L h k" and order: "\<forall>(t, c)\<in>set h. t \<le> now"
    and room: "key c = k \<Longrightarrow> int (length (recent key W now h k)) < L"
  shows "bounded key W L (h @ [(now, c)]) k"
  unfolding bounded_def
proof
  fix T
  show "int (length (in_window key W T (h @ [(now, c)]) k)) \<le> L"
  proof (cases "key c = k \<and> T - W \<le> now \<and> now \<le> T")
    case True
    have "length (in_window key W T h k) \<le> length (recent key W now h k)"
      using True by (induction h) (auto simp: in_window_def recent_def)
    with room True show ?thesis by (simp add: in_window_def)
  next
    case False
    with h show ?thesis by (auto simp: in_window_def bounded_def)
  qed
qed

lemma accepted_simps [simp]:
  "accepted [] = []" "accepted ((t, c, ok) # ds) = (if ok then [(t, c)] else []) @ accepted ds"
  by (simp_all add: accepted_def)

lemma reference_bounded:
  assumes room: "\<And>now h c. admits now h c \<Longrightarrow> key c = k \<Longrightarrow> limit c \<le> L \<Longrightarrow> int (length (recent key W now h k)) < L"
  shows "in_order es \<Longrightarrow> \<forall>e\<in>set es. \<forall>(t, c)\<in>set h. t \<le> time_of e \<Longrightarrow> \<forall>t c. Call t c \<in> set es \<longrightarrow> key c = k \<longrightarrow> limit c \<le> L \<Longrightarrow>
    bounded key W L h k \<Longrightarrow> bounded key W L (h @ accepted (reference admits h es)) k"
proof (induction es arbitrary: h)
  case (Cons e es)
  from Cons.prems(1) have es: "in_order es" "\<forall>x\<in>set es. time_of e \<le> time_of x" by (auto simp: in_order_def)
  show ?case
  proof (cases e)
    case (Call t c)
    show ?thesis
    proof (cases "admits t h c")
      case True
      have "\<forall>x\<in>set es. \<forall>(u, d)\<in>set (h @ [(t, c)]). u \<le> time_of x" using Cons.prems(2) es(2) Call by fastforce
      moreover have "bounded key W L (h @ [(t, c)]) k"
        using Cons.prems(2-4) Call room [OF True] by (intro bounded_push) auto
      ultimately show ?thesis using Cons.IH [OF es(1), of "h @ [(t, c)]"] Cons.prems(3) Call True by simp
    next
      case False
      with Cons.IH [OF es(1), of h] Cons.prems Call show ?thesis by simp
    qed
  next
    case (Tick t)
    with Cons.IH [OF es(1), of h] Cons.prems show ?thesis by simp
  qed
qed simp

subsection \<open>What the limiters promise\<close>

lemma first_time: "in_order es \<Longrightarrow> es \<noteq> [] \<Longrightarrow> \<forall>e\<in>set es. time_of (hd es) \<le> time_of e"
  by (cases es) (auto simp: in_order_def)

lemma builtin_decisions:
  assumes "in_order es"
  shows "decisions builtin_allowed builtin_cleanup \<lparr> tenantWindows = [], userWindows = [] \<rparr> es = reference builtin_admits [] es"
proof (cases "es = []")
  case False
  show ?thesis by (rule builtin.refines [OF assms first_time [OF assms False]]) (simp add: builtin_knows_def)
qed simp

lemma mcp_decisions:
  assumes "in_order es"
  shows "decisions mcp_allowed mcp_cleanup [] es = reference mcp_admits [] es"
proof (cases "es = []")
  case False
  show ?thesis by (rule mcp.refines [OF assms first_time [OF assms False]]) simp
qed simp

lemma reference_bounded_start:
  assumes "\<And>now h c. admits now h c \<Longrightarrow> key c = k \<Longrightarrow> limit c \<le> L \<Longrightarrow> int (length (recent key W now h k)) < L"
    and "in_order es" "\<forall>t c. Call t c \<in> set es \<longrightarrow> key c = k \<longrightarrow> limit c \<le> L" "0 \<le> L"
  shows "int (length (in_window key W T (accepted (reference admits [] es)) k)) \<le> L"
  using reference_bounded [OF assms(1-2), where h = "[]"] assms(3,4) by (simp add: bounded_def in_window_def)

text \<open>C27: fed with calls and clean-ups in the order of time, the limiter of the included model decides every
  call exactly as a limiter that keeps the whole history would: refused when the minute before the call holds
  as many accepted calls of the tenant as allowed, or the hour before it as many of the user.\<close>

theorem builtin_limiter_exact:
  assumes "in_order es"
  shows "decisions builtin_allowed builtin_cleanup \<lparr> tenantWindows = [], userWindows = [] \<rparr> es = reference builtin_admits [] es"
  by (rule builtin_decisions [OF assms])

definition sample_calls :: "builtin_call event list" where
  "sample_calls =
     [Call 0 \<lparr> bc_tenantId = ''t'', bc_userId = ''u'', tenantPerMinute = 1, userPerHour = 2 \<rparr>,
      Call 60000 \<lparr> bc_tenantId = ''t'', bc_userId = ''u'', tenantPerMinute = 1, userPerHour = 2 \<rparr>,
      Tick 300000,
      Call 300001 \<lparr> bc_tenantId = ''t'', bc_userId = ''u'', tenantPerMinute = 1, userPerHour = 2 \<rparr>]"

theorem builtin_limiter_exact_witness:
  "decisions builtin_allowed builtin_cleanup \<lparr> tenantWindows = [], userWindows = [] \<rparr> sample_calls
     = reference builtin_admits [] sample_calls"
  by (rule builtin_limiter_exact) (simp add: in_order_def sample_calls_def)

text \<open>A call exactly one minute later still meets the first one.\<close>

lemma sample_calls_decided: "map (\<lambda>(t, c, ok). ok) (reference builtin_admits [] sample_calls) = [True, False, True]"
  by code_simp

text \<open>C28: whatever the calls and clean-ups, no minute holds more accepted calls of one MCP key than the largest
  limit the calls of this key came with.\<close>

theorem mcp_calls_bounded:
  assumes "in_order es" and "\<forall>t c. Call t c \<in> set es \<longrightarrow> mcp_key c = k \<longrightarrow> limitPerMinute c \<le> L" and "0 \<le> L"
  shows "int (length (in_window mcp_key WINDOW_MS T (accepted (decisions mcp_allowed mcp_cleanup [] es)) k)) \<le> L"
  unfolding mcp_decisions [OF assms(1)]
  by (rule reference_bounded_start [OF _ assms, where admits = mcp_admits]) (auto simp: mcp_admits_def)

definition sample_mcp :: mcp_call where
  "sample_mcp = \<lparr> mc_tenantId = ''t'', mc_apiKeyId = None, limitPerMinute = 1 \<rparr>"

theorem mcp_calls_bounded_witness:
  "int (length (in_window mcp_key WINDOW_MS 59000
     (accepted (decisions mcp_allowed mcp_cleanup [] [Call 0 sample_mcp, Call 59000 sample_mcp, Call 61000 sample_mcp]))
     ''t:anonymous'')) \<le> 1"
  by (rule mcp_calls_bounded) (auto simp: in_order_def sample_mcp_def)

lemma builtin_tenant_bounded:
  assumes "in_order es" and "\<forall>t c. Call t c \<in> set es \<longrightarrow> bc_tenantId c = k \<longrightarrow> tenantPerMinute c \<le> L" and "0 \<le> L"
  shows "int (length (in_window bc_tenantId TENANT_WINDOW_MS T
    (accepted (decisions builtin_allowed builtin_cleanup \<lparr> tenantWindows = [], userWindows = [] \<rparr> es)) k)) \<le> L"
  unfolding builtin_decisions [OF assms(1)]
  by (rule reference_bounded_start [OF _ assms, where admits = builtin_admits]) (auto simp: builtin_admits_def)

lemma builtin_user_bounded:
  assumes "in_order es" and "\<forall>t c. Call t c \<in> set es \<longrightarrow> userKey c = k \<longrightarrow> userPerHour c \<le> L" and "0 \<le> L"
  shows "int (length (in_window userKey USER_WINDOW_MS T
    (accepted (decisions builtin_allowed builtin_cleanup \<lparr> tenantWindows = [], userWindows = [] \<rparr> es)) k)) \<le> L"
  unfolding builtin_decisions [OF assms(1)]
  by (rule reference_bounded_start [OF _ assms, where admits = builtin_admits]) (auto simp: builtin_admits_def)

subsection \<open>The monthly quota (ai-builtin-usage.service.ts)\<close>

definition QUOTA_DAY_MS :: int where "QUOTA_DAY_MS = 86400000"

definition getYearMonth :: "int \<Rightarrow> string" where
  "getYearMonth t =
     (let day = t div QUOTA_DAY_MS in show_int (year_from_day day) @ ''-'' @ two_digits (month_from_day day))"

text \<open>\<open>split('-')\<close> and \<open>Number\<close> on a text of digits, a dash and digits.\<close>

definition reset_instant :: "string \<Rightarrow> int" where
  "reset_instant yearMonth =
     (let year = int (nat_of_digits (takeWhile (\<lambda>c. c \<noteq> CHR ''-'') yearMonth));
          month = int (nat_of_digits (tl (dropWhile (\<lambda>c. c \<noteq> CHR ''-'') yearMonth)))
      in date_utc year month 1 * QUOTA_DAY_MS)"

definition getResetDate :: "string \<Rightarrow> string" where
  "getResetDate yearMonth = iso_day (reset_instant yearMonth div QUOTA_DAY_MS) @ ''T00:00:00.000Z''"

record usage_row =
  us_tenant_id :: string
  us_year_month :: string
  user_message_count :: int

definition DEFAULT_FREE_MONTHLY_MESSAGE_LIMIT :: int where "DEFAULT_FREE_MONTHLY_MESSAGE_LIMIT = 1500"

definition getMonthlyLimit :: "(string \<times> int) list \<Rightarrow> int" where
  "getMonthlyLimit planLimits =
     (case map_of planLimits ''default'' of Some l \<Rightarrow> l | None \<Rightarrow> DEFAULT_FREE_MONTHLY_MESSAGE_LIMIT)"

record usage_view =
  uv_count :: int
  uv_limit :: int
  uv_year_month :: string
  uv_reset_date :: string

definition find_usage :: "string \<Rightarrow> string \<Rightarrow> usage_row list \<Rightarrow> usage_row option" where
  "find_usage tenantId yearMonth rows = List.find (\<lambda>r. us_tenant_id r = tenantId \<and> us_year_month r = yearMonth) rows"

definition getCurrentUsage :: "int \<Rightarrow> (string \<times> int) list \<Rightarrow> usage_row list \<Rightarrow> string \<Rightarrow> usage_view" where
  "getCurrentUsage now planLimits rows tenantId =
     (let yearMonth = getYearMonth now in
      \<lparr> uv_count = (case find_usage tenantId yearMonth rows of Some r \<Rightarrow> user_message_count r | None \<Rightarrow> 0),
        uv_limit = getMonthlyLimit planLimits, uv_year_month = yearMonth, uv_reset_date = getResetDate yearMonth \<rparr>)"

text \<open>The upsert: insert with one message, or on conflict add one where the stored count is below the limit.  It
  returns the new count, or no row.\<close>

definition upsert_usage :: "string \<Rightarrow> string \<Rightarrow> int \<Rightarrow> usage_row list \<Rightarrow> usage_row list \<times> int option" where
  "upsert_usage tenantId yearMonth limit rows =
     (case find_usage tenantId yearMonth rows of
        None \<Rightarrow> (rows @ [\<lparr> us_tenant_id = tenantId, us_year_month = yearMonth, user_message_count = 1 \<rparr>], Some 1)
      | Some r \<Rightarrow>
          if user_message_count r < limit
          then (map (\<lambda>x. if us_tenant_id x = tenantId \<and> us_year_month x = yearMonth
                         then x\<lparr>user_message_count := user_message_count x + 1\<rparr> else x) rows,
                Some (user_message_count r + 1))
          else (rows, None))"

definition reserveMessage ::
  "int \<Rightarrow> (string \<times> int) list \<Rightarrow> string \<Rightarrow> int \<Rightarrow> usage_row list \<Rightarrow> usage_row list \<times> (http_error \<times> usage_view + int)" where
  "reserveMessage now planLimits tenantId limit rows =
     (case upsert_usage tenantId (getYearMonth now) limit rows of
        (rows', Some nextCount) \<Rightarrow> (rows', Inr nextCount)
      | (rows', None) \<Rightarrow> (rows', Inl ((429, ''BUILTIN_QUOTA_EXHAUSTED''), getCurrentUsage now planLimits rows' tenantId)))"

text \<open>A month of requests of one tenant: how many of them got a message.\<close>

fun reserved :: "int list \<Rightarrow> (string \<times> int) list \<Rightarrow> string \<Rightarrow> int \<Rightarrow> usage_row list \<Rightarrow> (int \<times> bool) list" where
  "reserved [] planLimits tenantId limit rows = []"
| "reserved (now # ts) planLimits tenantId limit rows =
     (case reserveMessage now planLimits tenantId limit rows of
        (rows', r) \<Rightarrow> (now, \<not> isl r) # reserved ts planLimits tenantId limit rows')"

lemma find_append: "List.find P (xs @ ys) = (case List.find P xs of Some x \<Rightarrow> Some x | None \<Rightarrow> List.find P ys)"
  by (induction xs) auto

lemma upsert_other: "m \<noteq> ym \<Longrightarrow> find_usage tid m (fst (upsert_usage tid ym limit rows)) = find_usage tid m rows"
proof -
  assume m: "m \<noteq> ym"
  have "find_usage tid m (map (\<lambda>x. if us_tenant_id x = tid \<and> us_year_month x = ym then x\<lparr>user_message_count := user_message_count x + 1\<rparr> else x) rows)
      = find_usage tid m rows"
    using m by (induction rows) (auto simp: find_usage_def)
  then show ?thesis using m
    by (auto simp: upsert_usage_def find_usage_def find_append split: option.split)
qed

lemma find_bumped: "find_usage tid ym rows = Some r \<Longrightarrow>
    find_usage tid ym (map (\<lambda>x. if us_tenant_id x = tid \<and> us_year_month x = ym then x\<lparr>user_message_count := user_message_count x + 1\<rparr> else x) rows)
      = Some (r\<lparr>user_message_count := user_message_count r + 1\<rparr>)"
  by (induction rows) (auto simp: find_usage_def split: if_splits)

definition left :: "string \<Rightarrow> string \<Rightarrow> int \<Rightarrow> usage_row list \<Rightarrow> int" where
  "left tenantId yearMonth limit rows =
     (case find_usage tenantId yearMonth rows of None \<Rightarrow> max 1 limit | Some r \<Rightarrow> max 0 (limit - user_message_count r))"

lemma reserve_left:
  assumes "reserveMessage now planLimits tid limit rows = (rows', r)"
  shows "isl r \<longleftrightarrow> left tid (getYearMonth now) limit rows = 0"
    and "left tid m limit rows' = (if m = getYearMonth now \<and> \<not> isl r then left tid m limit rows - 1 else left tid m limit rows)"
proof -
  let ?ym = "getYearMonth now"
  have rows': "rows' = fst (upsert_usage tid ?ym limit rows)"
    using assms by (auto simp: reserveMessage_def split: prod.splits option.splits)
  show "isl r \<longleftrightarrow> left tid ?ym limit rows = 0"
    using assms by (auto simp: reserveMessage_def upsert_usage_def left_def split: option.splits if_splits)
  show "left tid m limit rows' = (if m = ?ym \<and> \<not> isl r then left tid m limit rows - 1 else left tid m limit rows)"
  proof (cases "m = ?ym")
    case False
    then show ?thesis by (simp add: rows' left_def upsert_other)
  next
    case True
    show ?thesis
    proof (cases "find_usage tid ?ym rows")
      case None
      then have "find_usage tid ?ym rows' = Some \<lparr> us_tenant_id = tid, us_year_month = ?ym, user_message_count = 1 \<rparr>"
        by (simp add: rows' upsert_usage_def) (simp add: find_usage_def find_append)
      with None True assms show ?thesis by (auto simp: left_def reserveMessage_def upsert_usage_def)
    next
      case (Some u)
      with True assms find_bumped [OF Some] show ?thesis
        by (auto simp: left_def reserveMessage_def upsert_usage_def split: if_splits)
    qed
  qed
qed

lemma left_nonneg: "0 \<le> left tid m limit rows"
  by (auto simp: left_def max_def split: option.split)

lemma reserved_count:
  "int (length (filter (\<lambda>(t, ok). ok \<and> getYearMonth t = m) (reserved ts planLimits tid limit rows)))
     = min (int (length (filter (\<lambda>t. getYearMonth t = m) ts))) (left tid m limit rows)"
proof (induction ts arbitrary: rows)
  case (Cons now ts)
  obtain rows' r where r: "reserveMessage now planLimits tid limit rows = (rows', r)" by force
  note step = reserve_left [OF r]
  show ?case
  proof (cases "getYearMonth now = m")
    case True
    with Cons.IH [of rows'] r step(1) step(2) [of m] left_nonneg [of tid m limit rows]
    show ?thesis by (cases "isl r") auto
  next
    case False
    with Cons.IH [of rows'] r step(2) [of m] show ?thesis by auto
  qed
qed (simp add: left_nonneg)

text \<open>C29: of the messages a tenant without a count asks for in a month, exactly the monthly limit many get
  through, and one even where the limit is zero: the insert does not look at the limit.\<close>

theorem monthly_messages:
  assumes "find_usage tenantId m rows = None"
  shows "int (length (filter (\<lambda>(t, ok). ok \<and> getYearMonth t = m) (reserved ts planLimits tenantId limit rows)))
    = min (int (length (filter (\<lambda>t. getYearMonth t = m) ts))) (max 1 limit)"
  using reserved_count [of m ts planLimits tenantId limit rows] assms by (simp add: left_def)

text \<open>Three requests in January 1970 and a limit of zero.\<close>

theorem monthly_messages_witness:
  "int (length (filter (\<lambda>(t, ok). ok \<and> getYearMonth t = ''1970-01'') (reserved [0, 1, 2] [] ''t'' 0 [])))
    = min (int (length (filter (\<lambda>t. getYearMonth t = ''1970-01'') [0, 1, 2]))) (max 1 0)"
  by (rule monthly_messages) (simp add: find_usage_def)

lemma zero_limit_passes_one: "map snd (reserved [0, 1] [] ''t'' 0 []) = [True, False]"
  by code_simp

subsection \<open>When the count starts again\<close>

lemma month_start:
  assumes "100 \<le> y" "1 \<le> m" "m \<le> 12"
  shows "date_utc y m 1 = day_from_year y + days_before y (m + 1)"
proof (cases "m = 12")
  case True
  have "make_day y 12 1 = day_from_year (y + 1)" by (simp add: make_day_def)
  with True assms leap_day_from_year [of y] show ?thesis by (simp add: date_utc_def)
next
  case False
  with assms make_day_in_year [of "m + 1" y 1] show ?thesis by (simp add: date_utc_def)
qed

lemma same_month_iff:
  assumes "d \<le> t" "100 \<le> year_from_day d"
  shows "year_from_day t = year_from_day d \<and> month_from_day t = month_from_day d
    \<longleftrightarrow> t < date_utc (year_from_day d) (month_from_day d) 1"
proof -
  define y where "y = year_from_day d"
  define m where "m = month_from_day d"
  have v: "valid_date y m (date_from_day d)" unfolding y_def m_def by (rule month_from_day_valid)
  then have m: "1 \<le> m" "m \<le> 12" by (simp_all add: valid_date_def)
  have d: "day_from_year y + days_before y m \<le> d"
    using v by (simp add: valid_date_def date_from_day_def Let_def flip: y_def m_def)
  have N: "date_utc y m 1 = day_from_year y + days_before y (m + 1)" using month_start assms(2) m by (simp add: y_def)
  have "days_before y (m + 1) \<le> days_before y 13" using m by (intro days_before_mono) simp_all
  then have end_: "day_from_year y + days_before y (m + 1) \<le> day_from_year (y + 1)" using leap_day_from_year [of y] by (auto split: if_splits)
  have "0 \<le> days_before y m" using days_before_mono [of 1 m y] m by simp
  show ?thesis
  proof
    assume "year_from_day t = year_from_day d \<and> month_from_day t = month_from_day d"
    then have "t - day_from_year y - days_before y m + 1 \<le> month_days y m"
      using month_from_day_valid [of t] by (simp add: valid_date_def date_from_day_def Let_def y_def m_def)
    then show "t < date_utc (year_from_day d) (month_from_day d) 1" by (simp add: N month_days_def flip: y_def m_def)
  next
    assume "t < date_utc (year_from_day d) (month_from_day d) 1"
    then have t: "t < day_from_year y + days_before y (m + 1)" by (simp add: N flip: y_def m_def)
    with d assms(1) end_ \<open>0 \<le> days_before y m\<close> have y: "year_from_day t = y" by (intro year_from_day_unique) linarith+
    have "month_from_day t = m"
      unfolding month_from_day_def Let_def y by (rule month_count) (use m d t assms(1) in linarith)+
    with y show "year_from_day t = year_from_day d \<and> month_from_day t = month_from_day d" by (simp add: y_def m_def)
  qed
qed

lemma no_dash: "all_digits s \<Longrightarrow> takeWhile (\<lambda>c. c \<noteq> CHR ''-'') (s @ CHR ''-'' # r) = s \<and> dropWhile (\<lambda>c. c \<noteq> CHR ''-'') (s @ CHR ''-'' # r) = CHR ''-'' # r"
  by (induction s) (auto simp: all_digits_def is_digit_def)


lemma year_pos: "0 \<le> t \<Longrightarrow> 1970 \<le> year_from_day t"
proof (rule ccontr)
  assume "0 \<le> t" "\<not> 1970 \<le> year_from_day t"
  then have "day_from_year (year_from_day t + 1) \<le> day_from_year 1970" by (intro day_from_year_mono) simp
  with year_from_day(2) [of t] \<open>0 \<le> t\<close> show False by (simp add: day_from_year_def)
qed

lemma month_range: "1 \<le> month_from_day t" "month_from_day t \<le> 12"
  using month_from_day_valid [of t] by (simp_all add: valid_date_def)

lemma year_month_parts:
  assumes "0 \<le> t"
  defines "ym \<equiv> getYearMonth t"
  shows "int (nat_of_digits (takeWhile (\<lambda>c. c \<noteq> CHR ''-'') ym)) = year_from_day (t div QUOTA_DAY_MS)"
    and "int (nat_of_digits (tl (dropWhile (\<lambda>c. c \<noteq> CHR ''-'') ym))) = month_from_day (t div QUOTA_DAY_MS)"
proof -
  have "0 \<le> t div QUOTA_DAY_MS" using assms(1) by (simp add: QUOTA_DAY_MS_def pos_imp_zdiv_nonneg_iff)
  then have y: "0 \<le> year_from_day (t div QUOTA_DAY_MS)" using year_pos [of "t div QUOTA_DAY_MS"] by simp
  then have ym: "ym = show_nat (nat (year_from_day (t div QUOTA_DAY_MS))) @ CHR ''-'' # two_digits (month_from_day (t div QUOTA_DAY_MS))"
    by (simp add: ym_def getYearMonth_def Let_def show_int_def)
  show "int (nat_of_digits (takeWhile (\<lambda>c. c \<noteq> CHR ''-'') ym)) = year_from_day (t div QUOTA_DAY_MS)"
    using y by (simp add: ym no_dash)
  show "int (nat_of_digits (tl (dropWhile (\<lambda>c. c \<noteq> CHR ''-'') ym))) = month_from_day (t div QUOTA_DAY_MS)"
    using month_range(1) [of "t div QUOTA_DAY_MS"] by (simp add: ym no_dash)
qed

lemma getYearMonth_eq:
  assumes "0 \<le> s" "0 \<le> t"
  shows "getYearMonth t = getYearMonth s
    \<longleftrightarrow> year_from_day (t div QUOTA_DAY_MS) = year_from_day (s div QUOTA_DAY_MS) \<and> month_from_day (t div QUOTA_DAY_MS) = month_from_day (s div QUOTA_DAY_MS)"
  using year_month_parts [OF assms(1)] year_month_parts [OF assms(2)] by (metis getYearMonth_def)

text \<open>The date shown as the reset is the first instant at which the messages of the month no longer count.\<close>

theorem reset_starts_next_month:
  assumes "0 \<le> now" "now \<le> t"
  shows "getYearMonth t = getYearMonth now \<longleftrightarrow> t < reset_instant (getYearMonth now)"
proof -
  let ?d = "now div QUOTA_DAY_MS"
  have "0 \<le> ?d" using assms(1) by (simp add: QUOTA_DAY_MS_def pos_imp_zdiv_nonneg_iff)
  then have y: "100 \<le> year_from_day ?d" using year_pos [of ?d] by simp
  have "?d \<le> t div QUOTA_DAY_MS" using assms(2) by (simp add: QUOTA_DAY_MS_def zdiv_mono1)
  from same_month_iff [OF this y] show ?thesis
    using getYearMonth_eq [of now t] assms year_month_parts [OF assms(1)]
    by (simp add: reset_instant_def Let_def QUOTA_DAY_MS_def) linarith
qed

theorem reset_starts_next_month_witness:
  "getYearMonth 2678400000 = getYearMonth 2678399999 \<longleftrightarrow> (2678400000::int) < reset_instant (getYearMonth 2678399999)"
  by (rule reset_starts_next_month) simp_all

lemma reset_sample: "getResetDate (getYearMonth 2678399999) = ''1970-02-01T00:00:00.000Z''"
  by code_simp

end
