(* ===== verification/Models.thy ===== *)
theory Models
  imports Secrets Evidence RateLimits
begin

section \<open>Which language model a request runs on (ai/ai-model-resolver.service.ts, ai/platform)\<close>

text \<open>
  A tenant registers models of its own; a consumer (the assistant or an agent) may be assigned one; without
  one it runs on the default of the tenant, and without that on the model included by the platform, which
  needs a confirmation by an administrator of the workspace.  The platform record is cached for a minute.
\<close>

subsection \<open>Rows\<close>

record ai_model_config =
  mo_id :: string
  mo_tenant_id :: string
  mo_name :: string
  mo_provider :: string
  mo_model :: string
  mo_endpoint_url :: "string option"
  mo_api_key_encrypted :: "string option"
  mo_supports_vision :: bool
  mo_price_input :: "string option"
  mo_price_output :: "string option"
  mo_llm_timeout_ms :: "int option"
  mo_status :: string
  mo_is_default :: bool
  mo_updated_by :: "string option"
  mo_created_at :: int
  mo_updated_at :: int

record ai_settings =
  set_id :: string
  set_tenant_id :: string
  set_chat_enabled :: bool
  set_mcp_enabled :: bool
  set_llm_provider :: "string option"
  set_llm_api_key_encrypted :: "string option"
  set_llm_endpoint_url :: "string option"
  set_llm_model :: "string option"
  set_provider_source :: string
  set_chat_model_config_id :: "string option"
  set_mcp_key_max_lifetime_days :: "int option"
  set_conversation_retention_days :: "int option"
  set_web_search_enabled :: bool
  set_llm_supports_vision :: bool
  set_glpi_enabled :: bool
  set_glpi_url :: "string option"
  set_glpi_user_token_encrypted :: "string option"
  set_glpi_app_token_encrypted :: "string option"
  set_builtin_accepted_key :: "string option"
  set_builtin_accepted_at :: "int option"
  set_builtin_accepted_by :: "string option"
  set_created_at :: int
  set_updated_at :: int

record platform_ai_config =
  pc_id :: string
  pc_provider :: string
  pc_model :: string
  pc_api_key_encrypted :: string
  pc_endpoint_url :: "string option"
  pc_rate_limit_tenant_per_minute :: int
  pc_rate_limit_user_per_hour :: int
  pc_updated_at :: int
  pc_updated_by :: "string option"
  pc_disclosure_name :: "string option"
  pc_disclosure_location :: "string option"

subsection \<open>Providers (ai/providers)\<close>

record provider_settings =
  ps_provider :: "string option"
  ps_model :: "string option"
  ps_endpoint_url :: "string option"
  ps_has_api_key :: bool

definition provider_errors :: "(bool \<times> string) list \<Rightarrow> string list" where
  "provider_errors checks = map snd (filter fst checks)"

definition validate_openai :: "provider_settings \<Rightarrow> string list" where
  "validate_openai p = provider_errors
     [(\<not> ps_has_api_key p, ''API key is required.''), (\<not> truthy (ps_model p), ''Model is required.'')]"

definition validate_anthropic :: "provider_settings \<Rightarrow> string list" where
  "validate_anthropic p = provider_errors
     [(\<not> ps_has_api_key p, ''API key is required.''), (\<not> truthy (ps_model p), ''Model is required.'')]"

definition validate_custom :: "provider_settings \<Rightarrow> string list" where
  "validate_custom p = provider_errors
     [(\<not> truthy (ps_endpoint_url p), ''Endpoint URL is required.''), (\<not> ps_has_api_key p, ''API key is required.''),
      (\<not> truthy (ps_model p), ''Model is required.'')]"

definition validate_ollama :: "provider_settings \<Rightarrow> string list" where
  "validate_ollama p = provider_errors
     [(\<not> truthy (ps_model p), ''Model is required.''), (\<not> truthy (ps_endpoint_url p), ''Endpoint URL is required.'')]"

definition provider_adapters :: "(string \<times> (provider_settings \<Rightarrow> string list)) list" where
  "provider_adapters = [(''anthropic'', validate_anthropic), (''openai'', validate_openai), (''ollama'', validate_ollama),
     (''custom'', validate_custom)]"

definition get_adapter :: "string option \<Rightarrow> (provider_settings \<Rightarrow> string list) option" where
  "get_adapter providerId = (if truthy providerId then map_of provider_adapters (the providerId) else None)"

definition validate_provider :: "provider_settings \<Rightarrow> string list" where
  "validate_provider p =
     (case get_adapter (ps_provider p) of
        None \<Rightarrow> if truthy (ps_provider p) then [''Unknown provider.''] else [''Provider is required.'']
      | Some validate \<Rightarrow> validate p)"

subsection \<open>The included model (ai/platform/platform-ai-config.service.ts)\<close>

text \<open>\<open>ev_hostname\<close> is \<open>new URL(text).hostname\<close>, nothing where the constructor throws.\<close>

record model_env =
  ev_single_tenant :: bool
  ev_uuid :: "nat \<Rightarrow> string"
  ev_hostname :: "string \<Rightarrow> string option"
  ev_cipher :: cipher

record identity =
  id_name :: string
  id_location :: string
  id_key :: string

definition builtinProviderKey :: "string \<Rightarrow> string \<Rightarrow> string \<Rightarrow> string \<Rightarrow> string" where
  "builtinProviderKey provider endpointHost name location =
     provider @ ''|'' @ endpointHost @ ''|'' @ js_trim name @ ''|'' @ location"

definition endpointHostOf :: "model_env \<Rightarrow> string option \<Rightarrow> string" where
  "endpointHostOf env endpointUrl =
     (let raw = (case endpointUrl of None \<Rightarrow> [] | Some u \<Rightarrow> js_trim u) in
      if raw = [] then [] else case ev_hostname env raw of Some h \<Rightarrow> js_lower h | None \<Rightarrow> js_lower raw)"

definition is_capital :: "char \<Rightarrow> bool" where
  "is_capital c \<longleftrightarrow> 65 \<le> (of_char c :: nat) \<and> (of_char c :: nat) \<le> 90"

definition disclosure_location_ok :: "string \<Rightarrow> bool" where
  "disclosure_location_ok location \<longleftrightarrow> length location = 2 \<and> list_all is_capital location"

definition record_key :: "model_env \<Rightarrow> platform_ai_config \<Rightarrow> string \<Rightarrow> string \<Rightarrow> string" where
  "record_key env r name location = builtinProviderKey (pc_provider r) (endpointHostOf env (pc_endpoint_url r)) name location"

definition disclosureIdentity :: "model_env \<Rightarrow> platform_ai_config \<Rightarrow> identity option" where
  "disclosureIdentity env r =
     (let name = (case pc_disclosure_name r of None \<Rightarrow> [] | Some n \<Rightarrow> js_trim n); location = with_default [] (pc_disclosure_location r) in
      if name = [] \<or> \<not> disclosure_location_ok location then None
      else Some \<lparr> id_name = name, id_location = location, id_key = record_key env r name location \<rparr>)"

text \<open>What the audit trail keeps: the views of the changed row.\<close>

record platform_view =
  pv_id :: string
  pv_provider :: string
  pv_model :: string
  pv_endpoint_url :: "string option"
  pv_rate_limit_tenant_per_minute :: int
  pv_rate_limit_user_per_hour :: int
  pv_updated_at :: int
  pv_updated_by :: "string option"
  pv_has_api_key :: bool
  pv_disclosure_name :: "string option"
  pv_disclosure_location :: "string option"
  pv_disclosure_key :: "string option"

record builtin_view =
  bv_in_use :: bool
  bv_used_by_assistant :: bool
  bv_name :: "string option"
  bv_location :: "string option"
  bv_key :: "string option"
  bv_accepted :: bool
  bv_accepted_at :: "int option"
  bv_accepted_by_name :: "string option"

record settings_view =
  sv_settings :: ai_settings
  sv_provider_source :: string
  sv_has_glpi_user_token :: bool
  sv_has_glpi_app_token :: bool
  sv_has_llm_api_key :: bool
  sv_provider_secret_writable :: bool
  sv_provider_validation_errors :: "string list"
  sv_chat_ready :: bool
  sv_builtin_provider :: builtin_view

datatype audit_views =
    PlatformViews "platform_view option" platform_view
  | LimitViews int int
  | SettingsViews "settings_view option" settings_view

record audit_entry =
  au_table :: string
  au_recordId :: "string option"
  au_action :: string
  au_views :: audit_views
  au_userId :: "string option"
  au_sourceRef :: "string option"

definition CACHE_TTL_MS :: int where "CACHE_TTL_MS = 60000"

record model_db =
  mdb_configs :: "ai_model_config list"
  mdb_settings :: "ai_settings list"
  mdb_agents :: "ai_agent_definition list"
  mdb_platform :: "platform_ai_config option"
  mdb_cache :: "(int \<times> platform_ai_config option) option"
  mdb_planLimits :: "(string \<times> int) list"
  mdb_userNames :: "(string \<times> string \<times> string option \<times> string option) list"
  mdb_audit :: "audit_entry list"
  mdb_minted :: nat

type_synonym 'a mop = "(model_db, 'a) act"

definition loadRecord :: "int \<Rightarrow> bool \<Rightarrow> platform_ai_config option mop" where
  "loadRecord now force = (\<lambda>s.
     case mdb_cache s of
       Some (expiresAt, record) \<Rightarrow>
         if \<not> force \<and> expiresAt > now then (s, Inr record)
         else (s\<lparr>mdb_cache := Some (now + CACHE_TTL_MS, mdb_platform s)\<rparr>, Inr (mdb_platform s))
     | None \<Rightarrow> (s\<lparr>mdb_cache := Some (now + CACHE_TTL_MS, mdb_platform s)\<rparr>, Inr (mdb_platform s)))"

definition validateRecord :: "platform_ai_config \<Rightarrow> string list" where
  "validateRecord r = validate_provider \<lparr> ps_provider = Some (pc_provider r), ps_model = Some (pc_model r),
     ps_endpoint_url = pc_endpoint_url r, ps_has_api_key = (pc_api_key_encrypted r \<noteq> []) \<rparr>"

record snapshot =
  sn_identity :: "identity option"
  sn_provider :: string
  sn_model :: string
  sn_endpointUrl :: "string option"
  sn_apiKey :: "string option"
  sn_hasApiKey :: bool
  sn_rateLimits :: "int \<times> int"

definition opened :: "model_env \<Rightarrow> bool \<Rightarrow> string option \<Rightarrow> ai_error + string option" where
  "opened env withSecrets payload =
     (if withSecrets \<and> truthy payload then rbind (decrypt (ev_cipher env) (the payload)) (\<lambda>k. Inr (Some k)) else Inr None)"

definition lift :: "ai_error + 'a \<Rightarrow> ('s, 'a) act" where
  "lift r = (\<lambda>s. (s, r))"

definition getBuiltinRuntime :: "model_env \<Rightarrow> int \<Rightarrow> bool \<Rightarrow> snapshot option mop" where
  "getBuiltinRuntime env now withSecrets =
     obind (loadRecord now False) (\<lambda>record.
       case record of
         None \<Rightarrow> oret None
       | Some r \<Rightarrow>
           if validateRecord r \<noteq> [] then oret None
           else obind (lift (opened env withSecrets (Some (pc_api_key_encrypted r)))) (\<lambda>apiKey.
             oret (Some \<lparr> sn_identity = disclosureIdentity env r, sn_provider = pc_provider r, sn_model = pc_model r,
               sn_endpointUrl = pc_endpoint_url r, sn_apiKey = apiKey, sn_hasApiKey = (pc_api_key_encrypted r \<noteq> []),
               sn_rateLimits = (pc_rate_limit_tenant_per_minute r, pc_rate_limit_user_per_hour r) \<rparr>)))"

subsection \<open>Changing the included model\<close>

definition toPlatformView :: "model_env \<Rightarrow> platform_ai_config \<Rightarrow> platform_view" where
  "toPlatformView env r =
     \<lparr> pv_id = pc_id r, pv_provider = pc_provider r, pv_model = pc_model r, pv_endpoint_url = pc_endpoint_url r,
       pv_rate_limit_tenant_per_minute = pc_rate_limit_tenant_per_minute r,
       pv_rate_limit_user_per_hour = pc_rate_limit_user_per_hour r, pv_updated_at = pc_updated_at r,
       pv_updated_by = pc_updated_by r, pv_has_api_key = (pc_api_key_encrypted r \<noteq> []),
       pv_disclosure_name = pc_disclosure_name r, pv_disclosure_location = pc_disclosure_location r,
       pv_disclosure_key = map_option id_key (disclosureIdentity env r) \<rparr>"

definition getConfig :: "model_env \<Rightarrow> int \<Rightarrow> platform_view mop" where
  "getConfig env now =
     obind (loadRecord now False) (\<lambda>record.
       case record of
         None \<Rightarrow> othrow (NotFound ''Built-in AI provider is not configured.'')
       | Some r \<Rightarrow> oret (toPlatformView env r))"

definition getRuntimeConfig :: "model_env \<Rightarrow> int \<Rightarrow> (platform_view \<times> string) mop" where
  "getRuntimeConfig env now =
     obind (loadRecord now False) (\<lambda>record.
       case record of
         None \<Rightarrow> othrow (NotFound ''Built-in AI provider is not configured.'')
       | Some r \<Rightarrow>
           if validateRecord r \<noteq> []
           then othrow (Coded ''BUILTIN_PROVIDER_NOT_READY'' ''Built-in AI provider is not fully configured.'')
           else obind (lift (decrypt (ev_cipher env) (pc_api_key_encrypted r))) (\<lambda>apiKey. oret (toPlatformView env r, apiKey)))"

definition normalizeNullableString :: "string option \<Rightarrow> string option" where
  "normalizeNullableString value =
     (case value of None \<Rightarrow> None | Some t \<Rightarrow> if js_trim t = [] then None else Some (js_trim t))"

definition DISCLOSURE_NAME_MAX_LENGTH :: nat where "DISCLOSURE_NAME_MAX_LENGTH = 80"

definition normalizeDisclosureName :: "string option \<Rightarrow> string option \<Rightarrow> ai_error + string option" where
  "normalizeDisclosureName value existing =
     (case value of
        None \<Rightarrow> Inr existing
      | Some t \<Rightarrow>
          let name = js_trim t in
          if length name < 1 \<or> length name > DISCLOSURE_NAME_MAX_LENGTH
          then Inl (BadRequest ''disclosure_name must be 1 to 80 characters.'') else Inr (Some name))"

definition normalizeDisclosureLocation :: "string option \<Rightarrow> string option \<Rightarrow> ai_error + string option" where
  "normalizeDisclosureLocation value existing =
     (case value of
        None \<Rightarrow> Inr existing
      | Some t \<Rightarrow>
          let location = js_trim t in
          if \<not> disclosure_location_ok location
          then Inl (BadRequest ''disclosure_location must be a two-letter region code in upper case, such as US or EU.'')
          else Inr (Some location))"

record platform_input =
  up_provider :: "string option"
  up_model :: "string option"
  up_api_key :: "string option"
  up_endpoint_url :: "string option"
  up_rate_limit_tenant_per_minute :: "int option"
  up_rate_limit_user_per_hour :: "int option"
  up_disclosure_name :: "string option"
  up_disclosure_location :: "string option"

definition mint_model :: "nat mop" where
  "mint_model = (\<lambda>s. (s\<lparr>mdb_minted := Suc (mdb_minted s)\<rparr>, Inr (mdb_minted s)))"

definition encrypted :: "model_env \<Rightarrow> string option \<Rightarrow> string option \<Rightarrow> string option mop" where
  "encrypted env raw otherwise =
     (case raw of
        Some k \<Rightarrow> obind mint_model (\<lambda>n. obind (lift (encrypt (ev_cipher env) n k)) (\<lambda>e. oret (Some e)))
      | None \<Rightarrow> oret otherwise)"

definition technicalProviderChanged :: "model_env \<Rightarrow> platform_ai_config option \<Rightarrow> string option \<Rightarrow> string option \<Rightarrow> bool" where
  "technicalProviderChanged env existing provider endpointUrl \<longleftrightarrow>
     (case existing of
        None \<Rightarrow> False
      | Some e \<Rightarrow> provider \<noteq> Some (pc_provider e) \<or> endpointHostOf env endpointUrl \<noteq> endpointHostOf env (pc_endpoint_url e))"

definition CONFIRM_DISCLOSURE :: ai_error where
  "CONFIRM_DISCLOSURE = BadRequest (''The provider or its endpoint changed: enter or confirm the provider name and the processing ''
     @ ''location shown to customers in the same save.'')"

text \<open>The upsert of the one platform row.\<close>

definition upsert_platform :: "model_env \<Rightarrow> platform_ai_config \<Rightarrow> string mop" where
  "upsert_platform env row = (\<lambda>s.
     case mdb_platform s of
       Some old \<Rightarrow> (s\<lparr>mdb_platform := Some (row\<lparr>pc_id := pc_id old\<rparr>)\<rparr>, Inr (pc_id old))
     | None \<Rightarrow> (s\<lparr>mdb_platform := Some (row\<lparr>pc_id := ev_uuid env (mdb_minted s)\<rparr>), mdb_minted := Suc (mdb_minted s)\<rparr>,
               Inr (ev_uuid env (mdb_minted s))))"

definition clearCache :: "unit mop" where
  "clearCache = (\<lambda>s. (s\<lparr>mdb_cache := None\<rparr>, Inr ()))"

definition log_audit :: "audit_entry \<Rightarrow> unit mop" where
  "log_audit e = (\<lambda>s. (s\<lparr>mdb_audit := mdb_audit s @ [e]\<rparr>, Inr ()))"

definition save_platform ::
  "model_env \<Rightarrow> int \<Rightarrow> platform_ai_config option \<Rightarrow> platform_ai_config \<Rightarrow> string option \<Rightarrow> platform_view mop" where
  "save_platform env now existing row userId =
     obind (upsert_platform env row) (\<lambda>rowId. obind clearCache (\<lambda>_. obind (loadRecord now True) (\<lambda>saved.
       case saved of
         None \<Rightarrow> othrow (NotFound ''Built-in AI provider was not saved.'')
       | Some r \<Rightarrow>
           obind (log_audit \<lparr> au_table = ''platform_ai_config'', au_recordId = Some rowId,
                    au_action = (if existing \<noteq> None then ''update'' else ''create''),
                    au_views = PlatformViews (map_option (toPlatformView env) existing) (toPlatformView env r),
                    au_userId = userId, au_sourceRef = None \<rparr>) (\<lambda>_. oret (toPlatformView env r)))))"

definition updateConfig :: "model_env \<Rightarrow> int \<Rightarrow> platform_input \<Rightarrow> string option \<Rightarrow> platform_view mop" where
  "updateConfig env now input userId =
     obind (loadRecord now True) (\<lambda>existing.
       let provider = or_else (normalizeNullableString (up_provider input)) (map_option pc_provider existing);
           model = or_else (normalizeNullableString (up_model input)) (map_option pc_model existing);
           endpointUrl = or_else (normalizeNullableString (up_endpoint_url input)) (Option.bind existing pc_endpoint_url)
       in obind (encrypted env (normalizeNullableString (up_api_key input)) (map_option pc_api_key_encrypted existing)) (\<lambda>apiKeyEncrypted.
       let tenantLimit = with_default 30 (or_else (up_rate_limit_tenant_per_minute input) (map_option pc_rate_limit_tenant_per_minute existing));
           userLimit = with_default 60 (or_else (up_rate_limit_user_per_hour input) (map_option pc_rate_limit_user_per_hour existing))
       in obind (lift (normalizeDisclosureName (up_disclosure_name input) (Option.bind existing pc_disclosure_name))) (\<lambda>disclosureName.
       obind (lift (normalizeDisclosureLocation (up_disclosure_location input) (Option.bind existing pc_disclosure_location))) (\<lambda>disclosureLocation.
       if technicalProviderChanged env existing provider endpointUrl \<and> (up_disclosure_name input = None \<or> up_disclosure_location input = None)
       then othrow CONFIRM_DISCLOSURE
       else if \<not> truthy provider then othrow (BadRequest ''provider is required.'')
       else if \<not> truthy model then othrow (BadRequest ''model is required.'')
       else if \<not> truthy apiKeyEncrypted then othrow (BadRequest ''api_key is required.'')
       else if validate_provider \<lparr> ps_provider = provider, ps_model = model, ps_endpoint_url = endpointUrl, ps_has_api_key = True \<rparr> \<noteq> []
       then othrow (BadRequest ''Built-in AI provider is not fully configured.'')
       else save_platform env now existing
              \<lparr> pc_id = [], pc_provider = the provider, pc_model = the model, pc_api_key_encrypted = the apiKeyEncrypted,
                pc_endpoint_url = endpointUrl, pc_rate_limit_tenant_per_minute = tenantLimit,
                pc_rate_limit_user_per_hour = userLimit, pc_updated_at = now, pc_updated_by = userId,
                pc_disclosure_name = disclosureName, pc_disclosure_location = disclosureLocation \<rparr> userId))))"

definition getFreeMessageLimit :: "int mop" where
  "getFreeMessageLimit = oread (\<lambda>s. getMonthlyLimit (mdb_planLimits s))"

definition updateFreeMessageLimit :: "int \<Rightarrow> string option \<Rightarrow> int mop" where
  "updateFreeMessageLimit monthlyMessageLimit userId =
     obind getFreeMessageLimit (\<lambda>before.
     obind (\<lambda>s. (s\<lparr>mdb_planLimits := AList.update ''default'' monthlyMessageLimit (mdb_planLimits s)\<rparr>, Inr ())) (\<lambda>_.
     obind getFreeMessageLimit (\<lambda>afterwards.
     obind (log_audit \<lparr> au_table = ''platform_ai_plan_limits'', au_recordId = None, au_action = ''update'',
              au_views = LimitViews before afterwards, au_userId = userId, au_sourceRef = None \<rparr>) (\<lambda>_. oret afterwards))))"

subsection \<open>The resolution chain\<close>

datatype model_gate = Confirmed | NoGate

text \<open>\<open>ro_acceptedKey\<close> is \<open>None\<close> for undefined, \<open>Some None\<close> for null.\<close>

record resolve_options =
  ro_withSecrets :: bool
  ro_acceptedKey :: "string option option"
  ro_gate :: model_gate

record resolved_model =
  rm_source :: string
  rm_configId :: "string option"
  rm_configName :: "string option"
  rm_provider :: string
  rm_model :: string
  rm_endpointUrl :: "string option"
  rm_apiKey :: "string option"
  rm_hasApiKey :: bool
  rm_supportsVision :: bool
  rm_priceInput :: "jsnum option"
  rm_priceOutput :: "jsnum option"
  rm_timeoutMs :: "int option"
  rm_builtinRateLimits :: "(int \<times> int) option"

definition parsePriceEurPerMtok :: "string option \<Rightarrow> jsnum option" where
  "parsePriceEurPerMtok value =
     (case value of
        None \<Rightarrow> None
      | Some t \<Rightarrow> (case decimal_of_literal (NText t) of Inr d \<Rightarrow> Some (JFin (decimal_toString d)) | Inl e \<Rightarrow> None))"

definition fromConfig :: "model_env \<Rightarrow> ai_model_config \<Rightarrow> bool \<Rightarrow> ai_error + resolved_model" where
  "fromConfig env c withSecrets =
     rbind (opened env withSecrets (mo_api_key_encrypted c)) (\<lambda>apiKey.
       Inr \<lparr> rm_source = ''registry'', rm_configId = Some (mo_id c), rm_configName = Some (mo_name c), rm_provider = mo_provider c,
         rm_model = mo_model c, rm_endpointUrl = mo_endpoint_url c, rm_apiKey = apiKey, rm_hasApiKey = truthy (mo_api_key_encrypted c),
         rm_supportsVision = mo_supports_vision c, rm_priceInput = parsePriceEurPerMtok (mo_price_input c),
         rm_priceOutput = parsePriceEurPerMtok (mo_price_output c), rm_timeoutMs = mo_llm_timeout_ms c, rm_builtinRateLimits = None \<rparr>)"

definition loadActiveConfig :: "string \<Rightarrow> string \<Rightarrow> model_db \<Rightarrow> ai_model_config option" where
  "loadActiveConfig tenantId configId s =
     List.find (\<lambda>c. mo_id c = configId \<and> mo_tenant_id c = tenantId \<and> mo_status c = ''active'') (mdb_configs s)"

definition findDefault :: "string \<Rightarrow> model_db \<Rightarrow> ai_model_config option" where
  "findDefault tenantId s =
     List.find (\<lambda>c. mo_tenant_id c = tenantId \<and> mo_is_default c \<and> mo_status c = ''active'') (mdb_configs s)"

definition find_settings :: "string \<Rightarrow> model_db \<Rightarrow> ai_settings option" where
  "find_settings tenantId s = List.find (\<lambda>r. set_tenant_id r = tenantId) (mdb_settings s)"

definition loadBuiltinAcceptedKey :: "string \<Rightarrow> model_db \<Rightarrow> string option" where
  "loadBuiltinAcceptedKey tenantId s = Option.bind (find_settings tenantId s) set_builtin_accepted_key"

definition BUILTIN_NOT_ACCEPTED_MESSAGE :: string where
  "BUILTIN_NOT_ACCEPTED_MESSAGE = ''The KANAP included model needs an administrator'' @ [CHR 0x27] @ ''s confirmation in Admin > Plaid.''"

definition NOT_BUILTIN :: ai_error where
  "NOT_BUILTIN = ModelUnavailable ''builtin_not_configured'' ''Built-in AI provider is not configured.''"

definition NOT_ACCEPTED :: ai_error where
  "NOT_ACCEPTED = ModelUnavailable ''builtin_not_accepted'' BUILTIN_NOT_ACCEPTED_MESSAGE"

definition NO_MODEL :: ai_error where
  "NO_MODEL = ModelUnavailable ''no_model_available''
     ''No AI model is configured: assign a model or define a default in the AI models registry.''"

definition from_snapshot :: "snapshot \<Rightarrow> resolved_model" where
  "from_snapshot n =
     \<lparr> rm_source = ''builtin'', rm_configId = None, rm_configName = None, rm_provider = sn_provider n, rm_model = sn_model n,
       rm_endpointUrl = sn_endpointUrl n, rm_apiKey = sn_apiKey n, rm_hasApiKey = sn_hasApiKey n, rm_supportsVision = True,
       rm_priceInput = Some (JFin ''0''), rm_priceOutput = Some (JFin ''0''), rm_timeoutMs = None,
       rm_builtinRateLimits = Some (sn_rateLimits n) \<rparr>"

definition accepted_key :: "string \<Rightarrow> resolve_options \<Rightarrow> model_db \<Rightarrow> string option" where
  "accepted_key tenantId opts s = (case ro_acceptedKey opts of Some k \<Rightarrow> k | None \<Rightarrow> loadBuiltinAcceptedKey tenantId s)"

definition resolve_builtin :: "model_env \<Rightarrow> int \<Rightarrow> string \<Rightarrow> resolve_options \<Rightarrow> resolved_model mop" where
  "resolve_builtin env now tenantId opts =
     obind (getBuiltinRuntime env now (ro_withSecrets opts \<and> ro_gate opts = Confirmed)) (\<lambda>snapshot.
       case snapshot of
         None \<Rightarrow> othrow NOT_BUILTIN
       | Some n \<Rightarrow>
           if ro_gate opts = Confirmed
           then (case sn_identity n of
                   None \<Rightarrow> othrow NOT_BUILTIN
                 | Some i \<Rightarrow> obind (oread (accepted_key tenantId opts)) (\<lambda>key.
                     if key \<noteq> Some (id_key i) then othrow NOT_ACCEPTED else oret (from_snapshot n)))
           else oret (from_snapshot n))"

definition assigned :: "string \<Rightarrow> string option \<Rightarrow> model_db \<Rightarrow> ai_model_config option" where
  "assigned tenantId assignmentId s = (if truthy assignmentId then loadActiveConfig tenantId (the assignmentId) s else None)"

definition default_config :: "string \<Rightarrow> model_db \<Rightarrow> ai_model_config option" where
  "default_config tenantId s = Option.bind (findDefault tenantId s) (\<lambda>d. loadActiveConfig tenantId (mo_id d) s)"

definition resolveForAssignment :: "model_env \<Rightarrow> int \<Rightarrow> string \<Rightarrow> string option \<Rightarrow> resolve_options \<Rightarrow> resolved_model mop" where
  "resolveForAssignment env now tenantId assignmentId opts = (\<lambda>s.
     case assigned tenantId assignmentId s of
       Some c \<Rightarrow> (s, fromConfig env c (ro_withSecrets opts))
     | None \<Rightarrow>
         (case default_config tenantId s of
            Some c \<Rightarrow> (s, fromConfig env c (ro_withSecrets opts))
          | None \<Rightarrow> if \<not> ev_single_tenant env then resolve_builtin env now tenantId opts s else (s, Inl NO_MODEL)))"

datatype model_consumer = Chat | Agent string

definition loadAssignmentId :: "string \<Rightarrow> model_consumer \<Rightarrow> model_db \<Rightarrow> string option" where
  "loadAssignmentId tenantId consumer s =
     (case consumer of
        Chat \<Rightarrow> Option.bind (find_settings tenantId s) set_chat_model_config_id
      | Agent agentId \<Rightarrow>
          Option.bind (List.find (\<lambda>d. agent_id d = agentId \<and> agent_tenant_id d = tenantId) (mdb_agents s)) agent_llm_model_config_id)"

definition resolve_model :: "model_env \<Rightarrow> int \<Rightarrow> string \<Rightarrow> model_consumer \<Rightarrow> resolve_options \<Rightarrow> resolved_model mop" where
  "resolve_model env now tenantId consumer opts =
     obind (oread (loadAssignmentId tenantId consumer)) (\<lambda>assignmentId. resolveForAssignment env now tenantId assignmentId opts)"

definition tryResolve :: "model_env \<Rightarrow> int \<Rightarrow> string \<Rightarrow> model_consumer \<Rightarrow> resolve_options \<Rightarrow> resolved_model option mop" where
  "tryResolve env now tenantId consumer opts =
     otry (obind (resolve_model env now tenantId consumer opts) (\<lambda>m. oret (Some m)))
       (\<lambda>e. case e of ModelUnavailable code message \<Rightarrow> oret None | _ \<Rightarrow> othrow e)"

subsection \<open>Readiness\<close>

record readiness =
  rd_errors :: "string list"
  rd_errorCode :: "string option"
  rd_usesBuiltin :: bool
  rd_builtinIdentity :: "identity option"

definition builtin_identity :: "model_env \<Rightarrow> int \<Rightarrow> identity option mop" where
  "builtin_identity env now =
     (if ev_single_tenant env then oret None
      else obind (getBuiltinRuntime env now False) (\<lambda>n. oret (Option.bind n sn_identity)))"

definition ready_of :: "identity option \<Rightarrow> resolved_model \<Rightarrow> readiness" where
  "ready_of identity m =
     (if rm_source m = ''builtin''
      then \<lparr> rd_errors = [], rd_errorCode = None, rd_usesBuiltin = True, rd_builtinIdentity = identity \<rparr>
      else \<lparr> rd_errors = validate_provider \<lparr> ps_provider = Some (rm_provider m), ps_model = Some (rm_model m),
               ps_endpoint_url = rm_endpointUrl m, ps_has_api_key = rm_hasApiKey m \<rparr>,
             rd_errorCode = None, rd_usesBuiltin = False, rd_builtinIdentity = identity \<rparr>)"

definition model_readiness :: "model_env \<Rightarrow> int \<Rightarrow> string \<Rightarrow> string option \<Rightarrow> string option option \<Rightarrow> model_gate \<Rightarrow> readiness mop" where
  "model_readiness env now tenantId assignmentId acceptedKey g =
     obind (builtin_identity env now) (\<lambda>identity.
       otry (obind (resolveForAssignment env now tenantId assignmentId
                      \<lparr> ro_withSecrets = False, ro_acceptedKey = acceptedKey, ro_gate = g \<rparr>)
               (\<lambda>m. oret (ready_of identity m)))
         (\<lambda>e. case e of
                ModelUnavailable code message \<Rightarrow>
                  oret \<lparr> rd_errors = [message], rd_errorCode = Some code, rd_usesBuiltin = (code = ''builtin_not_accepted''),
                         rd_builtinIdentity = identity \<rparr>
              | _ \<Rightarrow> othrow e))"

definition validationErrors :: "model_env \<Rightarrow> int \<Rightarrow> string \<Rightarrow> string option \<Rightarrow> string option option \<Rightarrow> model_gate \<Rightarrow> string list mop" where
  "validationErrors env now tenantId assignmentId acceptedKey g =
     obind (model_readiness env now tenantId assignmentId acceptedKey g) (\<lambda>r. oret (rd_errors r))"

subsection \<open>Lemmas: the platform record and its cache\<close>

definition current_record :: "int \<Rightarrow> model_db \<Rightarrow> platform_ai_config option" where
  "current_record now s =
     (case mdb_cache s of Some (expiresAt, r) \<Rightarrow> if expiresAt > now then r else mdb_platform s | None \<Rightarrow> mdb_platform s)"

definition cached :: "int \<Rightarrow> model_db \<Rightarrow> model_db" where
  "cached now s = fst (loadRecord now False s)"

lemma loadRecord_read: "loadRecord now False s = (cached now s, Inr (current_record now s))"
  by (auto simp: cached_def loadRecord_def current_record_def split: option.splits prod.splits)

lemma cached_same [simp]:
  "mdb_configs (cached now s) = mdb_configs s" "mdb_settings (cached now s) = mdb_settings s"
  "mdb_agents (cached now s) = mdb_agents s" "mdb_platform (cached now s) = mdb_platform s"
  "mdb_planLimits (cached now s) = mdb_planLimits s" "mdb_userNames (cached now s) = mdb_userNames s"
  "mdb_audit (cached now s) = mdb_audit s" "mdb_minted (cached now s) = mdb_minted s"
  by (auto simp: cached_def loadRecord_def split: option.splits prod.splits)

lemma current_cached [simp]: "current_record now (cached now s) = current_record now s"
  by (auto simp: cached_def loadRecord_def current_record_def CACHE_TTL_MS_def split: option.splits prod.splits)

lemma cached_cached [simp]: "cached now (cached now s) = cached now s"
  by (auto simp: cached_def loadRecord_def CACHE_TTL_MS_def split: option.splits prod.splits)

lemma reads_cached [simp]:
  "find_settings t (cached now s) = find_settings t s" "loadActiveConfig t c (cached now s) = loadActiveConfig t c s"
  "findDefault t (cached now s) = findDefault t s" "accepted_key t opts (cached now s) = accepted_key t opts s"
  "assigned t a (cached now s) = assigned t a s" "default_config t (cached now s) = default_config t s"
  by (simp_all add: find_settings_def loadActiveConfig_def findDefault_def accepted_key_def loadBuiltinAcceptedKey_def
      assigned_def default_config_def split: option.split)

definition usable_record :: "int \<Rightarrow> model_db \<Rightarrow> platform_ai_config option" where
  "usable_record now s = (case current_record now s of Some r \<Rightarrow> if validateRecord r = [] then Some r else None | None \<Rightarrow> None)"

lemma usable_cached [simp]: "usable_record now (cached now s) = usable_record now s"
  by (simp add: usable_record_def)

definition snapshot_of :: "model_env \<Rightarrow> platform_ai_config \<Rightarrow> string option \<Rightarrow> snapshot" where
  "snapshot_of env r apiKey =
     \<lparr> sn_identity = disclosureIdentity env r, sn_provider = pc_provider r, sn_model = pc_model r, sn_endpointUrl = pc_endpoint_url r,
       sn_apiKey = apiKey, sn_hasApiKey = (pc_api_key_encrypted r \<noteq> []),
       sn_rateLimits = (pc_rate_limit_tenant_per_minute r, pc_rate_limit_user_per_hour r) \<rparr>"

lemma getBuiltinRuntime_eq:
  "getBuiltinRuntime env now withSecrets s =
     (cached now s,
      case usable_record now s of
        None \<Rightarrow> Inr None
      | Some r \<Rightarrow> rbind (opened env withSecrets (Some (pc_api_key_encrypted r))) (\<lambda>apiKey. Inr (Some (snapshot_of env r apiKey))))"
  by (auto simp: getBuiltinRuntime_def obind_apply loadRecord_read usable_record_def lift_def snapshot_of_def
      split: option.splits sum.splits)

lemma opened_False [simp]: "opened env False payload = Inr None"
  by (simp add: opened_def)

text \<open>What resolving to the included model comes down to.\<close>

lemma resolve_builtin_eq:
  "resolve_builtin env now tenantId opts s =
     (cached now s,
      case usable_record now s of
        None \<Rightarrow> Inl NOT_BUILTIN
      | Some r \<Rightarrow>
          rbind (opened env (ro_withSecrets opts \<and> ro_gate opts = Confirmed) (Some (pc_api_key_encrypted r))) (\<lambda>apiKey.
            if ro_gate opts = Confirmed
            then (case disclosureIdentity env r of
                    None \<Rightarrow> Inl NOT_BUILTIN
                  | Some i \<Rightarrow> if accepted_key tenantId opts s \<noteq> Some (id_key i) then Inl NOT_ACCEPTED
                              else Inr (from_snapshot (snapshot_of env r apiKey)))
            else Inr (from_snapshot (snapshot_of env r apiKey))))"
proof (cases "usable_record now s")
  case None
  then show ?thesis by (simp add: resolve_builtin_def obind_apply getBuiltinRuntime_eq)
next
  case (Some r)
  show ?thesis
  proof (cases "opened env (ro_withSecrets opts \<and> ro_gate opts = Confirmed) (Some (pc_api_key_encrypted r))")
    case (Inl e)
    with Some show ?thesis by (simp add: resolve_builtin_def obind_apply getBuiltinRuntime_eq)
  next
    case (Inr apiKey)
    have "sn_identity (snapshot_of env r apiKey) = disclosureIdentity env r" by (simp add: snapshot_of_def)
    with Some Inr show ?thesis
      by (simp add: resolve_builtin_def obind_apply getBuiltinRuntime_eq split: option.split)
  qed
qed

lemma from_snapshot_simps [simp]:
  "rm_source (from_snapshot (snapshot_of env r k)) = ''builtin''" "rm_provider (from_snapshot (snapshot_of env r k)) = pc_provider r"
  "rm_endpointUrl (from_snapshot (snapshot_of env r k)) = pc_endpoint_url r" "rm_apiKey (from_snapshot (snapshot_of env r k)) = k"
  by (simp_all add: from_snapshot_def snapshot_of_def)

lemma fromConfig_source: "fromConfig env c withSecrets = Inr m \<Longrightarrow> rm_source m = ''registry''"
  by (auto simp: fromConfig_def result_simps)

text \<open>A resolution that ends at the included model ran on a valid platform record, after the registry had nothing.\<close>

lemma builtin_resolved:
  assumes "resolveForAssignment env now tenantId assignmentId opts s = (s', Inr m)" and "rm_source m = ''builtin''"
  obtains r apiKey where "usable_record now s = Some r" "m = from_snapshot (snapshot_of env r apiKey)" "\<not> ev_single_tenant env"
    "assigned tenantId assignmentId s = None" "default_config tenantId s = None"
    "opened env (ro_withSecrets opts \<and> ro_gate opts = Confirmed) (Some (pc_api_key_encrypted r)) = Inr apiKey"
    "ro_gate opts = Confirmed \<Longrightarrow> \<exists>i. disclosureIdentity env r = Some i \<and> accepted_key tenantId opts s = Some (id_key i)"
proof -
  have none: "assigned tenantId assignmentId s = None" "default_config tenantId s = None" "\<not> ev_single_tenant env"
    using assms fromConfig_source by (auto simp: resolveForAssignment_def split: option.splits if_splits)
  with assms(1) have b: "snd (resolve_builtin env now tenantId opts s) = Inr m" by (simp add: resolveForAssignment_def)
  then obtain r where r: "usable_record now s = Some r" by (auto simp: resolve_builtin_eq split: option.splits)
  then obtain apiKey where k: "opened env (ro_withSecrets opts \<and> ro_gate opts = Confirmed) (Some (pc_api_key_encrypted r)) = Inr apiKey"
    using b by (auto simp: resolve_builtin_eq result_simps)
  show thesis
  proof (rule that [OF r _ none(3,1,2) k])
    show "m = from_snapshot (snapshot_of env r apiKey)"
      using b r k by (auto simp: resolve_builtin_eq split: if_splits option.splits)
    show "\<exists>i. disclosureIdentity env r = Some i \<and> accepted_key tenantId opts s = Some (id_key i)" if "ro_gate opts = Confirmed"
      using b r k that by (auto simp: resolve_builtin_eq split: if_splits option.splits)
  qed
qed


text \<open>A resolution from the registry, in the order of the chain.\<close>

lemma registry_resolved:
  "assigned tenantId assignmentId s = Some c \<Longrightarrow> resolveForAssignment env now tenantId assignmentId opts s = (s, fromConfig env c (ro_withSecrets opts))"
  "assigned tenantId assignmentId s = None \<Longrightarrow> default_config tenantId s = Some c \<Longrightarrow>
     resolveForAssignment env now tenantId assignmentId opts s = (s, fromConfig env c (ro_withSecrets opts))"
  by (simp_all add: resolveForAssignment_def)

subsection \<open>The identity a workspace confirms\<close>

lemma builtinProviderKey_inj:
  assumes "CHR ''|'' \<notin> set p" "CHR ''|'' \<notin> set p'" "CHR ''|'' \<notin> set h" "CHR ''|'' \<notin> set h'"
    and "length l = length l'"
  shows "builtinProviderKey p h n l = builtinProviderKey p' h' n' l' \<longleftrightarrow> p = p' \<and> h = h' \<and> js_trim n = js_trim n' \<and> l = l'"
proof -
  have "js_trim n @ CHR ''|'' # l = js_trim n' @ CHR ''|'' # l' \<longleftrightarrow> js_trim n = js_trim n' \<and> l = l'"
    using assms(5) by auto
  moreover have "a @ CHR ''|'' # x = b @ CHR ''|'' # y \<longleftrightarrow> a = b \<and> x = y" if "CHR ''|'' \<notin> set a" "CHR ''|'' \<notin> set b" for a b x y
    using split_at_bar [OF that] by blast
  ultimately show ?thesis using assms(1-4) by (simp add: builtinProviderKey_def)
qed

lemma provider_known: "validate_provider p = [] \<Longrightarrow> ps_provider p \<in> Some ` {''anthropic'', ''openai'', ''ollama'', ''custom''}"
  by (auto simp: validate_provider_def get_adapter_def provider_adapters_def truthy_def split: option.splits if_splits)

lemma provider_no_bar: "validateRecord r = [] \<Longrightarrow> CHR ''|'' \<notin> set (pc_provider r)"
  using provider_known [of "\<lparr> ps_provider = Some (pc_provider r), ps_model = Some (pc_model r),
     ps_endpoint_url = pc_endpoint_url r, ps_has_api_key = (pc_api_key_encrypted r \<noteq> []) \<rparr>"]
  by (auto simp: validateRecord_def)

lemma disclosureIdentity_Some:
  assumes "disclosureIdentity env r = Some i"
  shows "id_key i = builtinProviderKey (pc_provider r) (endpointHostOf env (pc_endpoint_url r)) (id_name i) (id_location i)"
    and "length (id_location i) = 2" and "js_trim (id_name i) = id_name i"
proof -
  show "id_key i = builtinProviderKey (pc_provider r) (endpointHostOf env (pc_endpoint_url r)) (id_name i) (id_location i)"
    "length (id_location i) = 2" "js_trim (id_name i) = id_name i"
    using assms by (auto simp: disclosureIdentity_def Let_def record_key_def disclosure_location_ok_def builtinProviderKey_def split: if_splits option.splits)
qed


text \<open>Two platform records a workspace cannot tell apart: same provider, same endpoint host, same shown name and location.\<close>

definition same_included :: "model_env \<Rightarrow> platform_ai_config \<Rightarrow> platform_ai_config \<Rightarrow> bool" where
  "same_included env a b \<longleftrightarrow> pc_provider a = pc_provider b
     \<and> endpointHostOf env (pc_endpoint_url a) = endpointHostOf env (pc_endpoint_url b)
     \<and> map_option js_trim (pc_disclosure_name a) = map_option js_trim (pc_disclosure_name b)
     \<and> pc_disclosure_location a = pc_disclosure_location b"

lemma disclosureIdentity_parts:
  "disclosureIdentity env r = Some i \<Longrightarrow> map_option js_trim (pc_disclosure_name r) = Some (id_name i) \<and> pc_disclosure_location r = Some (id_location i)"
  by (auto simp: disclosureIdentity_def Let_def with_default_def disclosure_location_ok_def split: if_splits option.splits)

lemma same_key_same_included:
  assumes ids: "disclosureIdentity env a = Some i" "disclosureIdentity env b = Some j" and key: "id_key i = id_key j"
    and valid: "validateRecord a = []" "validateRecord b = []"
    and hosts: "\<forall>u. CHR ''|'' \<notin> set (endpointHostOf env u)"
  shows "same_included env a b"
proof -
  note a = disclosureIdentity_Some [OF ids(1)] and b = disclosureIdentity_Some [OF ids(2)]
  have "pc_provider a = pc_provider b \<and> endpointHostOf env (pc_endpoint_url a) = endpointHostOf env (pc_endpoint_url b)
      \<and> js_trim (id_name i) = js_trim (id_name j) \<and> id_location i = id_location j"
    using key a(1,2) b(1,2) valid hosts by (subst builtinProviderKey_inj [symmetric]) (simp_all add: provider_no_bar)
  then show ?thesis using disclosureIdentity_parts [OF ids(1)] disclosureIdentity_parts [OF ids(2)] a(3) b(3)
    by (auto simp: same_included_def)
qed


subsection \<open>Changing the included model\<close>

lemma encrypted_keeps:
  assumes "encrypted env raw otherwise s = (s', Inr k)"
  shows "mdb_platform s' = mdb_platform s" "mdb_configs s' = mdb_configs s" "mdb_settings s' = mdb_settings s" "mdb_agents s' = mdb_agents s"
  using assms by (auto simp: encrypted_def mint_model_def lift_def obind_apply split: option.splits sum.splits prod.splits)

lemma forced_load: "loadRecord now True s = (s\<lparr>mdb_cache := Some (now + CACHE_TTL_MS, mdb_platform s)\<rparr>, Inr (mdb_platform s))"
  by (simp add: loadRecord_def split: option.split)

lemma save_platform_saved:
  assumes "save_platform env now existing row userId s = (s', Inr v)"
  obtains r where "mdb_platform s' = Some r" "\<And>t. current_record t s' = Some r" "r = row\<lparr>pc_id := pc_id r\<rparr>"
    "mdb_configs s' = mdb_configs s" "mdb_settings s' = mdb_settings s" "mdb_agents s' = mdb_agents s"
  using assms that
  by (cases "mdb_platform s")
    (auto simp: save_platform_def obind_apply upsert_platform_def clearCache_def forced_load log_audit_def current_record_def)

lemma validateRecord_row:
  assumes "truthy p" "truthy m" "truthy k"
    and "validate_provider \<lparr> ps_provider = p, ps_model = m, ps_endpoint_url = u, ps_has_api_key = True \<rparr> = []"
    and "pc_provider r = the p" "pc_model r = the m" "pc_api_key_encrypted r = the k" "pc_endpoint_url r = u"
  shows "validateRecord r = []"
  using assms by (cases p; cases m; cases k) (simp_all add: validateRecord_def truthy_def)

lemma normalized_disclosure:
  assumes "normalizeDisclosureName (Some n) old = Inr name" "normalizeDisclosureLocation (Some l) old' = Inr location"
    and "pc_disclosure_name r = name" "pc_disclosure_location r = location"
  shows "disclosureIdentity env r \<noteq> None"
proof -
  have "pc_disclosure_name r = Some (js_trim n)" "js_trim n \<noteq> []"
    using assms(1,3) by (auto simp: normalizeDisclosureName_def Let_def split: if_splits)
  moreover have "pc_disclosure_location r = Some (js_trim l)" "disclosure_location_ok (js_trim l)"
    using assms(2,4) by (auto simp: normalizeDisclosureLocation_def Let_def split: if_splits)
  ultimately show ?thesis by (simp add: disclosureIdentity_def with_default_def Let_def)
qed

lemma updateConfig_saved:
  assumes "updateConfig env now input userId s = (s', Inr v)"
  obtains r where "mdb_platform s' = Some r" "\<And>t. current_record t s' = Some r" "validateRecord r = []"
    "mdb_configs s' = mdb_configs s" "mdb_settings s' = mdb_settings s" "mdb_agents s' = mdb_agents s"
    "technicalProviderChanged env (mdb_platform s) (Some (pc_provider r)) (pc_endpoint_url r) \<Longrightarrow> disclosureIdentity env r \<noteq> None"
proof -
  define s0 where "s0 = s\<lparr>mdb_cache := Some (now + CACHE_TTL_MS, mdb_platform s)\<rparr>"
  define existing where "existing = mdb_platform s"
  define provider where "provider = or_else (normalizeNullableString (up_provider input)) (map_option pc_provider existing)"
  define model where "model = or_else (normalizeNullableString (up_model input)) (map_option pc_model existing)"
  define endpointUrl where "endpointUrl = or_else (normalizeNullableString (up_endpoint_url input)) (Option.bind existing pc_endpoint_url)"
  obtain s1 k where k: "encrypted env (normalizeNullableString (up_api_key input)) (map_option pc_api_key_encrypted existing) s0 = (s1, Inr k)"
    using assms by (auto simp: updateConfig_def obind_apply forced_load s0_def existing_def Let_def split: prod.splits sum.splits)
  obtain name where name: "normalizeDisclosureName (up_disclosure_name input) (Option.bind existing pc_disclosure_name) = Inr name"
    using assms k by (auto simp: updateConfig_def obind_apply forced_load s0_def existing_def Let_def lift_def split: prod.splits sum.splits)
  obtain location where location: "normalizeDisclosureLocation (up_disclosure_location input) (Option.bind existing pc_disclosure_location) = Inr location"
    using assms k name by (auto simp: updateConfig_def obind_apply forced_load s0_def existing_def Let_def lift_def split: prod.splits sum.splits)
  obtain row where row: "save_platform env now existing row userId s1 = (s', Inr v)"
    and asked: "\<not> (technicalProviderChanged env existing provider endpointUrl \<and> (up_disclosure_name input = None \<or> up_disclosure_location input = None))"
    and given: "truthy provider" "truthy model" "truthy k"
      "validate_provider \<lparr> ps_provider = provider, ps_model = model, ps_endpoint_url = endpointUrl, ps_has_api_key = True \<rparr> = []"
    and parts: "pc_provider row = the provider" "pc_model row = the model" "pc_api_key_encrypted row = the k" "pc_endpoint_url row = endpointUrl"
      "pc_disclosure_name row = name" "pc_disclosure_location row = location"
    using assms k name location
    by (auto simp: updateConfig_def obind_apply forced_load s0_def existing_def Let_def lift_def provider_def model_def endpointUrl_def
        split: if_splits)
  note keep = encrypted_keeps [OF k]
  from row obtain r where r: "mdb_platform s' = Some r" "\<And>t. current_record t s' = Some r" "r = row\<lparr>pc_id := pc_id r\<rparr>"
    "mdb_configs s' = mdb_configs s1" "mdb_settings s' = mdb_settings s1" "mdb_agents s' = mdb_agents s1"
    by (rule save_platform_saved) blast
  have same: "pc_provider r = the provider" "pc_model r = the model" "pc_api_key_encrypted r = the k" "pc_endpoint_url r = endpointUrl"
    "pc_disclosure_name r = name" "pc_disclosure_location r = location"
    using parts by (subst r(3), simp)+
  have "disclosureIdentity env r \<noteq> None"
    if t: "technicalProviderChanged env (mdb_platform s) (Some (pc_provider r)) (pc_endpoint_url r)"
  proof -
    have "Some (pc_provider r) = provider" using given(1) same(1) by (cases provider) (simp_all add: truthy_def)
    with t asked same(4) obtain n l where "up_disclosure_name input = Some n" "up_disclosure_location input = Some l"
      by (auto simp: existing_def)
    with name location show ?thesis by (intro normalized_disclosure [OF _ _ same(5,6)]) simp_all
  qed
  then show thesis using that [OF r(1,2) validateRecord_row [OF given same(1-4)]] r(4-6) keep by (simp add: s0_def)
qed

subsection \<open>What a workspace confirmed is what its data reaches\<close>

lemma resolve_model_builtin:
  assumes "resolve_model env now tenantId consumer opts s = (s', Inr m)" and "rm_source m = ''builtin''"
  obtains r apiKey where "usable_record now s = Some r" "m = from_snapshot (snapshot_of env r apiKey)"
    "opened env (ro_withSecrets opts \<and> ro_gate opts = Confirmed) (Some (pc_api_key_encrypted r)) = Inr apiKey"
    "ro_gate opts = Confirmed \<Longrightarrow> \<exists>i. disclosureIdentity env r = Some i \<and> accepted_key tenantId opts s = Some (id_key i)"
  using assms by (auto simp: resolve_model_def elim!: builtin_resolved)

lemma usable_valid: "usable_record now s = Some r \<Longrightarrow> validateRecord r = []"
  by (auto simp: usable_record_def split: option.splits if_splits)

lemma confirmed_is_used:
  assumes identity: "disclosureIdentity env confirmed = Some i" and valid: "validateRecord confirmed = []"
    and hosts: "\<forall>u. CHR ''|'' \<notin> set (endpointHostOf env u)"
    and stored: "loadBuiltinAcceptedKey tenantId s = Some (id_key i)" and opts: "ro_gate opts = Confirmed" "ro_acceptedKey opts = None"
    and run: "resolve_model env now tenantId consumer opts s = (s', Inr m)" "rm_source m = ''builtin''"
  shows "\<exists>r. same_included env confirmed r \<and> rm_provider m = pc_provider r \<and> rm_endpointUrl m = pc_endpoint_url r"
proof -
  from run obtain r apiKey where r: "usable_record now s = Some r" "m = from_snapshot (snapshot_of env r apiKey)"
    and c: "\<exists>j. disclosureIdentity env r = Some j \<and> accepted_key tenantId opts s = Some (id_key j)"
    by (rule resolve_model_builtin) (use opts in blast)
  from c obtain j where j: "disclosureIdentity env r = Some j" "accepted_key tenantId opts s = Some (id_key j)" by blast
  with stored opts have "id_key i = id_key j" by (simp add: accepted_key_def)
  with same_key_same_included [OF identity j(1) _ valid usable_valid [OF r(1)] hosts] r(2) show ?thesis by auto
qed


definition sample_env :: model_env where
  "sample_env = \<lparr> ev_single_tenant = False, ev_uuid = (\<lambda>n. ''id'' @ show_nat n), ev_hostname = (\<lambda>u. Some ''api.example''),
     ev_cipher = sample_cipher \<rparr>"

definition sample_record :: platform_ai_config where
  "sample_record = \<lparr> pc_id = ''p'', pc_provider = ''openai'', pc_model = ''m1'', pc_api_key_encrypted = ''v1:gjhg:he:gc'',
     pc_endpoint_url = Some ''https://api.example/v1'', pc_rate_limit_tenant_per_minute = 30, pc_rate_limit_user_per_hour = 60,
     pc_updated_at = 0, pc_updated_by = None, pc_disclosure_name = Some ''Example'', pc_disclosure_location = Some ''EU'' \<rparr>"

definition sample_key :: string where "sample_key = ''openai|api.example|Example|EU''"

definition sample_settings :: ai_settings where
  "sample_settings = \<lparr> set_id = ''s1'', set_tenant_id = ''t1'', set_chat_enabled = True, set_mcp_enabled = True, set_llm_provider = None,
     set_llm_api_key_encrypted = None, set_llm_endpoint_url = None, set_llm_model = None, set_provider_source = ''builtin'',
     set_chat_model_config_id = None, set_mcp_key_max_lifetime_days = None, set_conversation_retention_days = None,
     set_web_search_enabled = False, set_llm_supports_vision = True, set_glpi_enabled = False, set_glpi_url = None,
     set_glpi_user_token_encrypted = None, set_glpi_app_token_encrypted = None, set_builtin_accepted_key = Some sample_key,
     set_builtin_accepted_at = Some 0, set_builtin_accepted_by = None, set_created_at = 0, set_updated_at = 0 \<rparr>"

definition sample_models :: model_db where
  "sample_models = \<lparr> mdb_configs = [], mdb_settings = [sample_settings], mdb_agents = [], mdb_platform = Some sample_record,
     mdb_cache = None, mdb_planLimits = [], mdb_userNames = [], mdb_audit = [], mdb_minted = 0 \<rparr>"

definition chat_options :: resolve_options where
  "chat_options = \<lparr> ro_withSecrets = True, ro_acceptedKey = None, ro_gate = Confirmed \<rparr>"

lemma sample_identity: "disclosureIdentity sample_env sample_record = Some \<lparr> id_name = ''Example'', id_location = ''EU'', id_key = sample_key \<rparr>"
  by code_simp

lemma sample_record_valid: "validateRecord sample_record = []"
  by code_simp

lemma sample_hosts: "\<forall>u. CHR ''|'' \<notin> set (endpointHostOf sample_env u)"
proof
  fix u
  have "CHR ''|'' \<notin> set (js_lower ''api.example'')" by code_simp
  then show "CHR ''|'' \<notin> set (endpointHostOf sample_env u)" by (simp add: endpointHostOf_def sample_env_def Let_def)
qed

lemma sample_accepted: "loadBuiltinAcceptedKey ''t1'' sample_models = Some sample_key"
  by code_simp

definition sample_resolved :: "model_db \<times> (ai_error + resolved_model)" where
  "sample_resolved = resolve_model sample_env 5 ''t1'' Chat chat_options sample_models"

lemma sample_resolves: "case sample_resolved of (s', Inr m) \<Rightarrow> rm_source m = ''builtin'' \<and> rm_apiKey m = Some ''b'' | _ \<Rightarrow> False"
  by code_simp


text \<open>The key of the included model leaves the platform record only for a resolution that asks for secrets, goes through
  the confirmation and finds the identity of that very record confirmed.\<close>

theorem included_key_guarded:
  assumes "resolve_model env now tenantId consumer opts s = (s', Inr m)" and "rm_source m = ''builtin''" and "rm_apiKey m \<noteq> None"
  shows "\<exists>r i. usable_record now s = Some r \<and> disclosureIdentity env r = Some i \<and> accepted_key tenantId opts s = Some (id_key i)
     \<and> ro_gate opts = Confirmed \<and> ro_withSecrets opts"
proof -
  from assms(1,2) obtain r apiKey where r: "usable_record now s = Some r" "m = from_snapshot (snapshot_of env r apiKey)"
    and k: "opened env (ro_withSecrets opts \<and> ro_gate opts = Confirmed) (Some (pc_api_key_encrypted r)) = Inr apiKey"
    and c: "ro_gate opts = Confirmed \<Longrightarrow> \<exists>i. disclosureIdentity env r = Some i \<and> accepted_key tenantId opts s = Some (id_key i)"
    by (rule resolve_model_builtin) blast
  from k r(2) assms(3) have "ro_withSecrets opts" "ro_gate opts = Confirmed" by (auto simp: opened_def split: if_splits)
  with c r(1) show ?thesis by blast
qed

theorem included_key_guarded_witness:
  "\<exists>s' m r i. resolve_model sample_env 5 ''t1'' Chat chat_options sample_models = (s', Inr m)
     \<and> usable_record 5 sample_models = Some r \<and> disclosureIdentity sample_env r = Some i
     \<and> accepted_key ''t1'' chat_options sample_models = Some (id_key i)"
proof -
  obtain s' m where m: "resolve_model sample_env 5 ''t1'' Chat chat_options sample_models = (s', Inr m)"
      "rm_source m = ''builtin''" "rm_apiKey m \<noteq> None"
    using sample_resolves by (auto simp: sample_resolved_def split: prod.splits sum.splits)
  from included_key_guarded [OF m] m(1) show ?thesis by blast
qed

lemma same_tables:
  assumes "mdb_configs s' = mdb_configs s" "mdb_settings s' = mdb_settings s" "mdb_agents s' = mdb_agents s"
  shows "loadAssignmentId t consumer s' = loadAssignmentId t consumer s" "assigned t a s' = assigned t a s"
    "default_config t s' = default_config t s" "loadBuiltinAcceptedKey t s' = loadBuiltinAcceptedKey t s"
  using assms
  by (simp_all add: loadAssignmentId_def find_settings_def assigned_def loadActiveConfig_def default_config_def findDefault_def
      loadBuiltinAcceptedKey_def split: model_consumer.split)


definition sample_change :: platform_input where
  "sample_change = \<lparr> up_provider = Some ''anthropic'', up_model = None, up_api_key = None, up_endpoint_url = None,
     up_rate_limit_tenant_per_minute = None, up_rate_limit_user_per_hour = None, up_disclosure_name = Some ''Example'',
     up_disclosure_location = Some ''EU'' \<rparr>"

definition check_options :: resolve_options where
  "check_options = \<lparr> ro_withSecrets = False, ro_acceptedKey = None, ro_gate = Confirmed \<rparr>"

lemma sample_changed: "case updateConfig sample_env 9 sample_change None sample_models of
    (s', Inr v) \<Rightarrow> map_option pc_provider (mdb_platform s') = Some ''anthropic'' | _ \<Rightarrow> False"
  by code_simp


subsection \<open>Readiness\<close>

text \<open>Without secrets nothing is decrypted, so readiness is a value, never a throw.\<close>

definition plain_model :: "ai_model_config \<Rightarrow> resolved_model" where
  "plain_model c =
     \<lparr> rm_source = ''registry'', rm_configId = Some (mo_id c), rm_configName = Some (mo_name c), rm_provider = mo_provider c,
       rm_model = mo_model c, rm_endpointUrl = mo_endpoint_url c, rm_apiKey = None, rm_hasApiKey = truthy (mo_api_key_encrypted c),
       rm_supportsVision = mo_supports_vision c, rm_priceInput = parsePriceEurPerMtok (mo_price_input c),
       rm_priceOutput = parsePriceEurPerMtok (mo_price_output c), rm_timeoutMs = mo_llm_timeout_ms c, rm_builtinRateLimits = None \<rparr>"

lemma fromConfig_plain: "fromConfig env c False = Inr (plain_model c)"
  by (simp add: fromConfig_def plain_model_def)

definition shown_identity :: "model_env \<Rightarrow> int \<Rightarrow> model_db \<Rightarrow> identity option" where
  "shown_identity env now s = (if ev_single_tenant env then None else Option.bind (usable_record now s) (disclosureIdentity env))"

definition not_ready :: "identity option \<Rightarrow> ai_error \<Rightarrow> readiness" where
  "not_ready identity e =
     (case e of ModelUnavailable code message \<Rightarrow>
        \<lparr> rd_errors = [message], rd_errorCode = Some code, rd_usesBuiltin = (code = ''builtin_not_accepted''), rd_builtinIdentity = identity \<rparr>)"

definition chain :: "model_env \<Rightarrow> int \<Rightarrow> string \<Rightarrow> string option \<Rightarrow> string option option \<Rightarrow> model_gate \<Rightarrow> model_db \<Rightarrow> ai_error + resolved_model" where
  "chain env now tenantId assignmentId k g s =
     (case assigned tenantId assignmentId s of
        Some c \<Rightarrow> Inr (plain_model c)
      | None \<Rightarrow> (case default_config tenantId s of
          Some c \<Rightarrow> Inr (plain_model c)
        | None \<Rightarrow>
            if ev_single_tenant env then Inl NO_MODEL
            else (case usable_record now s of
              None \<Rightarrow> Inl NOT_BUILTIN
            | Some r \<Rightarrow>
                if g = Confirmed
                then (case disclosureIdentity env r of
                        None \<Rightarrow> Inl NOT_BUILTIN
                      | Some i \<Rightarrow> if (case k of Some x \<Rightarrow> x | None \<Rightarrow> loadBuiltinAcceptedKey tenantId s) \<noteq> Some (id_key i) then Inl NOT_ACCEPTED
                                  else Inr (from_snapshot (snapshot_of env r None)))
                else Inr (from_snapshot (snapshot_of env r None)))))"

definition ready_value :: "identity option \<Rightarrow> ai_error + resolved_model \<Rightarrow> readiness" where
  "ready_value identity r = (case r of Inr m \<Rightarrow> ready_of identity m | Inl e \<Rightarrow> not_ready identity e)"

lemma chain_eq:
  "snd (resolveForAssignment env now tenantId assignmentId \<lparr> ro_withSecrets = False, ro_acceptedKey = k, ro_gate = g \<rparr> s)
     = chain env now tenantId assignmentId k g s"
  by (auto simp: resolveForAssignment_def chain_def fromConfig_plain resolve_builtin_eq accepted_key_def split: option.split)

lemma chain_errors: "chain env now tenantId assignmentId k g s = Inl e \<Longrightarrow> e \<in> {NO_MODEL, NOT_BUILTIN, NOT_ACCEPTED}"
  by (auto simp: chain_def split: option.splits if_splits)

lemma chain_cached [simp]: "chain env now tenantId assignmentId k g (cached now s) = chain env now tenantId assignmentId k g s"
  by (auto simp: chain_def loadBuiltinAcceptedKey_def split: option.split)

lemma model_readiness_value:
  "snd (model_readiness env now tenantId assignmentId k g s)
     = Inr (ready_value (shown_identity env now s) (chain env now tenantId assignmentId k g s))"
proof -
  define s1 where "s1 = (if ev_single_tenant env then s else cached now s)"
  have id: "builtin_identity env now s = (s1, Inr (shown_identity env now s))"
    by (auto simp: builtin_identity_def shown_identity_def s1_def obind_apply getBuiltinRuntime_eq snapshot_of_def split: option.split)
  obtain s2 r where r: "resolveForAssignment env now tenantId assignmentId
      \<lparr> ro_withSecrets = False, ro_acceptedKey = k, ro_gate = g \<rparr> s1 = (s2, r)" by force
  have "r = chain env now tenantId assignmentId k g s1" using chain_eq [of env now tenantId assignmentId k g s1] r by simp
  also have "\<dots> = chain env now tenantId assignmentId k g s" by (simp add: s1_def)
  finally have c: "r = chain env now tenantId assignmentId k g s" .
  show ?thesis
  proof (cases r)
    case (Inr m)
    with id r show ?thesis unfolding c [symmetric] by (simp add: model_readiness_def obind_apply otry_def ready_value_def)
  next
    case (Inl e)
    with c chain_errors have "e \<in> {NO_MODEL, NOT_BUILTIN, NOT_ACCEPTED}" by metis
    with Inl id r show ?thesis unfolding c [symmetric]
      by (auto simp: model_readiness_def obind_apply otry_def ready_value_def not_ready_def NO_MODEL_def NOT_BUILTIN_def NOT_ACCEPTED_def)
  qed
qed

lemma validationErrors_value:
  "snd (validationErrors env now tenantId assignmentId k g s)
     = Inr (rd_errors (ready_value (shown_identity env now s) (chain env now tenantId assignmentId k g s)))"
proof -
  obtain s1 r where r: "model_readiness env now tenantId assignmentId k g s = (s1, r)" by force
  with model_readiness_value [of env now tenantId assignmentId k g s] show ?thesis
    by (simp add: validationErrors_def obind_apply)
qed

text \<open>A model that is ready with the confirmation is ready without it.\<close>

lemma ready_without_confirmation:
  assumes "rd_errors (ready_value (shown_identity env now s) (chain env now tenantId assignmentId k Confirmed s)) = []"
  shows "rd_errors (ready_value (shown_identity env now s) (chain env now tenantId assignmentId k' NoGate s)) = []"
proof -
  have err: "rd_errors (not_ready i e) \<noteq> []" if "e \<in> {NO_MODEL, NOT_BUILTIN, NOT_ACCEPTED}" for i e
    using that by (auto simp: not_ready_def NO_MODEL_def NOT_BUILTIN_def NOT_ACCEPTED_def)
  obtain m where m: "chain env now tenantId assignmentId k Confirmed s = Inr m"
    using assms err chain_errors by (cases "chain env now tenantId assignmentId k Confirmed s") (auto simp: ready_value_def)
  have "chain env now tenantId assignmentId k' NoGate s = Inr m"
    using m by (auto simp: chain_def split: option.splits if_splits)
  with m assms show ?thesis by (simp add: ready_value_def)
qed

end
