(* ===== verification/Settings.thy ===== *)
theory Settings
  imports Models
begin

section \<open>The AI settings of a workspace (ai/ai-settings.service.ts)\<close>

subsection \<open>Reading\<close>

definition normalizeProviderSourceValue :: "model_env \<Rightarrow> string option \<Rightarrow> string" where
  "normalizeProviderSourceValue env value =
     (if ev_single_tenant env then ''custom'' else if value = Some ''custom'' then ''custom'' else ''builtin'')"

definition save_settings :: "ai_settings \<Rightarrow> ai_settings mop" where
  "save_settings r = (\<lambda>s. (s\<lparr>mdb_settings := save_row set_id r (mdb_settings s)\<rparr>, Inr r))"

definition normalizeProviderSource :: "model_env \<Rightarrow> int \<Rightarrow> ai_settings \<Rightarrow> ai_settings mop" where
  "normalizeProviderSource env now settings =
     (let nextValue = normalizeProviderSourceValue env (Some (set_provider_source settings)) in
      if set_provider_source settings = nextValue then oret settings
      else save_settings (settings\<lparr>set_provider_source := nextValue, set_updated_at := now\<rparr>))"

definition find_ai_settings :: "model_env \<Rightarrow> int \<Rightarrow> string \<Rightarrow> ai_settings option mop" where
  "find_ai_settings env now tenantId =
     obind (oread (find_settings tenantId)) (\<lambda>settings.
       case settings of
         None \<Rightarrow> oret None
       | Some r \<Rightarrow> obind (normalizeProviderSource env now r) (\<lambda>r'. oret (Some r')))"

definition new_settings :: "model_env \<Rightarrow> int \<Rightarrow> string \<Rightarrow> string \<Rightarrow> ai_settings" where
  "new_settings env now tenantId newId =
     \<lparr> set_id = newId, set_tenant_id = tenantId, set_chat_enabled = False, set_mcp_enabled = False, set_llm_provider = None,
       set_llm_api_key_encrypted = None, set_llm_endpoint_url = None, set_llm_model = None,
       set_provider_source = (if ev_single_tenant env then ''custom'' else ''builtin''), set_chat_model_config_id = None,
       set_mcp_key_max_lifetime_days = None, set_conversation_retention_days = None, set_web_search_enabled = False,
       set_llm_supports_vision = True, set_glpi_enabled = False, set_glpi_url = None, set_glpi_user_token_encrypted = None,
       set_glpi_app_token_encrypted = None, set_builtin_accepted_key = None, set_builtin_accepted_at = None,
       set_builtin_accepted_by = None, set_created_at = now, set_updated_at = now \<rparr>"

definition get_ai_settings :: "model_env \<Rightarrow> int \<Rightarrow> string \<Rightarrow> ai_settings mop" where
  "get_ai_settings env now tenantId =
     obind (find_ai_settings env now tenantId) (\<lambda>settings.
       case settings of
         Some r \<Rightarrow> oret r
       | None \<Rightarrow> obind mint_model (\<lambda>n. save_settings (new_settings env now tenantId (ev_uuid env n))))"

definition getEffectiveProviderSource :: "model_env \<Rightarrow> ai_settings \<Rightarrow> string" where
  "getEffectiveProviderSource env settings =
     (if ev_single_tenant env then ''custom'' else if set_provider_source settings = ''custom'' then ''custom'' else ''builtin'')"

definition getProviderReadiness :: "model_env \<Rightarrow> int \<Rightarrow> ai_settings \<Rightarrow> readiness mop" where
  "getProviderReadiness env now settings =
     model_readiness env now (set_tenant_id settings) (set_chat_model_config_id settings)
       (Some (set_builtin_accepted_key settings)) Confirmed"

definition getProviderValidationErrors :: "model_env \<Rightarrow> int \<Rightarrow> ai_settings \<Rightarrow> string list mop" where
  "getProviderValidationErrors env now settings = obind (getProviderReadiness env now settings) (\<lambda>r. oret (rd_errors r))"

definition getProviderErrorsWithoutConfirmation :: "model_env \<Rightarrow> int \<Rightarrow> ai_settings \<Rightarrow> string list mop" where
  "getProviderErrorsWithoutConfirmation env now settings =
     validationErrors env now (set_tenant_id settings) (set_chat_model_config_id settings) None NoGate"

definition getFallbackReadiness ::
  "model_env \<Rightarrow> int \<Rightarrow> string \<Rightarrow> ai_settings option \<Rightarrow> readiness option \<Rightarrow> readiness mop" where
  "getFallbackReadiness env now tenantId settings assistantReadiness =
     (case (assistantReadiness, settings) of
        (Some rd, Some r) \<Rightarrow>
          if set_chat_model_config_id r = None then oret rd
          else model_readiness env now tenantId None (Some (set_builtin_accepted_key r)) Confirmed
      | _ \<Rightarrow> model_readiness env now tenantId None (Some (Option.bind settings set_builtin_accepted_key)) Confirmed)"

text \<open>The query: an enabled agent without a model of its own, or with one that is not active.\<close>

definition agent_on_fallback :: "string \<Rightarrow> model_db \<Rightarrow> bool" where
  "agent_on_fallback tenantId s \<longleftrightarrow>
     list_ex (\<lambda>d. agent_tenant_id d = tenantId \<and> agent_status d = ''enabled''
       \<and> (case agent_llm_model_config_id d of
            None \<Rightarrow> True
          | Some c \<Rightarrow> \<not> list_ex (\<lambda>m. mo_id m = c \<and> mo_tenant_id m = tenantId \<and> mo_status m = ''active'') (mdb_configs s)))
       (mdb_agents s)"

definition isBuiltinConfirmationNeeded ::
  "model_env \<Rightarrow> int \<Rightarrow> string \<Rightarrow> ai_settings option \<Rightarrow> readiness option \<Rightarrow> bool mop" where
  "isBuiltinConfirmationNeeded env now tenantId settings assistantReadiness =
     obind (getFallbackReadiness env now tenantId settings assistantReadiness) (\<lambda>fallback.
       if rd_errorCode fallback \<noteq> Some ''builtin_not_accepted'' then oret False
       else oread (agent_on_fallback tenantId))"

subsection \<open>Lemmas\<close>

interpretation settings_rows: repository set_id "find_row set_id" "save_row set_id" by (rule repository_rows)

lemma readiness_state:
  "model_readiness env now tenantId assignmentId k g s
     = (fst (model_readiness env now tenantId assignmentId k g s),
        Inr (ready_value (shown_identity env now s) (chain env now tenantId assignmentId k g s)))"
  by (metis model_readiness_value prod.collapse)

end
