(* ===== verification/Permissions.thy ===== *)
theory Permissions
  imports Evidence "HOL-Library.AList"
begin

section \<open>Role permissions (permissions/permissions.service.ts)\<close>

text \<open>
  Who may do what: rows of (role, resource, level), read as one level per resource, the highest
  winning, over one role or over all roles of a user.  A \<open>Map\<close> is an association list in insertion
  order.  Resource names are not those of \<open>Object.prototype\<close>.
\<close>

definition LEVEL_RANK :: "string \<Rightarrow> nat option" where
  "LEVEL_RANK = map_of [(''reader'', 1), (''contributor'', 2), (''member'', 3), (''admin'', 4)]"

definition level_rank :: "string \<Rightarrow> nat" where
  "level_rank level = with_default 0 (LEVEL_RANK level)"

definition RESOURCE_ALIASES :: "(string \<times> string list) list" where
  "RESOURCE_ALIASES =
     [(''reporting'', [''reports'']),
      (''budget_ops'', [''budget-ops'', ''budget_operations'', ''budget-admin'', ''budget_admin''])]"

definition normalizeResource :: "string \<Rightarrow> string" where
  "normalizeResource resource =
     (case List.find (\<lambda>(canonical, aliases). canonical = resource \<or> resource \<in> set aliases) RESOURCE_ALIASES of
        Some entry \<Rightarrow> fst entry
      | None \<Rightarrow> resource)"

definition normalizePermissionLevel :: "string \<Rightarrow> string \<Rightarrow> string" where
  "normalizePermissionLevel resource level =
     (if normalizeResource resource = ''knowledge'' \<and> level = ''contributor'' then ''reader'' else level)"

definition aliasGroup :: "string \<Rightarrow> string list" where
  "aliasGroup resource =
     (let canonical = normalizeResource resource in canonical # with_default [] (map_of RESOURCE_ALIASES canonical))"

subsection \<open>Reading\<close>

record role_permission =
  rp_id :: string
  rp_tenant_id :: string
  rp_role_id :: string
  rp_resource :: string
  rp_level :: string

type_synonym permission_map = "(string \<times> string) list"

definition note_level :: "permission_map \<Rightarrow> role_permission \<Rightarrow> permission_map" where
  "note_level acc i =
     (let key = normalizeResource (rp_resource i);
          level = normalizePermissionLevel key (rp_level i);
          existing = map_of acc key
      in if \<not> truthy existing \<or> level_rank level > level_rank (the existing) then AList.update key level acc else acc)"

definition derive_contacts :: "permission_map \<Rightarrow> permission_map" where
  "derive_contacts levels =
     (let suppliersLevel = map_of levels ''suppliers''; contactsLevel = map_of levels ''contacts'' in
      if \<not> truthy contactsLevel \<and> truthy suppliersLevel \<and> level_rank (the suppliersLevel) \<ge> level_rank ''contributor''
      then AList.update ''contacts'' ''reader'' levels else levels)"

definition listForRole :: "role_permission list \<Rightarrow> string \<Rightarrow> permission_map" where
  "listForRole rows roleId = derive_contacts (foldl note_level [] (filter (\<lambda>i. rp_role_id i = roleId) rows))"

definition higher :: "string \<Rightarrow> string \<Rightarrow> bool" where
  "higher a b \<longleftrightarrow> (case (LEVEL_RANK a, LEVEL_RANK b) of (Some x, Some y) \<Rightarrow> x > y | _ \<Rightarrow> False)"

definition union_level :: "permission_map \<Rightarrow> string \<times> string \<Rightarrow> permission_map" where
  "union_level merged entry =
     (case entry of (resource, level) \<Rightarrow>
        let existing = map_of merged resource in
        if \<not> truthy existing \<or> higher level (the existing) then AList.update resource level merged else merged)"

definition listForRoles :: "role_permission list \<Rightarrow> string list \<Rightarrow> permission_map" where
  "listForRoles rows roleIds =
     (if roleIds = [] then []
      else if length roleIds = 1 then listForRole rows (hd roleIds)
      else foldl (\<lambda>merged roleId. foldl union_level merged (listForRole rows roleId)) [] roleIds)"

subsection \<open>Writing\<close>

record perm_db =
  pm_roles :: "(string \<times> string) list"
  pm_rows :: "role_permission list"
  pm_minted :: nat

text \<open>A requested level is \<open>None\<close> for null.  The loop over the request fills \<open>toSave\<close> and \<open>toDelete\<close>.\<close>

type_synonym request = "(string \<times> string option) list"

definition sort_request ::
  "permission_map \<Rightarrow> (string \<times> string) list \<times> string list \<Rightarrow> string \<times> string option \<Rightarrow> (string \<times> string) list \<times> string list" where
  "sort_request current acc entry =
     (case acc of (toSave, toDelete) \<Rightarrow> case entry of (resource, level) \<Rightarrow>
        let normalized = normalizeResource resource in
        case level of
          None \<Rightarrow> (if map_of current normalized \<noteq> None then (toSave, toDelete @ [normalized]) else (toSave, toDelete))
        | Some l \<Rightarrow> (toSave @ [(normalized, normalizePermissionLevel normalized l)], toDelete))"

definition OPERATIONS_RESOURCES :: "string list" where
  "OPERATIONS_RESOURCES = [''opex'', ''capex'', ''projects'', ''contracts'']"

definition hasAnyOpsAccess :: "request \<Rightarrow> bool" where
  "hasAnyOpsAccess permissions =
     list_ex (\<lambda>res. map_of permissions res \<in> {Some (Some ''reader''), Some (Some ''member''), Some (Some ''admin'')})
       OPERATIONS_RESOURCES"

definition tasks_grant :: "request \<Rightarrow> string list \<Rightarrow> (string \<times> string) list" where
  "tasks_grant permissions toDelete =
     (if hasAnyOpsAccess permissions \<and> map_of permissions ''tasks'' = None \<and> ''tasks'' \<notin> set toDelete
      then [(''tasks'', ''reader'')] else [])"

definition save_level :: "(nat \<Rightarrow> string) \<Rightarrow> string \<Rightarrow> string \<Rightarrow> perm_db \<Rightarrow> string \<times> string \<Rightarrow> perm_db" where
  "save_level uuid_of tenantId roleId s entry =
     (case entry of (resource, level) \<Rightarrow>
        case List.find (\<lambda>i. rp_role_id i = roleId \<and> rp_resource i \<in> set (aliasGroup resource)) (pm_rows s) of
          Some existing \<Rightarrow>
            s\<lparr>pm_rows := save_row rp_id (existing\<lparr>rp_resource := resource, rp_level := level, rp_tenant_id := tenantId\<rparr>) (pm_rows s)\<rparr>
        | None \<Rightarrow>
            s\<lparr>pm_rows := save_row rp_id \<lparr> rp_id = uuid_of (pm_minted s), rp_tenant_id = tenantId, rp_role_id = roleId,
                           rp_resource = resource, rp_level = level \<rparr> (pm_rows s),
              pm_minted := Suc (pm_minted s)\<rparr>)"

definition delete_levels :: "string \<Rightarrow> string list \<Rightarrow> perm_db \<Rightarrow> perm_db" where
  "delete_levels roleId toDelete s =
     (if toDelete = [] then s
      else s\<lparr>pm_rows := filter (\<lambda>i. \<not> (rp_role_id i = roleId \<and> rp_resource i \<in> set (concat (map aliasGroup toDelete)))) (pm_rows s)\<rparr>)"

definition setRolePermissionsMap ::
  "(nat \<Rightarrow> string) \<Rightarrow> string \<Rightarrow> request \<Rightarrow> perm_db \<Rightarrow> string + (perm_db \<times> permission_map)" where
  "setRolePermissionsMap uuid_of roleId permissions s =
     (case map_of (pm_roles s) roleId of
        None \<Rightarrow> Inl (''Role not found: '' @ roleId)
      | Some tenantId \<Rightarrow>
          (case foldl (sort_request (listForRole (pm_rows s) roleId)) ([], []) permissions of (toSave, toDelete) \<Rightarrow>
             let s1 = foldl (save_level uuid_of tenantId roleId) s (toSave @ tasks_grant permissions toDelete);
                 s2 = delete_levels roleId toDelete s1
             in Inr (s2, listForRole (pm_rows s2) roleId)))"

text \<open>The permissions of a duplicated role (roles/roles.controller.ts): those of the original, set on the copy.\<close>

definition copy_permissions :: "(nat \<Rightarrow> string) \<Rightarrow> string \<Rightarrow> string \<Rightarrow> perm_db \<Rightarrow> string + perm_db" where
  "copy_permissions uuid_of originalId copyId s =
     (let perms = listForRole (pm_rows s) originalId in
      if perms = [] then Inr s
      else rbind (setRolePermissionsMap uuid_of copyId (map (\<lambda>(k, v). (k, Some v)) perms) s) (\<lambda>r. Inr (fst r)))"

subsection \<open>Lemmas: resources and levels\<close>

lemma LEVEL_RANK_cases: "LEVEL_RANK level = Some n \<longleftrightarrow>
    level = ''reader'' \<and> n = 1 \<or> level = ''contributor'' \<and> n = 2 \<or> level = ''member'' \<and> n = 3 \<or> level = ''admin'' \<and> n = 4"
  by (auto simp: LEVEL_RANK_def split: if_splits)

definition REPORTING :: "string set" where "REPORTING = {''reporting'', ''reports''}"
definition BUDGET_OPS :: "string set" where
  "BUDGET_OPS = {''budget_ops'', ''budget-ops'', ''budget_operations'', ''budget-admin'', ''budget_admin''}"

lemma alias_sets: "''reporting'' \<in> REPORTING" "''budget_ops'' \<in> BUDGET_OPS" "''reporting'' \<notin> BUDGET_OPS" "''budget_ops'' \<notin> REPORTING"
  "REPORTING \<inter> BUDGET_OPS = {}"
  by (simp_all add: REPORTING_def BUDGET_OPS_def)

lemma normalizeResource_cases:
  "normalizeResource r = (if r \<in> REPORTING then ''reporting'' else if r \<in> BUDGET_OPS then ''budget_ops'' else r)"
  by (simp add: normalizeResource_def RESOURCE_ALIASES_def REPORTING_def BUDGET_OPS_def)

lemma normalize_idem [simp]: "normalizeResource (normalizeResource r) = normalizeResource r"
  using alias_sets by (simp add: normalizeResource_cases)

lemma normalize_reporting: "normalizeResource r = ''reporting'' \<longleftrightarrow> r \<in> REPORTING"
  using alias_sets by (auto simp: normalizeResource_cases)

lemma normalize_budget_ops: "normalizeResource r = ''budget_ops'' \<longleftrightarrow> r \<in> BUDGET_OPS"
  using alias_sets by (auto simp: normalizeResource_cases)

lemma aliasGroup_sets: "normalizeResource k = ''reporting'' \<Longrightarrow> set (aliasGroup k) = REPORTING"
  "normalizeResource k = ''budget_ops'' \<Longrightarrow> set (aliasGroup k) = BUDGET_OPS"
  "normalizeResource k \<noteq> ''reporting'' \<Longrightarrow> normalizeResource k \<noteq> ''budget_ops'' \<Longrightarrow> set (aliasGroup k) = {normalizeResource k}"
  by (simp_all add: aliasGroup_def Let_def RESOURCE_ALIASES_def with_default_def REPORTING_def BUDGET_OPS_def)

lemma aliasGroup_iff: "r \<in> set (aliasGroup k) \<longleftrightarrow> normalizeResource r = normalizeResource k"
proof -
  consider "normalizeResource k = ''reporting''" | "normalizeResource k = ''budget_ops''"
    | "normalizeResource k \<noteq> ''reporting''" "normalizeResource k \<noteq> ''budget_ops''" by blast
  then show ?thesis
  proof cases
    case 1
    then show ?thesis unfolding aliasGroup_sets(1) [OF 1] 1 normalize_reporting by simp
  next
    case 2
    then show ?thesis unfolding aliasGroup_sets(2) [OF 2] 2 normalize_budget_ops by simp
  next
    case 3
    have "normalizeResource r = r" if "normalizeResource r = normalizeResource k"
    proof -
      from that 3 have "r \<notin> REPORTING" "r \<notin> BUDGET_OPS" using normalize_reporting [of r] normalize_budget_ops [of r] by metis+
      then show ?thesis by (simp add: normalizeResource_cases)
    qed
    then show ?thesis unfolding aliasGroup_sets(3) [OF 3] by (metis normalize_idem singleton_iff)
  qed
qed

lemma normalize_plain [simp]: "normalizeResource ''contacts'' = ''contacts''" "normalizeResource ''suppliers'' = ''suppliers''"
  "normalizeResource ''tasks'' = ''tasks''"
  by (simp_all add: normalizeResource_cases REPORTING_def BUDGET_OPS_def)

lemma normalizeLevel_idem [simp]: "normalizePermissionLevel r (normalizePermissionLevel r l) = normalizePermissionLevel r l"
  by (simp add: normalizePermissionLevel_def)

lemma normalizeLevel_canonical [simp]: "normalizePermissionLevel (normalizeResource r) l = normalizePermissionLevel r l"
  by (simp add: normalizePermissionLevel_def)

definition valid_level :: "string \<Rightarrow> bool" where
  "valid_level level \<longleftrightarrow> LEVEL_RANK level \<noteq> None"

lemma valid_level_truthy: "valid_level l \<Longrightarrow> truthy (Some l)"
  unfolding valid_level_def using LEVEL_RANK_cases [of l] by (auto simp: truthy_def)

lemma valid_reader [simp]: "valid_level ''reader''"
  by (simp add: valid_level_def LEVEL_RANK_def)

lemma valid_normalized: "valid_level l \<Longrightarrow> valid_level (normalizePermissionLevel r l)"
  by (simp add: normalizePermissionLevel_def)

subsection \<open>The highest level wins\<close>

definition perm_rank :: "permission_map \<Rightarrow> string \<Rightarrow> nat" where
  "perm_rank levels r = (case map_of levels r of None \<Rightarrow> 0 | Some l \<Rightarrow> level_rank l)"

definition valid_map :: "permission_map \<Rightarrow> bool" where
  "valid_map levels \<longleftrightarrow> distinct (map fst levels) \<and> (\<forall>(k, l)\<in>set levels. valid_level l)"

lemma map_of_update [simp]: "map_of (AList.update k v m) r = (if r = k then Some v else map_of m r)"
  by (simp add: update_conv')

lemma valid_map_update: "valid_map m \<Longrightarrow> valid_level l \<Longrightarrow> valid_map (AList.update k l m)"
proof -
  assume m: "valid_map m" and l: "valid_level l"
  have "distinct (map fst (AList.update k l m))" using m by (simp add: valid_map_def distinct_update)
  moreover have "valid_level y" if "(x, y) \<in> set (AList.update k l m)" for x y
  proof -
    from map_of_is_SomeI [OF calculation that] have "map_of (AList.update k l m) x = Some y" .
    then show ?thesis using m l by (auto simp: valid_map_def split: if_splits dest!: map_of_SomeD)
  qed
  ultimately show ?thesis by (auto simp: valid_map_def)
qed

lemma valid_map_Nil [simp]: "valid_map []"
  by (simp add: valid_map_def)

lemma valid_map_lookup: "valid_map m \<Longrightarrow> map_of m r = Some l \<Longrightarrow> valid_level l"
  by (auto simp: valid_map_def dest!: map_of_SomeD)

lemma untruthy_rank: "\<not> truthy (map_of m r) \<Longrightarrow> perm_rank m r = 0"
  by (auto simp: perm_rank_def truthy_def level_rank_def LEVEL_RANK_def with_default_def split: option.splits)

lemma perm_rank_update: "perm_rank (AList.update k l m) r = (if r = k then level_rank l else perm_rank m r)"
  by (simp add: perm_rank_def)

lemma truthy_rank: "truthy (map_of m r) \<Longrightarrow> perm_rank m r = level_rank (the (map_of m r))"
  by (auto simp: perm_rank_def truthy_def split: option.splits)

definition row_rank :: "role_permission \<Rightarrow> nat" where
  "row_rank i = level_rank (normalizePermissionLevel (rp_resource i) (rp_level i))"

lemma note_level_rank:
  "perm_rank (note_level m i) r = (if normalizeResource (rp_resource i) = r then max (perm_rank m r) (row_rank i) else perm_rank m r)"
proof -
  define k where "k = normalizeResource (rp_resource i)"
  define l where "l = normalizePermissionLevel (rp_resource i) (rp_level i)"
  have n: "note_level m i = (if \<not> truthy (map_of m k) \<or> level_rank l > level_rank (the (map_of m k)) then AList.update k l m else m)"
    by (simp add: note_level_def Let_def k_def l_def)
  have "row_rank i = level_rank l" by (simp add: row_rank_def l_def)
  then show ?thesis unfolding n k_def [symmetric] using untruthy_rank [of m k] truthy_rank [of m k]
    by (cases "r = k"; cases "truthy (map_of m k)") (simp_all add: perm_rank_update)
qed

lemma note_level_valid: "valid_map m \<Longrightarrow> valid_level (rp_level i) \<Longrightarrow> valid_map (note_level m i)"
  by (simp add: note_level_def Let_def valid_map_update valid_normalized)

lemma Max_insert_max: "finite R \<Longrightarrow> Max (insert (max a b) R) = Max (insert a (insert b R))" for a b :: nat
  by (cases "R = {}") (simp_all add: max.assoc)

lemma collected_rank:
  "perm_rank (foldl note_level m is) r
     = Max (insert (perm_rank m r) (row_rank ` {i \<in> set is. normalizeResource (rp_resource i) = r}))"
proof (induction "is" arbitrary: m)
  case (Cons i rest)
  let ?R = "row_rank ` {x \<in> set rest. normalizeResource (rp_resource x) = r}"
  have split: "row_rank ` {x \<in> set (i # rest). normalizeResource (rp_resource x) = r}
      = (if normalizeResource (rp_resource i) = r then insert (row_rank i) ?R else ?R)" by auto
  have "finite ?R" by simp
  from Max_insert_max [OF this] Cons.IH [of "note_level m i"] show ?case unfolding split by (simp add: note_level_rank)
qed simp

lemma collected_valid: "valid_map m \<Longrightarrow> \<forall>i\<in>set is. valid_level (rp_level i) \<Longrightarrow> valid_map (foldl note_level m is)"
  by (induction "is" arbitrary: m) (auto simp: note_level_valid)

lemma higher_valid: "valid_level a \<Longrightarrow> valid_level b \<Longrightarrow> higher a b \<longleftrightarrow> level_rank a > level_rank b"
  by (auto simp: higher_def valid_level_def level_rank_def with_default_def)

lemma union_level_rank:
  assumes "valid_map m" "valid_level l"
  shows "perm_rank (union_level m (k, l)) r = (if r = k then max (perm_rank m r) (level_rank l) else perm_rank m r)"
    and "valid_map (union_level m (k, l))"
proof -
  have "truthy (map_of m k) \<Longrightarrow> higher l (the (map_of m k)) \<longleftrightarrow> level_rank l > perm_rank m k"
    using valid_map_lookup [OF assms(1)] assms(2) truthy_rank [of m k]
    by (cases "map_of m k") (auto simp: higher_valid truthy_def)
  then show "perm_rank (union_level m (k, l)) r = (if r = k then max (perm_rank m r) (level_rank l) else perm_rank m r)"
    using untruthy_rank [of m k] by (auto simp: union_level_def Let_def perm_rank_update)
  show "valid_map (union_level m (k, l))" using assms by (simp add: union_level_def Let_def valid_map_update)
qed

lemma union_rank:
  "valid_map m \<Longrightarrow> valid_map entries \<Longrightarrow>
   perm_rank (foldl union_level m entries) r = max (perm_rank m r) (perm_rank entries r) \<and> valid_map (foldl union_level m entries)"
proof (induction entries arbitrary: m)
  case (Cons e entries)
  obtain k l where e: "e = (k, l)" by force
  from Cons.prems e have v: "valid_level l" "valid_map entries" "k \<notin> fst ` set entries" by (auto simp: valid_map_def)
  then have "perm_rank (e # entries) r = (if r = k then level_rank l else perm_rank entries r)"
    "r = k \<Longrightarrow> perm_rank entries r = 0" by (simp_all add: perm_rank_def e map_of_eq_None_iff [THEN iffD2])
  with Cons.IH [of "union_level m e"] v union_level_rank [OF Cons.prems(1) v(1), of k] show ?case by (auto simp: e)
qed (simp add: perm_rank_def)

text \<open>The level of one role on a resource: its highest row, or the reading of contacts that suppliers imply.\<close>

definition direct_rank :: "role_permission list \<Rightarrow> string \<Rightarrow> string \<Rightarrow> nat" where
  "direct_rank rows roleId r =
     Max (insert 0 (row_rank ` {i \<in> set rows. rp_role_id i = roleId \<and> normalizeResource (rp_resource i) = r}))"

definition role_rank :: "role_permission list \<Rightarrow> string \<Rightarrow> string \<Rightarrow> nat" where
  "role_rank rows roleId r =
     (if r = ''contacts'' \<and> direct_rank rows roleId r = 0 \<and> 2 \<le> direct_rank rows roleId ''suppliers'' then 1
      else direct_rank rows roleId r)"

definition rows_valid :: "role_permission list \<Rightarrow> bool" where
  "rows_valid rows \<longleftrightarrow> (\<forall>i\<in>set rows. valid_level (rp_level i))"

lemma listForRole_rank:
  assumes "rows_valid rows"
  shows "perm_rank (listForRole rows roleId) r = role_rank rows roleId r" "valid_map (listForRole rows roleId)"
proof -
  define m where "m = foldl note_level [] (filter (\<lambda>i. rp_role_id i = roleId) rows)"
  have d: "perm_rank m k = direct_rank rows roleId k" for k
    by (simp add: m_def collected_rank direct_rank_def perm_rank_def [of "[]"] conj_commute conj_left_commute)
  have v: "valid_map m" unfolding m_def using assms by (intro collected_valid) (auto simp: rows_valid_def)
  have t: "truthy (map_of m k) \<longleftrightarrow> direct_rank rows roleId k > 0" for k
  proof (cases "map_of m k")
    case (Some l)
    from valid_map_lookup [OF v Some] obtain n where "LEVEL_RANK l = Some n" by (auto simp: valid_level_def)
    then have "level_rank l > 0" "truthy (Some l)"
      using LEVEL_RANK_cases [of l n] by (auto simp: level_rank_def with_default_def truthy_def)
    with Some d [of k] show ?thesis by (simp add: perm_rank_def)
  qed (simp add: d [symmetric] perm_rank_def truthy_def)
  have two: "level_rank ''contributor'' = 2" "level_rank ''reader'' = 1" by (simp_all add: level_rank_def LEVEL_RANK_def with_default_def)
  define derived where "derived \<longleftrightarrow> direct_rank rows roleId ''contacts'' = 0 \<and> 2 \<le> direct_rank rows roleId ''suppliers''"
  have "level_rank (the (map_of m ''suppliers'')) = direct_rank rows roleId ''suppliers''" if "truthy (map_of m ''suppliers'')"
    using truthy_rank [OF that] by (simp add: d)
  then have "(\<not> truthy (map_of m ''contacts'') \<and> truthy (map_of m ''suppliers'')
      \<and> level_rank (the (map_of m ''suppliers'')) \<ge> level_rank ''contributor'') \<longleftrightarrow> derived"
    unfolding t two derived_def by fastforce
  then have l: "listForRole rows roleId = (if derived then AList.update ''contacts'' ''reader'' m else m)"
    by (simp only: listForRole_def derive_contacts_def Let_def m_def [symmetric])
  then show "perm_rank (listForRole rows roleId) r = role_rank rows roleId r"
    by (cases "r = ''contacts''") (simp_all add: perm_rank_update role_rank_def d two derived_def)
  show "valid_map (listForRole rows roleId)" using v l by (simp add: valid_map_update)
qed

text \<open>Union over roles: the level of a user on a resource is the highest of the levels of their roles,
  where a role counts with its highest row on the resource, whatever alias the row is stored under, and a
  role with suppliers from contributor on and no row for contacts reads contacts.\<close>

lemma union_over_roles:
  "rows_valid rows \<Longrightarrow> valid_map m \<Longrightarrow>
   perm_rank (foldl (\<lambda>merged roleId. foldl union_level merged (listForRole rows roleId)) m ids) r
     = Max (insert (perm_rank m r) ((\<lambda>k. role_rank rows k r) ` set ids))"
proof (induction ids arbitrary: m)
  case (Cons k ids)
  note u = union_rank [OF Cons.prems(2) listForRole_rank(2) [OF Cons.prems(1)], of k r]
  have "Max (insert (max (perm_rank m r) (role_rank rows k r)) ((\<lambda>k. role_rank rows k r) ` set ids))
      = Max (insert (perm_rank m r) ((\<lambda>k. role_rank rows k r) ` set (k # ids)))"
    by (simp add: Max_insert_max)
  with Cons.IH [OF Cons.prems(1), of "foldl union_level m (listForRole rows k)"] u listForRole_rank(1) [OF Cons.prems(1), of k r]
  show ?case by simp
qed simp

lemma listForRoles_rank:
  assumes "rows_valid rows"
  shows "perm_rank (listForRoles rows ids) r = Max (insert 0 ((\<lambda>k. role_rank rows k r) ` set ids))"
proof -
  consider "ids = []" | k where "ids = [k]" | "ids \<noteq> []" "length ids \<noteq> 1" by (cases ids rule: remdups_adj.cases) auto
  then show ?thesis
  proof cases
    case 1
    then show ?thesis by (simp add: listForRoles_def perm_rank_def)
  next
    case 2
    then show ?thesis using listForRole_rank(1) [OF assms] by (simp add: listForRoles_def)
  next
    case 3
    then show ?thesis using union_over_roles [OF assms valid_map_Nil, of ids r] by (simp add: listForRoles_def perm_rank_def)
  qed
qed

subsection \<open>What a role is given, and reads back\<close>

interpretation perm_rows: repository rp_id "find_row rp_id" "save_row rp_id" by (rule repository_rows)

definition perm_at :: "role_permission list \<Rightarrow> string \<Rightarrow> string \<Rightarrow> string option" where
  "perm_at rows roleId r =
     map_option (\<lambda>i. normalizePermissionLevel r (rp_level i))
       (List.find (\<lambda>i. rp_role_id i = roleId \<and> normalizeResource (rp_resource i) = r) rows)"

text \<open>Ids are unique and the role has one row per resource, counting aliases as one.\<close>

definition tidy :: "role_permission list \<Rightarrow> string \<Rightarrow> bool" where
  "tidy rows roleId \<longleftrightarrow> distinct (map rp_id rows)
     \<and> (\<forall>i\<in>set rows. \<forall>j\<in>set rows. rp_role_id i = roleId \<and> rp_role_id j = roleId
          \<and> normalizeResource (rp_resource i) = normalizeResource (rp_resource j) \<longrightarrow> i = j)"

lemma perm_at_None: "perm_at rows roleId r = None \<longleftrightarrow>
    (\<forall>i\<in>set rows. \<not> (rp_role_id i = roleId \<and> normalizeResource (rp_resource i) = r))"
  by (auto simp: perm_at_def find_None_iff)

lemma perm_at_Some:
  assumes "tidy rows roleId" "i \<in> set rows" "rp_role_id i = roleId" "normalizeResource (rp_resource i) = r"
  shows "perm_at rows roleId r = Some (normalizePermissionLevel r (rp_level i))"
proof -
  have "List.find (\<lambda>i. rp_role_id i = roleId \<and> normalizeResource (rp_resource i) = r) rows \<noteq> None"
    using assms(2-4) by (auto simp: find_None_iff)
  then obtain j where j: "List.find (\<lambda>i. rp_role_id i = roleId \<and> normalizeResource (rp_resource i) = r) rows = Some j" by blast
  then have "j \<in> set rows" "rp_role_id j = roleId" "normalizeResource (rp_resource j) = r" by (auto simp: find_Some_iff)
  with assms have "j = i" by (auto simp: tidy_def)
  with j show ?thesis by (simp add: perm_at_def)
qed

definition rank_opt :: "string option \<Rightarrow> nat" where
  "rank_opt l = (case l of None \<Rightarrow> 0 | Some x \<Rightarrow> level_rank x)"

lemma direct_rank_at:
  assumes "tidy rows roleId"
  shows "direct_rank rows roleId r = rank_opt (perm_at rows roleId r)"
proof (cases "perm_at rows roleId r")
  case None
  then have "{i \<in> set rows. rp_role_id i = roleId \<and> normalizeResource (rp_resource i) = r} = {}" by (auto simp: perm_at_None)
  with None show ?thesis by (simp only: direct_rank_def) (simp add: rank_opt_def)
next
  case (Some l)
  then obtain i where i: "i \<in> set rows" "rp_role_id i = roleId" "normalizeResource (rp_resource i) = r"
    using perm_at_None [of rows roleId r] by auto
  then have "{i \<in> set rows. rp_role_id i = roleId \<and> normalizeResource (rp_resource i) = r} = {i}"
    using assms by (auto simp: tidy_def)
  moreover have "row_rank i = rank_opt (perm_at rows roleId r)"
    using perm_at_Some [OF assms i] i(3) normalizeLevel_canonical [of "rp_resource i"] by (simp add: row_rank_def rank_opt_def)
  ultimately show ?thesis by (simp add: direct_rank_def)
qed

lemma valid_level_rank: "valid_level a \<Longrightarrow> LEVEL_RANK a = Some (level_rank a)"
  by (auto simp: valid_level_def level_rank_def with_default_def)

lemma level_rank_inj: "valid_level a \<Longrightarrow> valid_level b \<Longrightarrow> level_rank a = level_rank b \<Longrightarrow> a = b"
  using LEVEL_RANK_cases [of a "level_rank a"] LEVEL_RANK_cases [of b "level_rank b"] by (auto dest!: valid_level_rank)

lemma level_rank_pos: "valid_level a \<Longrightarrow> level_rank a > 0"
  using LEVEL_RANK_cases [of a "level_rank a"] by (auto dest!: valid_level_rank)

lemma lookup_by_rank:
  assumes "valid_map m" "pred_option valid_level x" "perm_rank m r = rank_opt x"
  shows "map_of m r = x"
proof (cases "map_of m r"; cases x)
  fix a b assume ab: "map_of m r = Some a" "x = Some b"
  with assms valid_map_lookup [OF assms(1) ab(1)] show "map_of m r = x" by (auto simp: perm_rank_def rank_opt_def intro: level_rank_inj)
qed (use assms valid_map_lookup [OF assms(1)] level_rank_pos in \<open>fastforce simp: perm_rank_def rank_opt_def\<close>)+

text \<open>Reading: the stored levels, and contacts for a role that has suppliers.\<close>

definition effective :: "(string \<Rightarrow> string option) \<Rightarrow> string \<Rightarrow> string option" where
  "effective f r = (if r = ''contacts'' \<and> f r = None \<and> 2 \<le> rank_opt (f ''suppliers'') then Some ''reader'' else f r)"

lemma perm_at_valid: "rows_valid rows \<Longrightarrow> pred_option valid_level (perm_at rows roleId r)"
  by (auto simp: perm_at_def rows_valid_def find_Some_iff pred_option_def valid_normalized)

lemma listForRole_at:
  assumes "tidy rows roleId" "rows_valid rows"
  shows "map_of (listForRole rows roleId) r = effective (perm_at rows roleId) r"
proof (rule lookup_by_rank)
  have one: "level_rank ''reader'' = 1" by (simp add: level_rank_def LEVEL_RANK_def with_default_def)
  have zero: "rank_opt (perm_at rows roleId k) = 0 \<longleftrightarrow> perm_at rows roleId k = None" for k
    using perm_at_valid [OF assms(2), of roleId k] level_rank_pos by (auto simp: rank_opt_def pred_option_def split: option.splits)
  show "perm_rank (listForRole rows roleId) r = rank_opt (effective (perm_at rows roleId) r)"
    unfolding listForRole_rank(1) [OF assms(2)] role_rank_def direct_rank_at [OF assms(1)] zero effective_def
    by (cases "r = ''contacts''") (simp_all add: one rank_opt_def [of "Some ''reader''"])
  show "pred_option valid_level (effective (perm_at rows roleId) r)"
    using perm_at_valid [OF assms(2)] by (simp add: effective_def)
qed (rule listForRole_rank(2) [OF assms(2)])

subsection \<open>Saving and deleting\<close>

text \<open>What the loops keep: the table stays tidy for the role, levels stay valid, coming uuids are unused.\<close>

definition sound :: "(nat \<Rightarrow> string) \<Rightarrow> string \<Rightarrow> perm_db \<Rightarrow> bool" where
  "sound uuid_of roleId s \<longleftrightarrow> tidy (pm_rows s) roleId \<and> rows_valid (pm_rows s)
     \<and> (\<forall>n\<ge>pm_minted s. uuid_of n \<notin> rp_id ` set (pm_rows s))"

lemma same_id: "distinct (map rp_id rows) \<Longrightarrow> i \<in> set rows \<Longrightarrow> j \<in> set rows \<Longrightarrow> rp_id i = rp_id j \<Longrightarrow> i = j"
  by (simp add: distinct_map inj_on_def)

lemma save_row_others:
  assumes "distinct (map rp_id rows)" "rp_role_id new = roleId" "\<forall>i\<in>set rows. rp_id i = rp_id new \<longrightarrow> rp_role_id i = roleId" "k \<noteq> roleId"
  shows "filter (\<lambda>i. rp_role_id i = k) (save_row rp_id new rows) = filter (\<lambda>i. rp_role_id i = k) rows"
proof (cases "rp_id new \<in> set (map rp_id rows)")
  case True
  have "filter (\<lambda>i. rp_role_id i = k) (map (\<lambda>x. if rp_id x = rp_id new then new else x) rows) = filter (\<lambda>i. rp_role_id i = k) rows"
    using assms(2-4) by (induction rows) auto
  with True show ?thesis by (simp only: save_row_def if_True)
next
  case False
  then show ?thesis using assms(2,4) by (simp only: save_row_def if_False) simp
qed

text \<open>A row \<open>new\<close> of the role saved over the role's row on the same resource, or added where there is none.\<close>

lemma saved_row:
  assumes tidy: "tidy rows roleId" and new: "rp_role_id new = roleId" "normalizeResource (rp_resource new) = r"
    and replaces: "\<forall>i\<in>set rows. rp_role_id i = roleId \<and> normalizeResource (rp_resource i) = r \<longleftrightarrow> rp_id i = rp_id new"
  shows "tidy (save_row rp_id new rows) roleId"
    and "perm_at (save_row rp_id new rows) roleId k
           = (if k = r then Some (normalizePermissionLevel r (rp_level new)) else perm_at rows roleId k)"
proof -
  let ?rows = "save_row rp_id new rows"
  have set: "set ?rows = insert new {x \<in> set rows. rp_id x \<noteq> rp_id new}" by (rule perm_rows.save_rows)
  have "distinct (map rp_id ?rows)" using tidy by (intro perm_rows.save_ids) (simp add: tidy_def)
  moreover have "i = j" if "i \<in> set ?rows" "j \<in> set ?rows" "rp_role_id i = roleId" "rp_role_id j = roleId"
      "normalizeResource (rp_resource i) = normalizeResource (rp_resource j)" for i j
    using that tidy new replaces unfolding set tidy_def by (metis (mono_tags, lifting) insertE mem_Collect_eq)
  ultimately show t: "tidy ?rows roleId" unfolding tidy_def by blast
  show "perm_at ?rows roleId k = (if k = r then Some (normalizePermissionLevel r (rp_level new)) else perm_at rows roleId k)"
  proof (cases "k = r")
    case True
    then show ?thesis using perm_at_Some [OF t _ new] set by simp
  next
    case False
    show ?thesis
    proof (cases "perm_at rows roleId k")
      case None
      then have "perm_at ?rows roleId k = None" using False new set by (auto simp: perm_at_None)
      with None False show ?thesis by simp
    next
      case (Some l)
      then obtain i where i: "i \<in> set rows" "rp_role_id i = roleId" "normalizeResource (rp_resource i) = k"
        using perm_at_None [of rows roleId k] by auto
      with False replaces have "rp_id i \<noteq> rp_id new" by blast
      with i set have "i \<in> set ?rows" by simp
      from perm_at_Some [OF t this i(2,3)] perm_at_Some [OF tidy i] False show ?thesis by simp
    qed
  qed
qed

lemma save_level_step:
  assumes sound: "sound uuid_of roleId s" and inj: "inj uuid_of" and r: "normalizeResource r = r" and l: "valid_level l"
  shows "sound uuid_of roleId (save_level uuid_of tenantId roleId s (r, l))"
    and "perm_at (pm_rows (save_level uuid_of tenantId roleId s (r, l))) roleId k
           = (if k = r then Some (normalizePermissionLevel r l) else perm_at (pm_rows s) roleId k)"
    and "j \<noteq> roleId \<Longrightarrow> filter (\<lambda>i. rp_role_id i = j) (pm_rows (save_level uuid_of tenantId roleId s (r, l)))
           = filter (\<lambda>i. rp_role_id i = j) (pm_rows s)"
proof -
  let ?rows = "pm_rows s"
  let ?found = "List.find (\<lambda>i. rp_role_id i = roleId \<and> rp_resource i \<in> set (aliasGroup r)) ?rows"
  have tidy: "tidy ?rows roleId" and valid: "rows_valid ?rows" and fresh: "\<forall>n\<ge>pm_minted s. uuid_of n \<notin> rp_id ` set ?rows"
    using sound by (simp_all add: sound_def)
  have ids: "distinct (map rp_id ?rows)" using tidy by (simp add: tidy_def)
  define new where "new = (case ?found of
      Some i \<Rightarrow> i\<lparr>rp_resource := r, rp_level := l, rp_tenant_id := tenantId\<rparr>
    | None \<Rightarrow> \<lparr> rp_id = uuid_of (pm_minted s), rp_tenant_id = tenantId, rp_role_id = roleId, rp_resource = r, rp_level = l \<rparr>)"
  define minted where "minted = (if ?found = None then Suc (pm_minted s) else pm_minted s)"
  have s': "save_level uuid_of tenantId roleId s (r, l) = s\<lparr>pm_rows := save_row rp_id new ?rows, pm_minted := minted\<rparr>"
    by (simp add: save_level_def new_def minted_def split: option.split)
  have found: "\<forall>i\<in>set ?rows. rp_role_id i = roleId \<and> normalizeResource (rp_resource i) = r \<longleftrightarrow> rp_id i = rp_id new"
    and new: "rp_role_id new = roleId" "normalizeResource (rp_resource new) = r" "rp_level new = l"
  proof -
    show "rp_role_id new = roleId" "normalizeResource (rp_resource new) = r" "rp_level new = l"
      using r by (auto simp: new_def find_Some_iff split: option.split)
    show "\<forall>i\<in>set ?rows. rp_role_id i = roleId \<and> normalizeResource (rp_resource i) = r \<longleftrightarrow> rp_id i = rp_id new"
    proof (cases ?found)
      case None
      then have "rp_id new \<notin> rp_id ` set ?rows" using fresh by (simp add: new_def)
      moreover from None r have "\<forall>i\<in>set ?rows. \<not> (rp_role_id i = roleId \<and> normalizeResource (rp_resource i) = r)"
        by (auto simp: find_None_iff aliasGroup_iff)
      ultimately show ?thesis by (metis image_eqI)
    next
      case (Some i)
      then have i: "i \<in> set ?rows" "rp_role_id i = roleId" "normalizeResource (rp_resource i) = r"
        using r by (auto simp: find_Some_iff aliasGroup_iff)
      moreover from Some have "rp_id new = rp_id i" by (simp only: new_def option.case) simp
      moreover note calculation
      ultimately show ?thesis using tidy same_id [OF ids _ i(1)] unfolding tidy_def by (metis (full_types))
    qed
  qed
  note step = saved_row [OF tidy new(1,2) found]
  have "rows_valid (save_row rp_id new ?rows)"
    using valid l new(3) unfolding rows_valid_def by (intro perm_rows.save_all) simp_all
  moreover have "uuid_of n \<notin> rp_id ` set (save_row rp_id new ?rows)" if "n \<ge> minted" for n
  proof -
    have "rp_id new \<in> rp_id ` set ?rows \<or> (rp_id new = uuid_of (pm_minted s) \<and> minted = Suc (pm_minted s))"
    proof (cases ?found)
      case (Some i)
      then have "i \<in> set ?rows" by (auto simp: find_Some_iff)
      moreover from Some have "rp_id new = rp_id i" by (simp only: new_def option.case) simp
      ultimately show ?thesis by simp
    qed (simp add: new_def minted_def)
    moreover from that have "n \<ge> pm_minted s" by (simp add: minted_def split: if_splits)
    with fresh have "uuid_of n \<notin> rp_id ` set ?rows" by blast
    moreover have "uuid_of n = uuid_of (pm_minted s) \<Longrightarrow> n = pm_minted s" using inj by (rule injD)
    ultimately have "uuid_of n \<noteq> rp_id new \<and> uuid_of n \<notin> rp_id ` set ?rows" using that by (metis Suc_n_not_le_n)
    then show ?thesis by (auto simp: perm_rows.save_rows)
  qed
  ultimately show "sound uuid_of roleId (save_level uuid_of tenantId roleId s (r, l))" using step(1) by (simp add: s' sound_def)
  show "perm_at (pm_rows (save_level uuid_of tenantId roleId s (r, l))) roleId k
           = (if k = r then Some (normalizePermissionLevel r l) else perm_at (pm_rows s) roleId k)"
    using step(2) new(3) by (simp add: s')
  show "filter (\<lambda>i. rp_role_id i = j) (pm_rows (save_level uuid_of tenantId roleId s (r, l)))
           = filter (\<lambda>i. rp_role_id i = j) (pm_rows s)" if "j \<noteq> roleId"
  proof -
    from found have "\<forall>i\<in>set ?rows. rp_id i = rp_id new \<longrightarrow> rp_role_id i = roleId" by blast
    from save_row_others [OF ids new(1) this that] show ?thesis by (simp add: s')
  qed
qed

lemma save_levels:
  "sound uuid_of roleId s \<Longrightarrow> inj uuid_of \<Longrightarrow> \<forall>(r, l)\<in>set xs. normalizeResource r = r \<and> valid_level l \<Longrightarrow>
   sound uuid_of roleId (foldl (save_level uuid_of tenantId roleId) s xs)
   \<and> perm_at (pm_rows (foldl (save_level uuid_of tenantId roleId) s xs)) roleId k
       = (case map_of (rev xs) k of None \<Rightarrow> perm_at (pm_rows s) roleId k | Some l \<Rightarrow> Some (normalizePermissionLevel k l))"
proof (induction xs arbitrary: s)
  case (Cons x xs)
  obtain r l where x: "x = (r, l)" by force
  with Cons.prems have "normalizeResource r = r" "valid_level l" by auto
  note step = save_level_step [OF Cons.prems(1,2) this, of tenantId]
  from Cons.IH [OF step(1) Cons.prems(2)] Cons.prems(3) step(2) [of k] show ?case
    by (auto simp: x map_add_def split: option.split)
qed simp

lemma save_levels_others:
  "sound uuid_of roleId s \<Longrightarrow> inj uuid_of \<Longrightarrow> \<forall>(r, l)\<in>set xs. normalizeResource r = r \<and> valid_level l \<Longrightarrow> j \<noteq> roleId \<Longrightarrow>
   filter (\<lambda>i. rp_role_id i = j) (pm_rows (foldl (save_level uuid_of tenantId roleId) s xs)) = filter (\<lambda>i. rp_role_id i = j) (pm_rows s)"
proof (induction xs arbitrary: s)
  case (Cons x xs)
  obtain r l where x: "x = (r, l)" by force
  with Cons.prems have "normalizeResource r = r" "valid_level l" by auto
  note step = save_level_step [OF Cons.prems(1,2) this, where tenantId = tenantId]
  from Cons.IH [OF step(1) Cons.prems(2) _ Cons.prems(4)] Cons.prems(3) step(3) [OF Cons.prems(4)] show ?case by (simp add: x)
qed simp

lemma delete_levels_rows: "pm_rows (delete_levels roleId ks s)
    = filter (\<lambda>i. \<not> (rp_role_id i = roleId \<and> rp_resource i \<in> set (concat (map aliasGroup ks)))) (pm_rows s)"
  by (simp add: delete_levels_def)

lemma delete_levels_at:
  "perm_at (pm_rows (delete_levels roleId ks s)) roleId r
     = (if r \<in> normalizeResource ` set ks then None else perm_at (pm_rows s) roleId r)"
proof (cases "r \<in> normalizeResource ` set ks")
  case True
  then have "ks \<noteq> []" by auto
  with True show ?thesis by (auto simp: delete_levels_def perm_at_None aliasGroup_iff)
next
  case False
  let ?P = "\<lambda>i. rp_role_id i = roleId \<and> normalizeResource (rp_resource i) = r"
  let ?Q = "\<lambda>i. \<not> (rp_role_id i = roleId \<and> rp_resource i \<in> set (concat (map aliasGroup ks)))"
  have "?P i \<Longrightarrow> ?Q i" for i using False by (auto simp: aliasGroup_iff)
  then have same: "List.find ?P (filter ?Q rows) = List.find ?P rows" for rows
    by (induction rows) auto
  have "perm_at (filter ?Q rows) roleId r = perm_at rows roleId r" for rows by (simp only: perm_at_def same)
  then show ?thesis using False by (simp only: delete_levels_rows if_False)
qed

lemma delete_levels_sound: "sound uuid_of roleId s \<Longrightarrow> sound uuid_of roleId (delete_levels roleId ks s)"
  by (auto simp: sound_def tidy_def rows_valid_def delete_levels_def distinct_map_filter)

lemma delete_levels_others: "j \<noteq> roleId \<Longrightarrow>
    filter (\<lambda>i. rp_role_id i = j) (pm_rows (delete_levels roleId ks s)) = filter (\<lambda>i. rp_role_id i = j) (pm_rows s)"
  by (auto simp: delete_levels_def intro!: filter_cong)


subsection \<open>What a request asks for\<close>

definition normalized_request :: "request \<Rightarrow> request" where
  "normalized_request permissions = map (\<lambda>(k, l). (normalizeResource k, l)) permissions"

definition requested :: "request \<Rightarrow> string \<Rightarrow> string option option" where
  "requested permissions r = map_of (normalized_request permissions) r"

definition saves :: "request \<Rightarrow> (string \<times> string) list" where
  "saves permissions = concat (map (\<lambda>(k, l). case l of None \<Rightarrow> []
     | Some x \<Rightarrow> [(normalizeResource k, normalizePermissionLevel (normalizeResource k) x)]) permissions)"

definition deletes :: "permission_map \<Rightarrow> request \<Rightarrow> string list" where
  "deletes current permissions = concat (map (\<lambda>(k, l). case l of None \<Rightarrow>
       if map_of current (normalizeResource k) \<noteq> None then [normalizeResource k] else [] | Some x \<Rightarrow> []) permissions)"

lemma sort_request_fold:
  "foldl (sort_request current) (A, B) permissions = (A @ saves permissions, B @ deletes current permissions)"
  by (induction permissions arbitrary: A B) (auto simp: sort_request_def saves_def deletes_def Let_def split: option.split)

lemma saves_iff: "(k, x) \<in> set (saves permissions)
    \<longleftrightarrow> (\<exists>l. (k, Some l) \<in> set (normalized_request permissions) \<and> x = normalizePermissionLevel k l)"
  by (force simp: saves_def normalized_request_def split: option.splits)

lemma deletes_iff: "k \<in> set (deletes current permissions)
    \<longleftrightarrow> (k, None) \<in> set (normalized_request permissions) \<and> map_of current k \<noteq> None"
  by (force simp: deletes_def normalized_request_def split: option.splits if_splits)

lemma requested_iff: "distinct (map fst (normalized_request permissions)) \<Longrightarrow>
    requested permissions r = Some l \<longleftrightarrow> (r, l) \<in> set (normalized_request permissions)"
  by (simp add: requested_def)

lemma saves_keys: "distinct (map fst (normalized_request permissions)) \<Longrightarrow> distinct (map fst (saves permissions))"
proof (induction permissions)
  case (Cons e permissions)
  obtain k l where e: "e = (k, l)" by force
  have "normalizeResource k \<notin> fst ` set (saves permissions)"
    using Cons.prems by (force simp: e saves_iff normalized_request_def)
  with Cons show ?case by (auto simp: e saves_def normalized_request_def split: option.split)
qed (simp add: saves_def)

definition well_formed :: "request \<Rightarrow> bool" where
  "well_formed permissions \<longleftrightarrow> distinct (map fst (normalized_request permissions))
     \<and> (\<forall>(k, l)\<in>set (normalized_request permissions). pred_option valid_level l)"

definition after :: "request \<Rightarrow> (string \<Rightarrow> string option) \<Rightarrow> string \<Rightarrow> string option" where
  "after permissions f r =
     (case requested permissions r of
        Some l \<Rightarrow> map_option (normalizePermissionLevel r) l
      | None \<Rightarrow> if r = ''tasks'' \<and> hasAnyOpsAccess permissions then Some ''reader'' else f r)"

lemma map_of_rev: "distinct (map fst xs) \<Longrightarrow> map_of (rev xs) = map_of xs"
  by (simp add: map_of_inject_set rev_map [symmetric])

lemma normalize_tasks: "normalizeResource k = ''tasks'' \<longleftrightarrow> k = ''tasks''" "''tasks'' = normalizeResource k \<longleftrightarrow> k = ''tasks''"
  using alias_sets by (auto simp: normalizeResource_cases REPORTING_def BUDGET_OPS_def)

lemma requested_tasks: "requested permissions ''tasks'' = map_of permissions ''tasks''"
  by (induction permissions) (auto simp: requested_def normalized_request_def normalize_tasks)

lemma normalized_key: "(k, l) \<in> set (normalized_request permissions) \<Longrightarrow> normalizeResource k = k"
  by (auto simp: normalized_request_def)

lemma well_formed_valid: "well_formed permissions \<Longrightarrow> (k, Some l) \<in> set (normalized_request permissions) \<Longrightarrow> valid_level l"
  by (fastforce simp: well_formed_def)

text \<open>What the loop saves, with the granted tasks level.\<close>

lemma saved_levels:
  fixes current :: permission_map
  assumes "well_formed permissions"
  defines "xs \<equiv> saves permissions @ tasks_grant permissions (deletes current permissions)"
  shows "\<forall>(r, l)\<in>set xs. normalizeResource r = r \<and> valid_level l"
    and "map_of (rev xs) r = (case requested permissions r of
           Some l \<Rightarrow> map_option (normalizePermissionLevel r) l
         | None \<Rightarrow> if r = ''tasks'' \<and> hasAnyOpsAccess permissions then Some ''reader'' else None)"
proof -
  have dist: "distinct (map fst (normalized_request permissions))" using assms by (simp add: well_formed_def)
  note iff = requested_iff [OF dist]
  have grant: "tasks_grant permissions (deletes current permissions)
      = (if hasAnyOpsAccess permissions \<and> requested permissions ''tasks'' = None then [(''tasks'', ''reader'')] else [])"
  proof -
    have "''tasks'' \<notin> set (deletes current permissions)" if "requested permissions ''tasks'' = None"
      using that iff [of "''tasks''" None] by (simp add: deletes_iff)
    then show ?thesis by (simp add: tasks_grant_def requested_tasks)
  qed
  have "valid_level (normalizePermissionLevel k l)" if "(k, Some l) \<in> set (normalized_request permissions)" for k l
    using that by (rule valid_normalized [OF well_formed_valid [OF assms(1)]])
  then show "\<forall>(r, l)\<in>set xs. normalizeResource r = r \<and> valid_level l"
    by (auto simp: xs_def grant saves_iff normalized_key)
  have keys: "''tasks'' \<notin> fst ` set (saves permissions)" if "requested permissions ''tasks'' = None"
    using that iff [of "''tasks''"] by (force simp: saves_iff)
  then have d: "distinct (map fst xs)" using saves_keys [OF dist] by (auto simp: xs_def grant)
  have saved: "map_of (saves permissions) r = (case requested permissions r of Some l \<Rightarrow> map_option (normalizePermissionLevel r) l | None \<Rightarrow> None)"
  proof (cases "map_of (saves permissions) r")
    case None
    then have "\<not> (\<exists>x. (r, x) \<in> set (saves permissions))" by (force simp: map_of_eq_None_iff)
    then have "(r, Some l) \<notin> set (normalized_request permissions)" for l by (auto simp: saves_iff)
    then have "requested permissions r \<noteq> Some (Some l)" for l by (simp add: iff)
    then have "requested permissions r = None \<or> requested permissions r = Some None" by (metis not_Some_eq)
    then show ?thesis using None by auto
  next
    case (Some x)
    then have "(r, x) \<in> set (saves permissions)" by (rule map_of_SomeD)
    then obtain l where "(r, Some l) \<in> set (normalized_request permissions)" "x = normalizePermissionLevel r l"
      by (auto simp: saves_iff)
    with Some show ?thesis by (simp flip: iff)
  qed
  show "map_of (rev xs) r = (case requested permissions r of
           Some l \<Rightarrow> map_option (normalizePermissionLevel r) l
         | None \<Rightarrow> if r = ''tasks'' \<and> hasAnyOpsAccess permissions then Some ''reader'' else None)"
    unfolding map_of_rev [OF d] by (auto simp: xs_def grant map_add_def saved split: option.split)
qed

lemma set_permissions:
  assumes role: "map_of (pm_roles s) roleId = Some tenantId" and sound: "sound uuid_of roleId s" and inj: "inj uuid_of"
    and wf: "well_formed permissions"
  obtains s' m where "setRolePermissionsMap uuid_of roleId permissions s = Inr (s', m)"
    and "\<And>r. map_of m r = effective (after permissions (perm_at (pm_rows s) roleId)) r"
    and "\<And>r. perm_at (pm_rows s') roleId r = after permissions (perm_at (pm_rows s) roleId) r"
    and "\<And>j. j \<noteq> roleId \<Longrightarrow> filter (\<lambda>i. rp_role_id i = j) (pm_rows s') = filter (\<lambda>i. rp_role_id i = j) (pm_rows s)"
    and "sound uuid_of roleId s'"
proof -
  define current where "current = listForRole (pm_rows s) roleId"
  define ks where "ks = deletes current permissions"
  define xs where "xs = saves permissions @ tasks_grant permissions ks"
  define s1 where "s1 = foldl (save_level uuid_of tenantId roleId) s xs"
  define s2 where "s2 = delete_levels roleId ks s1"
  let ?f = "perm_at (pm_rows s) roleId"
  note levels = saved_levels [OF wf, of current, folded ks_def, folded xs_def]
  have s1: "sound uuid_of roleId s1" "\<And>k. perm_at (pm_rows s1) roleId k = (case map_of (rev xs) k of None \<Rightarrow> ?f k | Some l \<Rightarrow> Some (normalizePermissionLevel k l))"
    using save_levels [OF sound inj levels(1), of tenantId] by (auto simp: s1_def)
  have s2: "sound uuid_of roleId s2" unfolding s2_def by (rule delete_levels_sound [OF s1(1)])
  have dist: "distinct (map fst (normalized_request permissions))" using wf by (simp add: well_formed_def)
  have ks: "r \<in> normalizeResource ` set ks \<longleftrightarrow> requested permissions r = Some None \<and> map_of current r \<noteq> None" for r
    using normalized_key by (force simp: ks_def deletes_iff requested_iff [OF dist])
  have "map_of current r = None \<Longrightarrow> ?f r = None" for r
    using listForRole_at [of "pm_rows s" roleId r] sound by (auto simp: current_def sound_def effective_def split: if_splits)
  then have at: "perm_at (pm_rows s2) roleId r = after permissions ?f r" for r
    unfolding s2_def delete_levels_at ks s1(2) levels(2) after_def
    by (auto simp: normalizePermissionLevel_def [of _ "''reader''"] split: option.split)
  have same: "perm_at (pm_rows s2) roleId = after permissions ?f" using at by (rule ext)
  have "setRolePermissionsMap uuid_of roleId permissions s = Inr (s2, listForRole (pm_rows s2) roleId)"
    using role by (simp add: setRolePermissionsMap_def sort_request_fold Let_def current_def ks_def xs_def s1_def s2_def)
  moreover have "map_of (listForRole (pm_rows s2) roleId) r = effective (after permissions ?f) r" for r
    using listForRole_at [of "pm_rows s2" roleId r] s2 by (simp add: sound_def same)
  moreover have "j \<noteq> roleId \<Longrightarrow> filter (\<lambda>i. rp_role_id i = j) (pm_rows s2) = filter (\<lambda>i. rp_role_id i = j) (pm_rows s)" for j
    using save_levels_others [OF sound inj levels(1), of j tenantId] by (simp add: s2_def s1_def delete_levels_others)
  ultimately show thesis using that at s2 by blast
qed


subsection \<open>Copying a role\<close>

text \<open>What reading a role yields is canonical: the keys and the levels are normalised and contacts is settled.\<close>

definition canonical_map :: "permission_map \<Rightarrow> bool" where
  "canonical_map m \<longleftrightarrow> (\<forall>r l. map_of m r = Some l \<longrightarrow> normalizeResource r = r \<and> normalizePermissionLevel r l = l)"

lemma canonical_update: "canonical_map m \<Longrightarrow> normalizeResource k = k \<Longrightarrow> normalizePermissionLevel k l = l \<Longrightarrow> canonical_map (AList.update k l m)"
  by (simp add: canonical_map_def)

lemma listForRole_canonical: "canonical_map (listForRole rows roleId)"
proof -
  have "canonical_map (foldl note_level m xs)" if "canonical_map m" for m xs
    using that by (induction xs arbitrary: m) (simp_all add: note_level_def Let_def canonical_update)
  from this [of "[]"] show ?thesis
    by (simp add: listForRole_def derive_contacts_def Let_def canonical_update normalizePermissionLevel_def canonical_map_def [of "[]"])
qed

lemma listForRole_settled:
  assumes "rows_valid rows"
  shows "effective (map_of (listForRole rows roleId)) = map_of (listForRole rows roleId)"
proof -
  have rank: "rank_opt (map_of (listForRole rows roleId) r) = role_rank rows roleId r" for r
    using listForRole_rank(1) [OF assms] by (simp add: perm_rank_def rank_opt_def)
  have "role_rank rows roleId ''suppliers'' < 2" if "map_of (listForRole rows roleId) ''contacts'' = None"
    using rank [of "''contacts''"] that by (simp add: rank_opt_def role_rank_def split: if_splits)
  then show ?thesis by (intro ext) (auto simp: effective_def rank)
qed

definition as_request :: "permission_map \<Rightarrow> request" where
  "as_request perms = map (\<lambda>(k, v). (k, Some v)) perms"

lemma map_of_as_request: "map_of (as_request perms) r = map_option Some (map_of perms r)"
  by (induction perms) (auto simp: as_request_def)

lemma as_request_canonical:
  assumes "valid_map perms" "canonical_map perms"
  shows "normalized_request (as_request perms) = as_request perms" "well_formed (as_request perms)"
proof -
  have "normalizeResource k = k" if "(k, v) \<in> set perms" for k v
    using assms map_of_is_SomeI [OF _ that] by (auto simp: valid_map_def canonical_map_def)
  then show n: "normalized_request (as_request perms) = as_request perms"
    by (auto simp: normalized_request_def as_request_def)
  show "well_formed (as_request perms)"
    unfolding well_formed_def n using assms(1) by (auto simp: as_request_def valid_map_def comp_def split_def)
qed

text \<open>The copy has the levels of the original, and reads tasks where the original does not and has one of
  the operations resources.\<close>

lemma copy_levels:
  fixes originalId :: string
  assumes role: "map_of (pm_roles s) copyId = Some tenantId" and new: "\<forall>i\<in>set (pm_rows s). rp_role_id i \<noteq> copyId"
    and sound: "sound uuid_of copyId s" and inj: "inj uuid_of"
  defines "perms \<equiv> listForRole (pm_rows s) originalId"
  obtains s' where "copy_permissions uuid_of originalId copyId s = Inr s'"
    and "\<And>r. map_of (listForRole (pm_rows s') copyId) r
           = (if r = ''tasks'' \<and> map_of perms r = None \<and> hasAnyOpsAccess (as_request perms) then Some ''reader'' else map_of perms r)"
proof (cases "perms = []")
  case True
  have "perm_at (pm_rows s) copyId = (\<lambda>_. None)" using new by (auto simp: perm_at_None)
  then have "map_of (listForRole (pm_rows s) copyId) r = None" for r
    using listForRole_at [of "pm_rows s" copyId r] sound by (simp add: sound_def effective_def rank_opt_def)
  moreover have "\<not> hasAnyOpsAccess (as_request [])" by (simp add: hasAnyOpsAccess_def as_request_def OPERATIONS_RESOURCES_def)
  ultimately show thesis using that [of s] True by (simp add: copy_permissions_def perms_def)
next
  case False
  have valid: "rows_valid (pm_rows s)" using sound by (simp add: sound_def)
  have v: "valid_map perms" "canonical_map perms" and settled: "effective (map_of perms) = map_of perms"
    unfolding perms_def by (rule listForRole_rank(2) [OF valid] listForRole_canonical listForRole_settled [OF valid])+
  note req = as_request_canonical [OF v]
  obtain s' m where s': "setRolePermissionsMap uuid_of copyId (as_request perms) s = Inr (s', m)"
    and at: "\<And>r. perm_at (pm_rows s') copyId r = after (as_request perms) (perm_at (pm_rows s) copyId) r"
    and sound': "sound uuid_of copyId s'"
    by (rule set_permissions [OF role sound inj req(2)]) blast
  have "perm_at (pm_rows s) copyId r = None" for r using new by (simp add: perm_at_None)
  then have at': "perm_at (pm_rows s') copyId r
      = (if r = ''tasks'' \<and> map_of perms r = None \<and> hasAnyOpsAccess (as_request perms) then Some ''reader'' else map_of perms r)" for r
    using v(2) by (auto simp: at after_def requested_def req(1) map_of_as_request canonical_map_def split: option.split)
  have "\<not> (map_of perms ''contacts'' = None \<and> 2 \<le> rank_opt (map_of perms ''suppliers''))"
  proof
    assume "map_of perms ''contacts'' = None \<and> 2 \<le> rank_opt (map_of perms ''suppliers'')"
    then show False using fun_cong [OF settled, of "''contacts''"] by (simp add: effective_def)
  qed
  then have "effective (perm_at (pm_rows s') copyId) r = perm_at (pm_rows s') copyId r" for r
    by (auto simp: effective_def at')
  then show thesis using that [of s'] False s' at' listForRole_at [of "pm_rows s'" copyId] sound'
    by (simp add: copy_permissions_def Let_def perms_def as_request_def sound_def)
qed

subsection \<open>The properties\<close>

text \<open>C24: the effective level of a user on a resource is the highest level that any one of their roles has on
  it: joining roles never lowers a level and never gives more than the best single role.\<close>

theorem union_is_highest_level:
  assumes "rows_valid rows"
  shows "perm_rank (listForRoles rows ids) r = Max (insert 0 ((\<lambda>k. perm_rank (listForRole rows k) r) ` set ids))"
  by (simp add: listForRoles_rank [OF assms] listForRole_rank(1) [OF assms])

definition sample_rows :: "role_permission list" where
  "sample_rows =
     [\<lparr> rp_id = ''p1'', rp_tenant_id = ''t1'', rp_role_id = ''viewer'', rp_resource = ''reports'', rp_level = ''reader'' \<rparr>,
      \<lparr> rp_id = ''p2'', rp_tenant_id = ''t1'', rp_role_id = ''editor'', rp_resource = ''reporting'', rp_level = ''member'' \<rparr>,
      \<lparr> rp_id = ''p3'', rp_tenant_id = ''t1'', rp_role_id = ''editor'', rp_resource = ''opex'', rp_level = ''reader'' \<rparr>]"

lemma sample_rows_valid: "rows_valid sample_rows"
  by (simp add: rows_valid_def sample_rows_def valid_level_def LEVEL_RANK_def)

theorem union_is_highest_level_witness:
  "perm_rank (listForRoles sample_rows [''viewer'', ''editor'']) ''reporting''
     = Max (insert 0 ((\<lambda>k. perm_rank (listForRole sample_rows k) ''reporting'') ` set [''viewer'', ''editor'']))"
  by (rule union_is_highest_level [OF sample_rows_valid])


definition sample_db :: perm_db where
  "sample_db = \<lparr> pm_roles = [(''viewer'', ''t1''), (''editor'', ''t1''), (''copy'', ''t1'')], pm_rows = sample_rows, pm_minted = 0 \<rparr>"

definition sample_uuid :: "nat \<Rightarrow> string" where
  "sample_uuid n = replicate (n + 3) CHR ''u''"

lemma sample_uuid_inj: "inj sample_uuid"
  by (auto simp: inj_def sample_uuid_def dest: arg_cong [where f = length])

lemma tidyI: "distinct (map rp_id rows) \<Longrightarrow> distinct (map (\<lambda>i. (rp_role_id i, normalizeResource (rp_resource i))) rows) \<Longrightarrow> tidy rows roleId"
  by (auto simp: tidy_def distinct_map inj_on_def)

lemma sample_sound: "sound sample_uuid roleId sample_db"
proof -
  have "distinct (map rp_id sample_rows)" "distinct (map (\<lambda>i. (rp_role_id i, normalizeResource (rp_resource i))) sample_rows)"
    "list_all (\<lambda>i. length (rp_id i) = 2) sample_rows"
    by code_simp+
  moreover from this have "sample_uuid n \<noteq> rp_id i" if "i \<in> set sample_rows" for n i
    using that by (force simp: sample_uuid_def list_all_iff dest: arg_cong [where f = length])
  ultimately show ?thesis using sample_rows_valid by (auto simp: sound_def sample_db_def intro: tidyI)
qed

definition sample_request :: request where
  "sample_request = [(''budget-ops'', Some ''admin''), (''opex'', None), (''capex'', Some ''member'')]"

lemma sample_well_formed: "well_formed sample_request"
  by (simp add: well_formed_def normalized_request_def sample_request_def normalizeResource_def RESOURCE_ALIASES_def
      valid_level_def LEVEL_RANK_def)


text \<open>Setting the permissions of one role leaves the permissions of every other role as they were.\<close>

theorem other_roles_untouched:
  assumes "map_of (pm_roles s) roleId = Some tenantId" and "sound uuid_of roleId s" and "inj uuid_of" and "well_formed permissions"
    and "j \<noteq> roleId"
  shows "\<exists>s' m. setRolePermissionsMap uuid_of roleId permissions s = Inr (s', m)
           \<and> listForRole (pm_rows s') j = listForRole (pm_rows s) j"
proof -
  obtain s' m where "setRolePermissionsMap uuid_of roleId permissions s = Inr (s', m)"
    "filter (\<lambda>i. rp_role_id i = j) (pm_rows s') = filter (\<lambda>i. rp_role_id i = j) (pm_rows s)"
    by (rule set_permissions [OF assms(1-4)]) (use assms(5) in blast)
  then show ?thesis by (auto simp: listForRole_def)
qed

theorem other_roles_untouched_witness:
  "\<exists>s' m. setRolePermissionsMap sample_uuid ''editor'' sample_request sample_db = Inr (s', m)
     \<and> listForRole (pm_rows s') ''viewer'' = listForRole (pm_rows sample_db) ''viewer''"
  by (rule other_roles_untouched [OF _ sample_sound sample_uuid_inj sample_well_formed, of _ "''t1''"]) (simp_all add: sample_db_def)

text \<open>C26: a duplicated role has exactly the levels of the original, and in addition reads tasks where the original
  has an operations resource and no level on tasks.\<close>

theorem duplicate_levels:
  assumes "map_of (pm_roles s) copyId = Some tenantId" and "\<forall>i\<in>set (pm_rows s). rp_role_id i \<noteq> copyId"
    and "sound uuid_of copyId s" and "inj uuid_of"
  shows "\<exists>s'. copy_permissions uuid_of originalId copyId s = Inr s' \<and>
    (\<forall>r. map_of (listForRole (pm_rows s') copyId) r
       = (if r = ''tasks'' \<and> map_of (listForRole (pm_rows s) originalId) r = None
             \<and> hasAnyOpsAccess (as_request (listForRole (pm_rows s) originalId))
          then Some ''reader'' else map_of (listForRole (pm_rows s) originalId) r))"
  by (rule copy_levels [OF assms, of originalId]) blast

theorem duplicate_levels_witness:
  "\<exists>s'. copy_permissions sample_uuid ''editor'' ''copy'' sample_db = Inr s' \<and>
    (\<forall>r. map_of (listForRole (pm_rows s') ''copy'') r
       = (if r = ''tasks'' \<and> map_of (listForRole (pm_rows sample_db) ''editor'') r = None
             \<and> hasAnyOpsAccess (as_request (listForRole (pm_rows sample_db) ''editor''))
          then Some ''reader'' else map_of (listForRole (pm_rows sample_db) ''editor'') r))"
  by (rule duplicate_levels [OF _ _ sample_sound sample_uuid_inj, of _ "''t1''"]) (simp_all add: sample_db_def sample_rows_def)

text \<open>A role without tasks whose duplicate reads tasks.\<close>

lemma duplicate_gains_tasks:
  "map_of (listForRole (pm_rows sample_db) ''editor'') ''tasks'' = None"
  "case copy_permissions sample_uuid ''editor'' ''copy'' sample_db of
     Inr s' \<Rightarrow> map_of (listForRole (pm_rows s') ''copy'') ''tasks'' = Some ''reader'' | Inl _ \<Rightarrow> False"
  by code_simp+

end
