(* ===== verification/Access.thy ===== *)
theory Access
  imports Settings Permissions
begin

section \<open>Who may use the AI, and for what (ai/ai-policy.service.ts, billing/subscription-freeze.util.ts)\<close>

subsection \<open>The subscription\<close>

record subscription =
  sub_tenant_id :: string
  sub_status :: "string option"
  sub_collection_method :: "string option"
  sub_current_period_end :: "int option"
  sub_trial_end :: "int option"
  sub_latest_invoice_created :: "int option"
  sub_days_until_due :: "int option"
  sub_created_at :: int

definition FREEZE_GRACE_DAYS :: int where "FREEZE_GRACE_DAYS = 14"
definition GRACE_MS :: int where "GRACE_MS = FREEZE_GRACE_DAYS * 86400000"

definition after_period :: "subscription \<Rightarrow> int option" where
  "after_period sub = map_option (\<lambda>t. t + GRACE_MS) (sub_current_period_end sub)"

definition computeFreezeEffectiveAt :: "subscription \<Rightarrow> int option" where
  "computeFreezeEffectiveAt sub =
     (if sub_collection_method sub = Some ''send_invoice''
      then (case (sub_latest_invoice_created sub, sub_days_until_due sub) of
              (Some created, Some days) \<Rightarrow> Some (created + days * 86400000 + GRACE_MS)
            | _ \<Rightarrow> after_period sub)
      else after_period sub)"

text \<open>Allowed, or the reason and the message.\<close>

type_synonym standing = "(string \<times> string) + unit"

definition evaluateSubscriptionAccess :: "subscription option \<Rightarrow> int \<Rightarrow> bool \<Rightarrow> standing" where
  "evaluateSubscriptionAccess subscription now stripeConfigured =
     (if \<not> stripeConfigured then Inr ()
      else case subscription of
        None \<Rightarrow> Inl (''SUBSCRIPTION_FROZEN'', ''No active subscription found.'')
      | Some sub \<Rightarrow>
          if sub_status sub = Some ''trialing''
          then (case sub_trial_end sub of
                  Some t \<Rightarrow> if t > now then Inr () else Inl (''TRIAL_EXPIRED'', ''Your trial has expired. Please choose a plan to continue.'')
                | None \<Rightarrow> Inl (''TRIAL_EXPIRED'', ''Your trial has expired. Please choose a plan to continue.''))
          else if sub_status sub = Some ''active'' then Inr ()
          else if sub_status sub = Some ''past_due''
          then (case computeFreezeEffectiveAt sub of
                  Some t \<Rightarrow> if t \<noteq> 0 \<and> now < t then Inr ()
                            else Inl (''SUBSCRIPTION_FROZEN'', ''Your subscription is frozen due to an overdue payment.'')
                | None \<Rightarrow> Inl (''SUBSCRIPTION_FROZEN'', ''Your subscription is frozen due to an overdue payment.''))
          else Inl (''SUBSCRIPTION_FROZEN'', ''Your subscription is not active.''))"

subsection \<open>Users and their roles\<close>

text \<open>Of a user, a role and a tenant, the columns read here.\<close>

record user_row =
  usr_id :: string
  usr_role_id :: "string option"
  usr_status :: string

record role_row =
  rol_id :: string
  rol_role_name :: string
  rol_is_system :: bool

record user_role_row =
  ur_user_id :: string
  ur_role_id :: string

record tenant_row =
  ten_id :: string
  ten_status :: string

record access_db =
  ad_models :: model_db
  ad_tenants :: "tenant_row list"
  ad_users :: "user_row list"
  ad_roles :: "role_row list"
  ad_user_roles :: "user_role_row list"
  ad_permissions :: "role_permission list"
  ad_subscriptions :: "subscription list"

record access_env =
  ae_models :: model_env
  ae_chat_enabled :: bool
  ae_mcp_enabled :: bool
  ae_settings_enabled :: bool
  ae_web_search_ready :: bool
  ae_stripe_configured :: bool

record access_context = exec_context +
  ctx_isPlatformHost :: bool
  ctx_agentId :: "string option"

type_synonym 'a aop = "(access_db, 'a) act"

definition on_models :: "'a mop \<Rightarrow> 'a aop" where
  "on_models m = (\<lambda>s. case m (ad_models s) of (d, r) \<Rightarrow> (s\<lparr>ad_models := d\<rparr>, r))"

record effective_state =
  es_isAdmin :: bool
  es_permissions :: permission_map

definition role_of :: "access_db \<Rightarrow> string option \<Rightarrow> role_row option" where
  "role_of s roleId = (case roleId of None \<Rightarrow> None | Some k \<Rightarrow> List.find (\<lambda>r. rol_id r = k) (ad_roles s))"

definition add_role :: "string list \<Rightarrow> string \<Rightarrow> string list" where
  "add_role ids k = (if k \<in> set ids then ids else ids @ [k])"

definition user_role_ids :: "user_row \<Rightarrow> user_role_row list \<Rightarrow> string list" where
  "user_role_ids user userRoles =
     foldl add_role (if truthy (usr_role_id user) then [the (usr_role_id user)] else []) (map ur_role_id userRoles)"

definition lower_role_name :: "role_row option \<Rightarrow> string" where
  "lower_role_name role = (case role of None \<Rightarrow> [] | Some r \<Rightarrow> js_lower (rol_role_name r))"

definition user_role_names :: "access_db \<Rightarrow> user_row \<Rightarrow> user_role_row list \<Rightarrow> string list" where
  "user_role_names s user userRoles =
     map (\<lambda>ur. lower_role_name (role_of s (Some (ur_role_id ur)))) userRoles
     @ (case role_of s (usr_role_id user) of
          Some r \<Rightarrow> if rol_role_name r \<noteq> [] then [js_lower (rol_role_name r)] else []
        | None \<Rightarrow> [])"

definition getEffectivePermissionStateOrNull :: "string \<Rightarrow> access_db \<Rightarrow> effective_state option" where
  "getEffectivePermissionStateOrNull userId s =
     (case List.find (\<lambda>u. usr_id u = userId) (ad_users s) of
        None \<Rightarrow> None
      | Some user \<Rightarrow>
          if usr_status user \<noteq> ''enabled'' then None
          else
            let role = role_of s (usr_role_id user) in
            if (case role of Some r \<Rightarrow> rol_is_system r | None \<Rightarrow> False) \<and> lower_role_name role \<noteq> ''administrator'' then None
            else
              let userRoles = filter (\<lambda>ur. ur_user_id ur = usr_id user) (ad_user_roles s);
                  isAdmin = (''administrator'' \<in> set (user_role_names s user userRoles))
              in Some \<lparr> es_isAdmin = isAdmin,
                        es_permissions = (if isAdmin then [] else listForRoles (ad_permissions s) (user_role_ids user userRoles)) \<rparr>)"

definition hasPermission :: "effective_state option \<Rightarrow> string \<Rightarrow> string \<Rightarrow> bool" where
  "hasPermission state resource minimumLevel \<longleftrightarrow>
     (case state of
        None \<Rightarrow> False
      | Some st \<Rightarrow>
          if es_isAdmin st then True
          else
            let current = map_of (es_permissions st) resource in
            truthy current \<and> level_rank (the current) \<ge> level_rank minimumLevel)"

definition NOT_ALLOWED :: ai_error where "NOT_ALLOWED = Forbidden ''User is not allowed to use AI.''"

definition missing_permission :: "string \<Rightarrow> string \<Rightarrow> ai_error" where
  "missing_permission resource minimumLevel = Forbidden (''Missing required permission '' @ resource @ '':'' @ minimumLevel @ ''.'')"

definition assertUserPermission :: "string \<Rightarrow> string \<Rightarrow> string \<Rightarrow> unit aop" where
  "assertUserPermission userId resource minimumLevel =
     obind (oread (getEffectivePermissionStateOrNull userId)) (\<lambda>state.
       case state of
         None \<Rightarrow> othrow NOT_ALLOWED
       | Some st \<Rightarrow>
           if es_isAdmin st then oret ()
           else
             let current = map_of (es_permissions st) resource in
             oguard (\<not> truthy current \<or> level_rank (the current) < level_rank minimumLevel)
               (missing_permission resource minimumLevel) (oret ()))"

subsection \<open>The guards of the AI entry points\<close>

definition HOST_ERROR :: ai_error where "HOST_ERROR = Forbidden ''AI is not available on the platform host.''"

definition feature_disabled :: "string \<Rightarrow> ai_error" where
  "feature_disabled feature = Coded ''FEATURE_DISABLED'' (feature @ '' is not available in this deployment.'')"

definition surface_resource :: "string \<Rightarrow> string" where
  "surface_resource surface = (if surface = ''chat'' then ''ai_chat'' else ''ai_mcp'')"

definition getSurfaceFeature :: "access_env \<Rightarrow> string \<Rightarrow> bool" where
  "getSurfaceFeature env surface =
     (if surface = ''chat'' then ae_chat_enabled env else if surface = ''mcp'' then ae_mcp_enabled env else False)"

definition find_tenant :: "string \<Rightarrow> access_db \<Rightarrow> tenant_row option" where
  "find_tenant tenantId s = List.find (\<lambda>t. ten_id t = tenantId) (ad_tenants s)"

definition assertTenantAvailable :: "string \<Rightarrow> unit aop" where
  "assertTenantAvailable tenantId =
     obind (oread (find_tenant tenantId)) (\<lambda>tenant.
       case tenant of
         None \<Rightarrow> othrow (Forbidden ''Tenant not found.'')
       | Some t \<Rightarrow> oguard (ten_status t \<noteq> ''active'')
           (Forbidden ''AI is not available for this tenant while it is inactive.'') (oret ()))"

definition latest_subscription :: "string \<Rightarrow> access_db \<Rightarrow> subscription option" where
  "latest_subscription tenantId s =
     (case sort_key (\<lambda>r. - sub_created_at r) (filter (\<lambda>r. sub_tenant_id r = tenantId) (ad_subscriptions s)) of
        [] \<Rightarrow> None | r # _ \<Rightarrow> Some r)"

definition subscription_decision :: "access_env \<Rightarrow> int \<Rightarrow> string \<Rightarrow> access_db \<Rightarrow> standing" where
  "subscription_decision env now tenantId s =
     evaluateSubscriptionAccess (if ae_stripe_configured env then latest_subscription tenantId s else None) now (ae_stripe_configured env)"

definition assertSubscriptionAllowsAi :: "access_env \<Rightarrow> int \<Rightarrow> string \<Rightarrow> unit aop" where
  "assertSubscriptionAllowsAi env now tenantId =
     obind (oread (subscription_decision env now tenantId)) (\<lambda>decision.
       case decision of Inl (reason, message) \<Rightarrow> othrow (Coded reason message) | Inr _ \<Rightarrow> oret ())"

definition chat_guard :: "access_env \<Rightarrow> int \<Rightarrow> access_context \<Rightarrow> ai_settings \<Rightarrow> unit aop" where
  "chat_guard env now ctx settings =
     oguard (\<not> set_chat_enabled settings) (Forbidden ''AI chat is disabled for this tenant.'')
       (obind (on_models
          (if truthy (ctx_agentId ctx) \<or> ctx_userId ctx = []
           then getProviderErrorsWithoutConfirmation (ae_models env) now settings
           else getProviderValidationErrors (ae_models env) now settings)) (\<lambda>providerErrors.
        oguard (providerErrors \<noteq> []) (Forbidden ''AI chat is not fully configured for this tenant.'') (oret ())))"

definition mcp_guard :: "access_env \<Rightarrow> int \<Rightarrow> ai_settings \<Rightarrow> unit aop" where
  "mcp_guard env now settings =
     oguard (\<not> set_mcp_enabled settings) (Forbidden ''AI MCP access is disabled for this tenant.'')
       (obind (on_models (getProviderErrorsWithoutConfirmation (ae_models env) now settings)) (\<lambda>providerErrors.
        oguard (providerErrors \<noteq> []) (Forbidden ''AI MCP is not fully configured for this tenant.'') (oret ())))"

definition assertSurfaceAccess :: "access_env \<Rightarrow> int \<Rightarrow> access_context \<Rightarrow> unit aop" where
  "assertSurfaceAccess env now ctx =
     oguard (ctx_isPlatformHost ctx) HOST_ERROR
       (oguard (\<not> getSurfaceFeature env (ctx_surface ctx)) (feature_disabled (surface_resource (ctx_surface ctx)))
         (obind (assertTenantAvailable (ctx_tenantId ctx)) (\<lambda>_.
          obind (assertSubscriptionAllowsAi env now (ctx_tenantId ctx)) (\<lambda>_.
          obind (on_models (get_ai_settings (ae_models env) now (ctx_tenantId ctx))) (\<lambda>settings.
          obind (if ctx_surface ctx = ''chat'' then chat_guard env now ctx settings
                 else if ctx_surface ctx = ''mcp'' then mcp_guard env now settings else oret ()) (\<lambda>_.
          assertUserPermission (ctx_userId ctx) (surface_resource (ctx_surface ctx)) ''reader''))))))"

definition assertKeyManagementAccess :: "access_env \<Rightarrow> access_context \<Rightarrow> unit aop" where
  "assertKeyManagementAccess env ctx =
     oguard (ctx_isPlatformHost ctx) HOST_ERROR
       (oguard (\<not> ae_mcp_enabled env) (feature_disabled ''ai_mcp'')
         (obind (assertTenantAvailable (ctx_tenantId ctx)) (\<lambda>_. assertUserPermission (ctx_userId ctx) ''ai_mcp'' ''reader'')))"

definition assertSettingsAccess :: "access_env \<Rightarrow> access_context \<Rightarrow> unit aop" where
  "assertSettingsAccess env ctx =
     oguard (ctx_isPlatformHost ctx) HOST_ERROR
       (oguard (\<not> ae_settings_enabled env) (feature_disabled ''ai_settings'')
         (obind (assertTenantAvailable (ctx_tenantId ctx)) (\<lambda>_. assertUserPermission (ctx_userId ctx) ''ai_settings'' ''admin'')))"

text \<open>The three guards of the agent and model pages share their beginning.\<close>

definition effective_or_throw :: "string \<Rightarrow> effective_state aop" where
  "effective_or_throw userId =
     obind (oread (getEffectivePermissionStateOrNull userId)) (\<lambda>state.
       case state of None \<Rightarrow> othrow NOT_ALLOWED | Some st \<Rightarrow> oret st)"

definition resolveModelConfigReadTier :: "access_env \<Rightarrow> int \<Rightarrow> access_context \<Rightarrow> string aop" where
  "resolveModelConfigReadTier env now ctx =
     oguard (ctx_isPlatformHost ctx) HOST_ERROR
       (oguard (\<not> ae_settings_enabled env) (feature_disabled ''ai_settings'')
         (obind (assertTenantAvailable (ctx_tenantId ctx)) (\<lambda>_.
          obind (effective_or_throw (ctx_userId ctx)) (\<lambda>state.
            if hasPermission (Some state) ''ai_settings'' ''admin'' then oret ''full''
            else if hasPermission (Some state) ''ai_agents'' ''admin''
            then obind (assertSubscriptionAllowsAi env now (ctx_tenantId ctx)) (\<lambda>_. oret ''assignment'')
            else othrow (missing_permission ''ai_settings'' ''admin'')))))"

definition assertAgentAccess :: "access_env \<Rightarrow> int \<Rightarrow> access_context \<Rightarrow> string \<Rightarrow> unit aop" where
  "assertAgentAccess env now ctx minimumLevel =
     oguard (ctx_isPlatformHost ctx) HOST_ERROR
       (oguard (\<not> ae_settings_enabled env) (feature_disabled ''ai_settings'')
         (obind (assertTenantAvailable (ctx_tenantId ctx)) (\<lambda>_.
          obind (assertSubscriptionAllowsAi env now (ctx_tenantId ctx)) (\<lambda>_.
          obind (effective_or_throw (ctx_userId ctx)) (\<lambda>state.
            if hasPermission (Some state) ''ai_settings'' ''admin'' then oret ()
            else if hasPermission (Some state) ''ai_agents'' minimumLevel then oret ()
            else othrow (missing_permission ''ai_agents'' minimumLevel))))))"

definition assertAgentRead :: "access_env \<Rightarrow> int \<Rightarrow> access_context \<Rightarrow> unit aop" where
  "assertAgentRead env now ctx = assertAgentAccess env now ctx ''reader''"

definition assertAgentOperate :: "access_env \<Rightarrow> int \<Rightarrow> access_context \<Rightarrow> unit aop" where
  "assertAgentOperate env now ctx = assertAgentAccess env now ctx ''contributor''"

definition assertAgentAdmin :: "access_env \<Rightarrow> int \<Rightarrow> access_context \<Rightarrow> unit aop" where
  "assertAgentAdmin env now ctx = assertAgentAccess env now ctx ''admin''"

subsection \<open>Access to data\<close>

definition ENTITY_RESOURCE :: "(string \<times> string) list" where
  "ENTITY_RESOURCE =
     [(''accounts'', ''accounts''), (''analytics_categories'', ''analytics''), (''applications'', ''applications''),
      (''assets'', ''infrastructure''), (''business_processes'', ''business_processes''), (''capex_items'', ''capex''),
      (''chart_of_accounts'', ''accounts''), (''companies'', ''companies''), (''connections'', ''infrastructure''),
      (''contacts'', ''contacts''), (''contracts'', ''contracts''), (''departments'', ''departments''),
      (''incidents'', ''incidents''), (''interfaces'', ''applications''), (''locations'', ''locations''),
      (''projects'', ''portfolio_projects''), (''requests'', ''portfolio_requests''), (''spend_items'', ''opex''),
      (''suppliers'', ''suppliers''), (''tasks'', ''tasks''), (''users'', ''users''), (''documents'', ''knowledge'')]"

definition AI_SEARCH_ENTITY_TYPES :: "string list" where
  "AI_SEARCH_ENTITY_TYPES =
     [''accounts'', ''analytics_categories'', ''applications'', ''assets'', ''business_processes'', ''capex_items'',
      ''chart_of_accounts'', ''companies'', ''connections'', ''contacts'', ''contracts'', ''departments'', ''documents'',
      ''incidents'', ''interfaces'', ''locations'', ''projects'', ''requests'', ''spend_items'', ''suppliers'', ''tasks'', ''users'']"

definition AI_CONTEXT_ENTITY_TYPES :: "string list" where
  "AI_CONTEXT_ENTITY_TYPES = [''applications'', ''assets'', ''projects'', ''requests'', ''tasks'']"

definition KNOWN_ENTITY_TYPES :: "string set" where
  "KNOWN_ENTITY_TYPES = set (AI_SEARCH_ENTITY_TYPES @ AI_CONTEXT_ENTITY_TYPES)"

definition entity_resource :: "string \<Rightarrow> string" where
  "entity_resource entityType = with_default ''undefined'' (map_of ENTITY_RESOURCE entityType)"

definition canReadKnowledge :: "access_context \<Rightarrow> bool aop" where
  "canReadKnowledge ctx =
     otry (obind (assertUserPermission (ctx_userId ctx) ''knowledge'' ''reader'') (\<lambda>_. oret True)) (\<lambda>_. oret False)"

definition assertBusinessPermission :: "access_env \<Rightarrow> int \<Rightarrow> access_context \<Rightarrow> string \<Rightarrow> string \<Rightarrow> unit aop" where
  "assertBusinessPermission env now ctx businessResource minimumLevel =
     obind (assertSurfaceAccess env now ctx) (\<lambda>_. assertUserPermission (ctx_userId ctx) businessResource minimumLevel)"

definition assertKnowledgeReadAccess :: "access_env \<Rightarrow> int \<Rightarrow> access_context \<Rightarrow> unit aop" where
  "assertKnowledgeReadAccess env now ctx =
     obind (assertSurfaceAccess env now ctx) (\<lambda>_. assertUserPermission (ctx_userId ctx) ''knowledge'' ''reader'')"

definition assertEntityTypeReadAccess :: "access_env \<Rightarrow> int \<Rightarrow> access_context \<Rightarrow> string \<Rightarrow> unit aop" where
  "assertEntityTypeReadAccess env now ctx entityType =
     assertBusinessPermission env now ctx (entity_resource entityType) ''reader''"

definition readable :: "access_context \<Rightarrow> string \<Rightarrow> string list aop" where
  "readable ctx entityType =
     (if entityType \<notin> KNOWN_ENTITY_TYPES then oret []
      else otry (obind (assertUserPermission (ctx_userId ctx) (entity_resource entityType) ''reader'') (\<lambda>_. oret [entityType]))
             (\<lambda>_. oret []))"

definition listReadableEntityTypes :: "access_env \<Rightarrow> int \<Rightarrow> access_context \<Rightarrow> string list \<Rightarrow> string list aop" where
  "listReadableEntityTypes env now ctx entityTypes =
     obind (assertSurfaceAccess env now ctx) (\<lambda>_. obind (omap (readable ctx) entityTypes) (\<lambda>found. oret (concat found)))"

definition assertWriteAccess :: "access_env \<Rightarrow> int \<Rightarrow> access_context \<Rightarrow> string \<Rightarrow> unit aop" where
  "assertWriteAccess env now ctx businessResource =
     oguard (ctx_surface ctx \<noteq> ''chat'') (Forbidden ''MCP write access is not available.'')
       (obind (assertSurfaceAccess env now ctx) (\<lambda>_.
        obind (assertUserPermission (ctx_userId ctx) ''ai_chat'' ''member'') (\<lambda>_.
        obind (assertUserPermission (ctx_userId ctx) businessResource ''member'') (\<lambda>_.
        assertSubscriptionAllowsAi env now (ctx_tenantId ctx)))))"

subsection \<open>What the user is told\<close>

record surface_capability =
  sc_feature_enabled :: bool
  sc_tenant_enabled :: bool
  sc_permission_granted :: bool
  sc_provider_ready :: bool
  sc_available :: bool
  sc_reasons :: "string list"

record ai_capabilities =
  cap_ai_chat :: bool
  cap_ai_mcp :: bool
  cap_ai_settings :: bool
  cap_ai_web_search :: bool
  cap_chat :: surface_capability
  cap_mcp :: surface_capability
  cap_settings :: surface_capability
  cap_builtin_confirmation_needed :: bool

definition reasons_of :: "(bool \<times> string) list \<Rightarrow> string list" where
  "reasons_of checks = map snd (filter fst checks)"

definition tenant_active :: "tenant_row option \<Rightarrow> bool" where
  "tenant_active tenant \<longleftrightarrow> (case tenant of Some t \<Rightarrow> ten_status t = ''active'' | None \<Rightarrow> False)"

definition buildSurfaceCapability ::
  "access_env \<Rightarrow> tenant_row option \<Rightarrow> effective_state option \<Rightarrow> string \<Rightarrow> bool \<Rightarrow> bool \<Rightarrow> bool \<Rightarrow> string \<Rightarrow> surface_capability" where
  "buildSurfaceCapability env tenant state surface tenantEnabled permissionGranted providerReady providerReason =
     (let featureEnabled = getSurfaceFeature env surface;
          reasons = reasons_of
            [(\<not> featureEnabled, ''feature_disabled''), (tenant = None, ''tenant_not_found''),
             (tenant \<noteq> None \<and> \<not> tenant_active tenant, ''tenant_inactive''), (\<not> tenantEnabled, ''tenant_disabled''),
             (\<not> providerReady, providerReason), (state = None, ''user_not_allowed''), (\<not> permissionGranted, ''permission_denied'')]
      in \<lparr> sc_feature_enabled = featureEnabled, sc_tenant_enabled = tenantEnabled, sc_permission_granted = permissionGranted,
           sc_provider_ready = providerReady, sc_available = (reasons = []), sc_reasons = reasons \<rparr>)"

text \<open>The settings page has no tenant switch and no provider: both are set to \<open>True\<close> here and are not shown.\<close>

definition buildSettingsCapability :: "access_env \<Rightarrow> tenant_row option \<Rightarrow> effective_state option \<Rightarrow> bool \<Rightarrow> surface_capability" where
  "buildSettingsCapability env tenant state permissionGranted =
     (let reasons = reasons_of
            [(\<not> ae_settings_enabled env, ''feature_disabled''), (tenant = None, ''tenant_not_found''),
             (tenant \<noteq> None \<and> \<not> tenant_active tenant, ''tenant_inactive''), (state = None, ''user_not_allowed''),
             (\<not> permissionGranted, ''permission_denied'')]
      in \<lparr> sc_feature_enabled = ae_settings_enabled env, sc_tenant_enabled = True, sc_permission_granted = permissionGranted,
           sc_provider_ready = True, sc_available = (reasons = []), sc_reasons = reasons \<rparr>)"

definition maybe :: "'a option \<Rightarrow> ('a \<Rightarrow> 'b mop) \<Rightarrow> 'b option mop" where
  "maybe v f = (case v of None \<Rightarrow> oret None | Some x \<Rightarrow> obind (f x) (\<lambda>y. oret (Some y)))"

text \<open>The model side of the answer: settings, readiness, readiness without the confirmation, and the pending confirmation.\<close>

definition capability_facts ::
  "model_env \<Rightarrow> int \<Rightarrow> string \<Rightarrow> bool \<Rightarrow> (ai_settings option \<times> readiness option \<times> bool \<times> bool \<times> bool) mop" where
  "capability_facts env now tenantId hasTenant =
     obind (if hasTenant then find_ai_settings env now tenantId else oret None) (\<lambda>settings.
     obind (maybe settings (getProviderReadiness env now)) (\<lambda>rd.
     let providerReady = (case rd of Some r \<Rightarrow> rd_errors r = [] | None \<Rightarrow> False) in
     obind (if providerReady then oret True
            else obind (maybe settings (getProviderErrorsWithoutConfirmation env now)) (\<lambda>errs. oret (errs = Some []))) (\<lambda>mcpProviderReady.
     obind (if hasTenant then isBuiltinConfirmationNeeded env now tenantId settings rd else oret False) (\<lambda>needed.
     oret (settings, rd, providerReady, mcpProviderReady, needed)))))"

definition getCapabilities :: "access_env \<Rightarrow> int \<Rightarrow> access_context \<Rightarrow> ai_capabilities aop" where
  "getCapabilities env now ctx =
     oguard (ctx_isPlatformHost ctx) HOST_ERROR
       (obind (oread (getEffectivePermissionStateOrNull (ctx_userId ctx))) (\<lambda>state.
        obind (oread (find_tenant (ctx_tenantId ctx))) (\<lambda>tenant.
        obind (on_models (capability_facts (ae_models env) now (ctx_tenantId ctx) (tenant \<noteq> None)))
          (\<lambda>(settings, rd, providerReady, mcpProviderReady, needed).
        oret \<lparr> cap_ai_chat = ae_chat_enabled env, cap_ai_mcp = ae_mcp_enabled env, cap_ai_settings = ae_settings_enabled env,
               cap_ai_web_search = ae_web_search_ready env,
               cap_chat = buildSurfaceCapability env tenant state ''chat'' (case settings of Some r \<Rightarrow> set_chat_enabled r | None \<Rightarrow> False)
                 (hasPermission state ''ai_chat'' ''reader'') providerReady
                 (if Option.bind rd rd_errorCode = Some ''builtin_not_accepted'' then ''builtin_not_accepted'' else ''provider_not_ready''),
               cap_mcp = buildSurfaceCapability env tenant state ''mcp'' (case settings of Some r \<Rightarrow> set_mcp_enabled r | None \<Rightarrow> False)
                 (hasPermission state ''ai_mcp'' ''reader'') mcpProviderReady ''provider_not_ready'',
               cap_settings = buildSettingsCapability env tenant state (hasPermission state ''ai_settings'' ''admin''),
               cap_builtin_confirmation_needed = needed \<rparr>))))"

subsection \<open>Lemmas\<close>

lemma on_models_apply: "on_models m s = (s\<lparr>ad_models := fst (m (ad_models s))\<rparr>, snd (m (ad_models s)))"
  by (simp add: on_models_def split: prod.split)

lemma assertUserPermission_eq:
  "assertUserPermission userId resource l s =
     (s, if getEffectivePermissionStateOrNull userId s = None then Inl NOT_ALLOWED
         else if hasPermission (getEffectivePermissionStateOrNull userId s) resource l then Inr ()
         else Inl (missing_permission resource l))"
  by (auto simp: assertUserPermission_def obind_apply oguard_apply hasPermission_def Let_def split: option.split)

lemma granted_user: "hasPermission st resource l \<Longrightarrow> st \<noteq> None"
  by (auto simp: hasPermission_def split: option.splits)

definition tenant_ok :: "string \<Rightarrow> access_db \<Rightarrow> bool" where
  "tenant_ok tenantId s \<longleftrightarrow> tenant_active (find_tenant tenantId s)"

lemma assertTenantAvailable_ok: "snd (assertTenantAvailable t s) = Inr () \<longleftrightarrow> tenant_ok t s"
  "fst (assertTenantAvailable t s) = s"
  by (auto simp: assertTenantAvailable_def obind_apply oguard_apply tenant_ok_def tenant_active_def split: option.split)

lemma assertSubscriptionAllowsAi_ok: "snd (assertSubscriptionAllowsAi env now t s) = Inr () \<longleftrightarrow> subscription_decision env now t s = Inr ()"
  "fst (assertSubscriptionAllowsAi env now t s) = s"
  by (auto simp: assertSubscriptionAllowsAi_def obind_apply split: sum.split)

text \<open>A step that throws or hands on: success is success of all steps.\<close>

lemma snd_obind_ok: "snd (obind m f s) = Inr b \<longleftrightarrow> (\<exists>a. snd (m s) = Inr a \<and> snd (f a (fst (m s))) = Inr b)"
  by (cases "m s"; cases "snd (m s)") (auto simp: obind_apply)

lemma snd_oguard_ok: "snd (oguard bad e m s) = Inr b \<longleftrightarrow> \<not> bad \<and> snd (m s) = Inr b"
  by (simp add: oguard_apply)

text \<open>Users, permissions and subscriptions do not depend on the model tables.\<close>

lemma models_apart [simp]:
  "getEffectivePermissionStateOrNull u (s\<lparr>ad_models := d\<rparr>) = getEffectivePermissionStateOrNull u s"
  "find_tenant t (s\<lparr>ad_models := d\<rparr>) = find_tenant t s" "subscription_decision env now t (s\<lparr>ad_models := d\<rparr>) = subscription_decision env now t s"
proof -
  have r: "role_of (s\<lparr>ad_models := d\<rparr>) = role_of s" by (auto simp: role_of_def split: option.split)
  have "user_role_names (s\<lparr>ad_models := d\<rparr>) = user_role_names s" by (intro ext) (simp add: user_role_names_def r)
  with r show "getEffectivePermissionStateOrNull u (s\<lparr>ad_models := d\<rparr>) = getEffectivePermissionStateOrNull u s"
    by (simp add: getEffectivePermissionStateOrNull_def cong: option.case_cong if_cong)
qed (simp_all add: find_tenant_def subscription_decision_def latest_subscription_def)

subsection \<open>Settings and readiness without their effects\<close>

definition seen_settings :: "model_env \<Rightarrow> int \<Rightarrow> ai_settings \<Rightarrow> ai_settings" where
  "seen_settings env now r =
     (let v = normalizeProviderSourceValue env (Some (set_provider_source r)) in
      if set_provider_source r = v then r else r\<lparr>set_provider_source := v, set_updated_at := now\<rparr>)"

lemma seen_settings_same [simp]:
  "set_tenant_id (seen_settings env now r) = set_tenant_id r" "set_chat_enabled (seen_settings env now r) = set_chat_enabled r"
  "set_mcp_enabled (seen_settings env now r) = set_mcp_enabled r"
  "set_chat_model_config_id (seen_settings env now r) = set_chat_model_config_id r"
  "set_builtin_accepted_key (seen_settings env now r) = set_builtin_accepted_key r"
  by (simp_all add: seen_settings_def Let_def)

lemma find_ai_settings_value: "snd (find_ai_settings env now t d) = Inr (map_option (seen_settings env now) (find_settings t d))"
  by (auto simp: find_ai_settings_def obind_apply normalizeProviderSource_def save_settings_def seen_settings_def Let_def split: option.split)

text \<open>What readiness sees of the tables.\<close>

definition view_of :: "int \<Rightarrow> model_db \<Rightarrow> ai_model_config list \<times> platform_ai_config option" where
  "view_of now d = (mdb_configs d, current_record now d)"

lemma record_apart [simp]: "current_record now (d\<lparr>mdb_settings := x\<rparr>) = current_record now d"
  "current_record now (d\<lparr>mdb_minted := n\<rparr>) = current_record now d"
  by (auto simp: current_record_def split: option.split)

lemma view_cached [simp]: "view_of now (cached now d) = view_of now d"
  by (simp add: view_of_def)

lemma find_ai_settings_view: "view_of now (fst (find_ai_settings env now t d)) = view_of now d"
  by (auto simp: find_ai_settings_def obind_apply normalizeProviderSource_def save_settings_def view_of_def Let_def split: option.split)

lemma get_ai_settings_value:
  "\<exists>r. snd (get_ai_settings env now t d) = Inr r \<and> r = (case find_settings t d of
       Some r0 \<Rightarrow> seen_settings env now r0 | None \<Rightarrow> new_settings env now t (ev_uuid env (mdb_minted d)))"
  using find_ai_settings_value [of env now t d]
  by (cases "find_settings t d")
    (auto simp: get_ai_settings_def obind_apply mint_model_def save_settings_def find_ai_settings_def split: prod.splits sum.splits)

lemma get_ai_settings_view: "view_of now (fst (get_ai_settings env now t d)) = view_of now d"
proof -
  obtain d1 o1 where f: "find_ai_settings env now t d = (d1, Inr o1)" using find_ai_settings_value [of env now t d] by (metis prod.collapse)
  with find_ai_settings_view [of now env t d] show ?thesis
    by (cases o1) (auto simp: get_ai_settings_def obind_apply mint_model_def save_settings_def view_of_def)
qed

text \<open>The chain reads the confirmation from its argument, or not at all.\<close>

lemma chain_view:
  assumes "view_of now d = view_of now d'" and "k \<noteq> None \<or> g = NoGate"
  shows "chain env now t a k g d = chain env now t a k g d'" "shown_identity env now d = shown_identity env now d'"
proof -
  have "usable_record now d = usable_record now d'" "assigned t a d = assigned t a d'" "default_config t d = default_config t d'"
    using assms(1) by (simp_all add: view_of_def usable_record_def assigned_def loadActiveConfig_def default_config_def findDefault_def)
  then show "chain env now t a k g d = chain env now t a k g d'" "shown_identity env now d = shown_identity env now d'"
    using assms(2) by (auto simp: chain_def shown_identity_def split: option.split)
qed

definition ready_errors :: "model_env \<Rightarrow> int \<Rightarrow> ai_settings \<Rightarrow> model_gate \<Rightarrow> model_db \<Rightarrow> string list" where
  "ready_errors env now r g d = rd_errors (ready_value (shown_identity env now d)
     (chain env now (set_tenant_id r) (set_chat_model_config_id r) (if g = Confirmed then Some (set_builtin_accepted_key r) else None) g d))"

lemma ready_errors_view: "view_of now d = view_of now d' \<Longrightarrow> ready_errors env now r g d = ready_errors env now r g d'"
  using chain_view [of now d d' "if g = Confirmed then Some (set_builtin_accepted_key r) else None" g env]
  by (cases g) (simp_all add: ready_errors_def)

lemma ready_errors_seen [simp]: "ready_errors env now (seen_settings env now' r) g d = ready_errors env now r g d"
  by (simp add: ready_errors_def)

lemma readiness_errors:
  "snd (getProviderReadiness env now r d) = Inr (ready_value (shown_identity env now d)
     (chain env now (set_tenant_id r) (set_chat_model_config_id r) (Some (set_builtin_accepted_key r)) Confirmed d))"
  "snd (getProviderValidationErrors env now r d) = Inr (ready_errors env now r Confirmed d)"
  "snd (getProviderErrorsWithoutConfirmation env now r d) = Inr (ready_errors env now r NoGate d)"
proof -
  show r: "snd (getProviderReadiness env now r d) = Inr (ready_value (shown_identity env now d)
     (chain env now (set_tenant_id r) (set_chat_model_config_id r) (Some (set_builtin_accepted_key r)) Confirmed d))"
    by (simp add: getProviderReadiness_def model_readiness_value)
  show "snd (getProviderValidationErrors env now r d) = Inr (ready_errors env now r Confirmed d)"
    by (simp add: getProviderValidationErrors_def snd_obind_ok r ready_errors_def)
  show "snd (getProviderErrorsWithoutConfirmation env now r d) = Inr (ready_errors env now r NoGate d)"
    by (simp add: getProviderErrorsWithoutConfirmation_def validationErrors_value ready_errors_def)
qed

lemma ready_confirmed: "ready_errors env now r Confirmed d = [] \<Longrightarrow> ready_errors env now r NoGate d = []"
  by (simp add: ready_errors_def) (rule ready_without_confirmation)



lemma resolve_builtin_view: "view_of now (fst (resolve_builtin env now t opts d)) = view_of now d"
  by (simp add: resolve_builtin_eq)

lemma readiness_view: "view_of now (fst (model_readiness env now t a k g d)) = view_of now d"
proof -
  have i: "view_of now (fst (builtin_identity env now d)) = view_of now d" for d
    by (auto simp: builtin_identity_def obind_apply getBuiltinRuntime_eq split: option.split)
  have r: "view_of now (fst (resolveForAssignment env now t a opts d)) = view_of now d" for d opts
    by (auto simp: resolveForAssignment_def resolve_builtin_view split: option.split)
  obtain d1 x where d1: "builtin_identity env now d = (d1, x)" by force
  obtain d2 y where d2: "resolveForAssignment env now t a \<lparr> ro_withSecrets = False, ro_acceptedKey = k, ro_gate = g \<rparr> d1 = (d2, y)" by force
  have "view_of now d1 = view_of now d" "view_of now d2 = view_of now d" using i [of d] r [of _ d1] d1 d2 by (metis fst_conv)+
  with d1 d2 show ?thesis
    by (cases x; cases y) (auto simp: model_readiness_def obind_apply otry_def split: ai_error.split)
qed

subsection \<open>The subscription over time\<close>

text \<open>A subscription that blocks the AI goes on blocking it, for the same reason, at every later instant, as long
  as its row does not change: a trial does not come back and a freeze does not end by waiting.\<close>

theorem frozen_stays_frozen:
  assumes "evaluateSubscriptionAccess sub t conf = Inl e" and "t \<le> t'"
  shows "evaluateSubscriptionAccess sub t' conf = Inl e"
proof -
  have conf: conf using assms(1) by (cases conf) (simp_all add: evaluateSubscriptionAccess_def)
  show ?thesis
  proof (cases sub)
    case None
    with conf assms show ?thesis by (simp add: evaluateSubscriptionAccess_def)
  next
    case (Some x)
    consider (trial) "sub_status x = Some ''trialing''" | (active) "sub_status x = Some ''active''"
      | (due) "sub_status x = Some ''past_due''" | (other) "sub_status x \<notin> {Some ''trialing'', Some ''active'', Some ''past_due''}"
      by blast
    then show ?thesis
    proof cases
      case trial
      with assms Some conf show ?thesis by (simp add: evaluateSubscriptionAccess_def split: option.split_asm if_split_asm)
    next
      case active
      with assms Some conf show ?thesis by (simp add: evaluateSubscriptionAccess_def)
    next
      case due
      with assms Some conf show ?thesis
        by (simp add: evaluateSubscriptionAccess_def split: option.split_asm if_split_asm) (elim disjE; simp)
    next
      case other
      with assms Some conf show ?thesis by (simp add: evaluateSubscriptionAccess_def)
    qed
  qed
qed

definition sample_subscription :: subscription where
  "sample_subscription =
     \<lparr> sub_tenant_id = ''t1'', sub_status = Some ''past_due'', sub_collection_method = Some ''send_invoice'',
       sub_current_period_end = Some 500, sub_trial_end = None, sub_latest_invoice_created = Some 100,
       sub_days_until_due = Some 30, sub_created_at = 1 \<rparr>"

theorem frozen_stays_frozen_witness:
  "evaluateSubscriptionAccess (Some sample_subscription) (3801600099 + 1) True
     = Inl (''SUBSCRIPTION_FROZEN'', ''Your subscription is frozen due to an overdue payment.'')
   \<and> evaluateSubscriptionAccess (Some sample_subscription) 9000000000 True
     = Inl (''SUBSCRIPTION_FROZEN'', ''Your subscription is frozen due to an overdue payment.'')"
proof -
  have f: "evaluateSubscriptionAccess (Some sample_subscription) (3801600099 + 1) True
     = Inl (''SUBSCRIPTION_FROZEN'', ''Your subscription is frozen due to an overdue payment.'')"
    by code_simp
  from f frozen_stays_frozen [OF f, of 9000000000] show ?thesis by simp
qed

subsection \<open>The guards as conditions\<close>

definition current_settings :: "model_env \<Rightarrow> int \<Rightarrow> string \<Rightarrow> model_db \<Rightarrow> ai_settings" where
  "current_settings env now t d = (case find_settings t d of
       Some r \<Rightarrow> seen_settings env now r | None \<Rightarrow> new_settings env now t (ev_uuid env (mdb_minted d)))"

text \<open>The gate a chat call passes: agent runs and system work need no confirmation.\<close>

definition chat_gate :: "access_context \<Rightarrow> model_gate" where
  "chat_gate ctx = (if truthy (ctx_agentId ctx) \<or> ctx_userId ctx = [] then NoGate else Confirmed)"

lemma chat_guard_ok:
  "snd (chat_guard env now ctx r s) = Inr ()
     \<longleftrightarrow> set_chat_enabled r \<and> ready_errors (ae_models env) now r (chat_gate ctx) (ad_models s) = []"
  by (auto simp: chat_guard_def snd_oguard_ok snd_obind_ok on_models_apply readiness_errors chat_gate_def oret_apply)

lemma mcp_guard_ok:
  "snd (mcp_guard env now r s) = Inr () \<longleftrightarrow> set_mcp_enabled r \<and> ready_errors (ae_models env) now r NoGate (ad_models s) = []"
  by (auto simp: mcp_guard_def snd_oguard_ok snd_obind_ok on_models_apply readiness_errors oret_apply)

text \<open>Only the model tables move.\<close>

definition only_models :: "access_db \<Rightarrow> access_db \<Rightarrow> bool" where
  "only_models s s' \<longleftrightarrow> s' = s\<lparr>ad_models := ad_models s'\<rparr>"

lemma only_models_same [simp]: "only_models s s"
  by (simp add: only_models_def)

lemma only_models_on [simp]: "only_models s (fst (on_models m s))"
  by (simp add: on_models_apply only_models_def)

lemma only_models_trans: "only_models s s' \<Longrightarrow> only_models s' s'' \<Longrightarrow> only_models s s''"
  unfolding only_models_def by (metis access_db.surjective access_db.update_convs(1))

lemma only_models_obind:
  "only_models s (fst (m s)) \<Longrightarrow> (\<And>a s'. only_models s' (fst (f a s'))) \<Longrightarrow> only_models s (fst (obind m f s))"
  by (cases "m s"; cases "snd (m s)") (auto simp: obind_apply intro: only_models_trans)

lemma only_models_oguard: "only_models s (fst (m s)) \<Longrightarrow> only_models s (fst (oguard bad e m s))"
  by (simp add: oguard_apply)

lemma only_models_apart:
  assumes "only_models s s'"
  shows "getEffectivePermissionStateOrNull u s' = getEffectivePermissionStateOrNull u s"
    and "find_tenant t s' = find_tenant t s" and "subscription_decision env now t s' = subscription_decision env now t s"
    and "tenant_ok t s' = tenant_ok t s"
  using assms models_apart [where s = s and d = "ad_models s'"] unfolding only_models_def tenant_ok_def by metis+

lemma guards_only_models: "only_models s (fst (chat_guard env now ctx r s))" "only_models s (fst (mcp_guard env now r s))"
  by (simp_all add: chat_guard_def mcp_guard_def only_models_oguard only_models_obind oret_apply)

lemma assertUserPermission_ok:
  "snd (assertUserPermission u resource l s) = Inr () \<longleftrightarrow> hasPermission (getEffectivePermissionStateOrNull u s) resource l"
  "fst (assertUserPermission u resource l s) = s"
  using granted_user [of "getEffectivePermissionStateOrNull u s" resource l] by (auto simp: assertUserPermission_eq)

lemma assertSurfaceAccess_only_models: "only_models s (fst (assertSurfaceAccess env now ctx s))"
  unfolding assertSurfaceAccess_def
  by (intro only_models_oguard only_models_obind)
    (auto simp: assertTenantAvailable_ok assertSubscriptionAllowsAi_ok guards_only_models assertUserPermission_ok oret_apply)

lemma current_settings_get: "snd (get_ai_settings env now t d) = Inr (current_settings env now t d)"
  using get_ai_settings_value [of env now t d] by (simp add: current_settings_def)

definition surface_ready :: "access_env \<Rightarrow> int \<Rightarrow> access_context \<Rightarrow> access_db \<Rightarrow> bool" where
  "surface_ready env now ctx s =
     (let r = current_settings (ae_models env) now (ctx_tenantId ctx) (ad_models s) in
      if ctx_surface ctx = ''chat''
      then set_chat_enabled r \<and> ready_errors (ae_models env) now r (chat_gate ctx) (ad_models s) = []
      else if ctx_surface ctx = ''mcp''
      then set_mcp_enabled r \<and> ready_errors (ae_models env) now r NoGate (ad_models s) = []
      else True)"

lemma assertSurfaceAccess_ok:
  "snd (assertSurfaceAccess env now ctx s) = Inr () \<longleftrightarrow>
     \<not> ctx_isPlatformHost ctx \<and> getSurfaceFeature env (ctx_surface ctx) \<and> tenant_ok (ctx_tenantId ctx) s
     \<and> subscription_decision env now (ctx_tenantId ctx) s = Inr () \<and> surface_ready env now ctx s
     \<and> hasPermission (getEffectivePermissionStateOrNull (ctx_userId ctx) s) (surface_resource (ctx_surface ctx)) ''reader''"
proof -
  let ?r = "current_settings (ae_models env) now (ctx_tenantId ctx) (ad_models s)"
  define s1 where "s1 = s\<lparr>ad_models := fst (get_ai_settings (ae_models env) now (ctx_tenantId ctx) (ad_models s))\<rparr>"
  define g where "g = (if ctx_surface ctx = ''chat'' then chat_guard env now ctx ?r
                 else if ctx_surface ctx = ''mcp'' then mcp_guard env now ?r else oret ())"
  have errs: "ready_errors (ae_models env) now ?r x (ad_models s1) = ready_errors (ae_models env) now ?r x (ad_models s)" for x
    by (rule ready_errors_view) (simp add: s1_def get_ai_settings_view)
  have o: "on_models (get_ai_settings (ae_models env) now (ctx_tenantId ctx)) s = (s1, Inr ?r)"
    by (simp add: on_models_apply s1_def current_settings_get)
  have gok: "snd (g s1) = Inr () \<longleftrightarrow> surface_ready env now ctx s"
    by (simp add: g_def surface_ready_def Let_def chat_guard_ok mcp_guard_ok errs oret_apply)
  have only: "only_models s (fst (g s1))"
  proof (rule only_models_trans)
    show "only_models s s1" by (simp add: s1_def only_models_def)
    show "only_models s1 (fst (g s1))" by (simp add: g_def guards_only_models oret_apply)
  qed
  show ?thesis
    unfolding assertSurfaceAccess_def
    by (auto simp: snd_oguard_ok snd_obind_ok assertTenantAvailable_ok assertSubscriptionAllowsAi_ok o g_def [symmetric] gok
        assertUserPermission_ok only_models_apart [OF only])
qed

subsection \<open>The answer and the guard\<close>

lemma reasons_none: "reasons_of checks = [] \<longleftrightarrow> (\<forall>c \<in> set checks. \<not> fst c)"
  by (auto simp: reasons_of_def filter_empty_conv)

lemma buildSurfaceCapability_available:
  "sc_available (buildSurfaceCapability env tenant state surface enabled granted ready reason)
     \<longleftrightarrow> getSurfaceFeature env surface \<and> tenant_active tenant \<and> enabled \<and> ready \<and> state \<noteq> None \<and> granted"
  by (cases tenant) (auto simp: buildSurfaceCapability_def Let_def reasons_none tenant_active_def)

lemma getProviderReadiness_view: "view_of now (fst (getProviderReadiness env now r d)) = view_of now d"
  by (simp add: getProviderReadiness_def readiness_view)

lemma errors_without_confirmation_view: "view_of now (fst (getProviderErrorsWithoutConfirmation env now r d)) = view_of now d"
proof -
  obtain d1 x where "model_readiness env now (set_tenant_id r) (set_chat_model_config_id r) None NoGate d = (d1, x)" by force
  with readiness_view [of now env "set_tenant_id r" "set_chat_model_config_id r" None NoGate d] show ?thesis
    by (cases x) (simp_all add: getProviderErrorsWithoutConfirmation_def validationErrors_def obind_apply oret_apply)
qed

definition shown_settings :: "model_env \<Rightarrow> int \<Rightarrow> string \<Rightarrow> bool \<Rightarrow> model_db \<Rightarrow> ai_settings option" where
  "shown_settings env now t has d = (if has then map_option (seen_settings env now) (find_settings t d) else None)"

lemma maybe_value:
  "snd (maybe None f d) = Inr None" "snd (f x d) = Inr y \<Longrightarrow> snd (maybe (Some x) f d) = Inr (Some y)"
  by (simp_all add: maybe_def oret_apply snd_obind_ok)

lemma maybe_fst: "fst (maybe (Some x) f d) = fst (f x d)" "fst (maybe None f d) = d"
  by (simp_all add: maybe_def oret_apply obind_apply split: prod.split sum.split)

lemma isBuiltinConfirmationNeeded_total: "\<exists>b. snd (isBuiltinConfirmationNeeded env now t settings rd d) = Inr b"
proof -
  have "\<exists>x. snd (getFallbackReadiness env now t settings rd d) = Inr x"
    by (auto simp: getFallbackReadiness_def model_readiness_value oret_apply split: option.split)
  then show ?thesis by (auto simp: isBuiltinConfirmationNeeded_def snd_obind_ok oret_apply oread_apply)
qed

lemma capability_facts_value:
  "\<exists>rd needed. snd (capability_facts env now t has d) = Inr (shown_settings env now t has d, rd,
      (\<exists>r. shown_settings env now t has d = Some r \<and> ready_errors env now r Confirmed d = []),
      (\<exists>r. shown_settings env now t has d = Some r \<and> ready_errors env now r NoGate d = []), needed)"
proof -
  let ?st = "shown_settings env now t has d"
  define m0 where "m0 = (if has then find_ai_settings env now t else oret None)"
  define d0 where "d0 = fst (m0 d)"
  have m0: "m0 d = (d0, Inr ?st)" and v0: "view_of now d0 = view_of now d"
    by (simp_all add: m0_def d0_def prod_eq_iff find_ai_settings_value find_ai_settings_view shown_settings_def oret_apply)
  define d1 where "d1 = fst (maybe ?st (getProviderReadiness env now) d0)"
  define rd where "rd = map_option (\<lambda>r. ready_value (shown_identity env now d0)
     (chain env now (set_tenant_id r) (set_chat_model_config_id r) (Some (set_builtin_accepted_key r)) Confirmed d0)) ?st"
  have m1: "maybe ?st (getProviderReadiness env now) d0 = (d1, Inr rd)"
    by (cases ?st) (simp_all add: prod_eq_iff d1_def rd_def maybe_value readiness_errors)
  have v1: "view_of now d1 = view_of now d"
    by (cases ?st) (simp_all add: d1_def maybe_fst getProviderReadiness_view v0)
  let ?pr = "case rd of Some r \<Rightarrow> rd_errors r = [] | None \<Rightarrow> False"
  have pr: "?pr \<longleftrightarrow> (\<exists>r. ?st = Some r \<and> ready_errors env now r Confirmed d = [])"
    using ready_errors_view [OF v0, of env _ Confirmed] by (cases ?st) (simp_all add: rd_def ready_errors_def)
  define m2 where "m2 = (if ?pr then oret True
            else obind (maybe ?st (getProviderErrorsWithoutConfirmation env now)) (\<lambda>errs. oret (errs = Some [])))"
  have "\<exists>d2. m2 d1 = (d2, Inr (\<exists>r. ?st = Some r \<and> ready_errors env now r NoGate d = []))"
  proof (cases "?pr")
    case True
    with pr ready_confirmed show ?thesis by (auto simp: m2_def oret_apply)
  next
    case False
    have "snd (maybe ?st (getProviderErrorsWithoutConfirmation env now) d1) = Inr (map_option (\<lambda>r. ready_errors env now r NoGate d) ?st)"
      using ready_errors_view [OF v1, of env _ NoGate] by (cases ?st) (simp_all add: maybe_value readiness_errors)
    then have "snd (m2 d1) = Inr (\<exists>r. ?st = Some r \<and> ready_errors env now r NoGate d = [])"
      using False by (cases ?st) (auto simp: m2_def snd_obind_ok oret_apply)
    then show ?thesis by (metis prod.collapse)
  qed
  then obtain d2 where m2: "m2 d1 = (d2, Inr (\<exists>r. ?st = Some r \<and> ready_errors env now r NoGate d = []))" by blast
  define m3 where "m3 = (if has then isBuiltinConfirmationNeeded env now t ?st rd else oret False)"
  have "\<exists>b. snd (m3 d2) = Inr b" by (auto simp: m3_def oret_apply isBuiltinConfirmationNeeded_total)
  then obtain b d3 where m3: "m3 d2 = (d3, Inr b)" by (metis prod.collapse)
  have "snd (capability_facts env now t has d) = Inr (?st, rd, ?pr, (\<exists>r. ?st = Some r \<and> ready_errors env now r NoGate d = []), b)"
    using m0 m1 m2 m3 unfolding capability_facts_def m0_def m2_def m3_def Let_def by (simp add: obind_apply oret_apply)
  with pr show ?thesis by auto
qed

lemma getCapabilities_surfaces:
  fixes ctx :: access_context and s :: access_db and env :: access_env and now :: int
  assumes "\<not> ctx_isPlatformHost ctx"
  defines "st \<equiv> getEffectivePermissionStateOrNull (ctx_userId ctx) s"
    and "shown \<equiv> shown_settings (ae_models env) now (ctx_tenantId ctx) (find_tenant (ctx_tenantId ctx) s \<noteq> None) (ad_models s)"
  shows "\<exists>caps. snd (getCapabilities env now ctx s) = Inr caps
    \<and> (sc_available (cap_chat caps) \<longleftrightarrow> ae_chat_enabled env \<and> tenant_ok (ctx_tenantId ctx) s
        \<and> (\<exists>r. shown = Some r \<and> set_chat_enabled r \<and> ready_errors (ae_models env) now r Confirmed (ad_models s) = [])
        \<and> hasPermission st ''ai_chat'' ''reader'')
    \<and> (sc_available (cap_mcp caps) \<longleftrightarrow> ae_mcp_enabled env \<and> tenant_ok (ctx_tenantId ctx) s
        \<and> (\<exists>r. shown = Some r \<and> set_mcp_enabled r \<and> ready_errors (ae_models env) now r NoGate (ad_models s) = [])
        \<and> hasPermission st ''ai_mcp'' ''reader'')"
proof -
  obtain rd needed where f: "snd (capability_facts (ae_models env) now (ctx_tenantId ctx) (find_tenant (ctx_tenantId ctx) s \<noteq> None) (ad_models s))
      = Inr (shown, rd, (\<exists>r. shown = Some r \<and> ready_errors (ae_models env) now r Confirmed (ad_models s) = []),
             (\<exists>r. shown = Some r \<and> ready_errors (ae_models env) now r NoGate (ad_models s) = []), needed)"
    using capability_facts_value unfolding shown_def by blast
  have "\<exists>caps reason. snd (getCapabilities env now ctx s) = Inr caps
    \<and> cap_chat caps = buildSurfaceCapability env (find_tenant (ctx_tenantId ctx) s) st ''chat''
        (case shown of Some r \<Rightarrow> set_chat_enabled r | None \<Rightarrow> False) (hasPermission st ''ai_chat'' ''reader'')
        (\<exists>r. shown = Some r \<and> ready_errors (ae_models env) now r Confirmed (ad_models s) = []) reason
    \<and> cap_mcp caps = buildSurfaceCapability env (find_tenant (ctx_tenantId ctx) s) st ''mcp''
        (case shown of Some r \<Rightarrow> set_mcp_enabled r | None \<Rightarrow> False) (hasPermission st ''ai_mcp'' ''reader'')
        (\<exists>r. shown = Some r \<and> ready_errors (ae_models env) now r NoGate (ad_models s) = []) ''provider_not_ready''"
    using assms(1) unfolding getCapabilities_def
    by (simp add: oguard_apply obind_apply oread_apply on_models_apply f st_def [symmetric] oret_apply del: not_None_eq) blast
  then show ?thesis
    using granted_user [of st]
    by (elim exE conjE) (auto simp: buildSurfaceCapability_available tenant_ok_def getSurfaceFeature_def split: option.splits)
qed

lemma settings_shown:
  assumes "tenant_ok t s"
  shows "(\<exists>r. shown_settings env now t (find_tenant t s \<noteq> None) d = Some r \<and> set_chat_enabled r \<and> ready_errors env now r g d = [])
      \<longleftrightarrow> set_chat_enabled (current_settings env now t d) \<and> ready_errors env now (current_settings env now t d) g d = []"
    and "(\<exists>r. shown_settings env now t (find_tenant t s \<noteq> None) d = Some r \<and> set_mcp_enabled r \<and> ready_errors env now r g d = [])
      \<longleftrightarrow> set_mcp_enabled (current_settings env now t d) \<and> ready_errors env now (current_settings env now t d) g d = []"
proof -
  have "find_tenant t s \<noteq> None" using assms by (cases "find_tenant t s") (simp_all add: tenant_ok_def tenant_active_def)
  then show "(\<exists>r. shown_settings env now t (find_tenant t s \<noteq> None) d = Some r \<and> set_chat_enabled r \<and> ready_errors env now r g d = [])
      \<longleftrightarrow> set_chat_enabled (current_settings env now t d) \<and> ready_errors env now (current_settings env now t d) g d = []"
    "(\<exists>r. shown_settings env now t (find_tenant t s \<noteq> None) d = Some r \<and> set_mcp_enabled r \<and> ready_errors env now r g d = [])
      \<longleftrightarrow> set_mcp_enabled (current_settings env now t d) \<and> ready_errors env now (current_settings env now t d) g d = []"
    by (cases "find_settings t d"; simp add: shown_settings_def current_settings_def new_settings_def)+
qed

lemma capabilities_and_guard:
  assumes "\<not> ctx_isPlatformHost ctx" and "chat_gate ctx = Confirmed"
  shows "\<exists>caps. snd (getCapabilities env now ctx s) = Inr caps
    \<and> (ctx_surface ctx = ''chat'' \<longrightarrow>
        (snd (assertSurfaceAccess env now ctx s) = Inr ()
         \<longleftrightarrow> sc_available (cap_chat caps) \<and> subscription_decision env now (ctx_tenantId ctx) s = Inr ()))
    \<and> (ctx_surface ctx = ''mcp'' \<longrightarrow>
        (snd (assertSurfaceAccess env now ctx s) = Inr ()
         \<longleftrightarrow> sc_available (cap_mcp caps) \<and> subscription_decision env now (ctx_tenantId ctx) s = Inr ()))"
proof -
  note caps = getCapabilities_surfaces [OF assms(1), of env now s]
  obtain c where c: "snd (getCapabilities env now ctx s) = Inr c"
    and chat: "sc_available (cap_chat c) \<longleftrightarrow> ae_chat_enabled env \<and> tenant_ok (ctx_tenantId ctx) s
        \<and> (set_chat_enabled (current_settings (ae_models env) now (ctx_tenantId ctx) (ad_models s))
           \<and> ready_errors (ae_models env) now (current_settings (ae_models env) now (ctx_tenantId ctx) (ad_models s)) Confirmed (ad_models s) = [])
        \<and> hasPermission (getEffectivePermissionStateOrNull (ctx_userId ctx) s) ''ai_chat'' ''reader''"
    and mcp: "sc_available (cap_mcp c) \<longleftrightarrow> ae_mcp_enabled env \<and> tenant_ok (ctx_tenantId ctx) s
        \<and> (set_mcp_enabled (current_settings (ae_models env) now (ctx_tenantId ctx) (ad_models s))
           \<and> ready_errors (ae_models env) now (current_settings (ae_models env) now (ctx_tenantId ctx) (ad_models s)) NoGate (ad_models s) = [])
        \<and> hasPermission (getEffectivePermissionStateOrNull (ctx_userId ctx) s) ''ai_mcp'' ''reader''"
    using caps settings_shown by blast
  have "ctx_surface ctx = ''chat'' \<Longrightarrow> snd (assertSurfaceAccess env now ctx s) = Inr ()
         \<longleftrightarrow> sc_available (cap_chat c) \<and> subscription_decision env now (ctx_tenantId ctx) s = Inr ()"
    using assms(1) by (auto simp: assertSurfaceAccess_ok surface_ready_def Let_def assms(2) chat getSurfaceFeature_def surface_resource_def)
  moreover have "ctx_surface ctx = ''mcp'' \<Longrightarrow> snd (assertSurfaceAccess env now ctx s) = Inr ()
         \<longleftrightarrow> sc_available (cap_mcp c) \<and> subscription_decision env now (ctx_tenantId ctx) s = Inr ()"
    using assms(1) by (auto simp: assertSurfaceAccess_ok surface_ready_def Let_def mcp getSurfaceFeature_def surface_resource_def)
  ultimately show ?thesis using c by blast
qed

text \<open>C33: what a user is told agrees with what the guard does: for a signed-in user off the platform host the
  capabilities can always be told, and a chat or MCP call passes the guard of its surface exactly when that surface is
  shown as available and the subscription allows the AI. The guard can create the settings row of the workspace on the
  way, and what is shown does not.\<close>

theorem capabilities_match_guard:
  assumes "\<not> ctx_isPlatformHost ctx" and "ctx_userId ctx \<noteq> []" and "ctx_agentId ctx = None"
  shows "\<exists>caps. snd (getCapabilities env now ctx s) = Inr caps
    \<and> (ctx_surface ctx = ''chat'' \<longrightarrow>
        (snd (assertSurfaceAccess env now ctx s) = Inr ()
         \<longleftrightarrow> sc_available (cap_chat caps) \<and> subscription_decision env now (ctx_tenantId ctx) s = Inr ()))
    \<and> (ctx_surface ctx = ''mcp'' \<longrightarrow>
        (snd (assertSurfaceAccess env now ctx s) = Inr ()
         \<longleftrightarrow> sc_available (cap_mcp caps) \<and> subscription_decision env now (ctx_tenantId ctx) s = Inr ()))"
  by (rule capabilities_and_guard) (simp_all add: assms chat_gate_def truthy_def)

definition sample_access_env :: access_env where
  "sample_access_env = \<lparr> ae_models = sample_env, ae_chat_enabled = True, ae_mcp_enabled = True, ae_settings_enabled = True,
     ae_web_search_ready = False, ae_stripe_configured = True \<rparr>"

definition sample_access :: access_db where
  "sample_access = \<lparr> ad_models = sample_models, ad_tenants = [\<lparr> ten_id = ''t1'', ten_status = ''active'' \<rparr>],
     ad_users = [\<lparr> usr_id = ''u1'', usr_role_id = Some ''r1'', usr_status = ''enabled'' \<rparr>],
     ad_roles = [\<lparr> rol_id = ''r1'', rol_role_name = ''Buyer'', rol_is_system = False \<rparr>], ad_user_roles = [],
     ad_permissions = [\<lparr> rp_id = ''p1'', rp_tenant_id = ''t1'', rp_role_id = ''r1'', rp_resource = ''ai_chat'', rp_level = ''member'' \<rparr>,
       \<lparr> rp_id = ''p2'', rp_tenant_id = ''t1'', rp_role_id = ''r1'', rp_resource = ''tasks'', rp_level = ''member'' \<rparr>],
     ad_subscriptions = [sample_subscription] \<rparr>"

definition sample_access_context :: access_context where
  "sample_access_context = \<lparr> ctx_tenantId = ''t1'', ctx_userId = ''u1'', ctx_surface = ''chat'', ctx_conversationId = None,
     ctx_requestId = None, ctx_aiApiKeyId = None, ctx_isPlatformHost = False, ctx_agentId = None \<rparr>"

lemma sample_access_passes:
  "snd (assertSurfaceAccess sample_access_env 1000 sample_access_context sample_access) = Inr ()"
  by code_simp

theorem capabilities_match_guard_witness:
  "\<exists>caps. snd (getCapabilities sample_access_env 1000 sample_access_context sample_access) = Inr caps \<and> sc_available (cap_chat caps)"
proof -
  have "\<not> ctx_isPlatformHost sample_access_context" "ctx_userId sample_access_context \<noteq> []"
    "ctx_agentId sample_access_context = None" "ctx_surface sample_access_context = ''chat''"
    by (simp_all add: sample_access_context_def)
  with capabilities_match_guard [of sample_access_context sample_access_env 1000 sample_access] sample_access_passes
  show ?thesis by blast
qed

subsection \<open>Writing, and what can be read\<close>

lemma member_reads: "hasPermission st resource ''member'' \<Longrightarrow> hasPermission st resource ''reader''"
proof -
  have "level_rank ''reader'' \<le> level_rank ''member''" by code_simp
  then show "hasPermission st resource ''member'' \<Longrightarrow> hasPermission st resource ''reader''"
    by (auto simp: hasPermission_def Let_def split: option.splits if_splits)
qed

text \<open>C34: a tool that writes runs for exactly the callers that meet all of these: a chat call off the platform host, with
  the chat switched on for the installation and the workspace, an active tenant whose subscription allows the AI, an
  assistant that is ready, and a user who is at least member of both the chat and the resource written to. Nothing else
  gets through, and an MCP call never does.\<close>

theorem write_access_exact:
  "snd (assertWriteAccess env now ctx businessResource s) = Inr () \<longleftrightarrow>
     ctx_surface ctx = ''chat'' \<and> \<not> ctx_isPlatformHost ctx \<and> ae_chat_enabled env \<and> tenant_ok (ctx_tenantId ctx) s
     \<and> subscription_decision env now (ctx_tenantId ctx) s = Inr ()
     \<and> set_chat_enabled (current_settings (ae_models env) now (ctx_tenantId ctx) (ad_models s))
     \<and> ready_errors (ae_models env) now (current_settings (ae_models env) now (ctx_tenantId ctx) (ad_models s)) (chat_gate ctx) (ad_models s) = []
     \<and> hasPermission (getEffectivePermissionStateOrNull (ctx_userId ctx) s) ''ai_chat'' ''member''
     \<and> hasPermission (getEffectivePermissionStateOrNull (ctx_userId ctx) s) businessResource ''member''"
proof -
  let ?s = "fst (assertSurfaceAccess env now ctx s)"
  note same = only_models_apart [OF assertSurfaceAccess_only_models [of s env now ctx]]
  have "snd (assertWriteAccess env now ctx businessResource s) = Inr () \<longleftrightarrow>
     ctx_surface ctx = ''chat'' \<and> snd (assertSurfaceAccess env now ctx s) = Inr ()
     \<and> hasPermission (getEffectivePermissionStateOrNull (ctx_userId ctx) s) ''ai_chat'' ''member''
     \<and> hasPermission (getEffectivePermissionStateOrNull (ctx_userId ctx) s) businessResource ''member''
     \<and> subscription_decision env now (ctx_tenantId ctx) s = Inr ()"
    by (simp add: assertWriteAccess_def snd_oguard_ok snd_obind_ok assertUserPermission_ok assertSubscriptionAllowsAi_ok same)
  then show ?thesis
    using member_reads [of "getEffectivePermissionStateOrNull (ctx_userId ctx) s" "''ai_chat''"]
    by (cases "ctx_surface ctx = ''chat''")
      (auto simp: assertSurfaceAccess_ok surface_ready_def Let_def getSurfaceFeature_def surface_resource_def)
qed

lemma readable_value:
  "readable ctx entityType s = (s, Inr (if entityType \<in> KNOWN_ENTITY_TYPES
       \<and> hasPermission (getEffectivePermissionStateOrNull (ctx_userId ctx) s) (entity_resource entityType) ''reader''
     then [entityType] else []))"
  using granted_user [of "getEffectivePermissionStateOrNull (ctx_userId ctx) s" "entity_resource entityType" "''reader''"]
  by (auto simp: readable_def otry_def obind_apply oret_apply assertUserPermission_eq)

lemma readable_all:
  "omap (readable ctx) ts s = (s, Inr (map (\<lambda>t. if t \<in> KNOWN_ENTITY_TYPES
       \<and> hasPermission (getEffectivePermissionStateOrNull (ctx_userId ctx) s) (entity_resource t) ''reader'' then [t] else []) ts))"
  by (induction ts) (simp_all add: obind_apply oret_apply readable_value)

lemma concat_filter: "concat (map (\<lambda>t. if P t then [t] else []) ts) = filter P ts"
  by (induction ts) simp_all

lemma assertEntityTypeReadAccess_ok:
  "snd (assertEntityTypeReadAccess env now ctx t s) = Inr () \<longleftrightarrow> snd (assertSurfaceAccess env now ctx s) = Inr ()
     \<and> hasPermission (getEffectivePermissionStateOrNull (ctx_userId ctx) s) (entity_resource t) ''reader''"
  using only_models_apart [OF assertSurfaceAccess_only_models [of s env now ctx]]
  by (simp add: assertEntityTypeReadAccess_def assertBusinessPermission_def snd_obind_ok assertUserPermission_ok)

text \<open>When a caller asks which of some entity types it can read, the answer is exactly those requested types, in
  their order, that the policy knows and whose read guard the caller passes; a value the policy does not know is left
  out even for an administrator, who passes the permission check of any resource.\<close>

theorem readable_types_exact:
  assumes "snd (listReadableEntityTypes env now ctx asked s) = Inr found"
  shows "found = filter (\<lambda>t. t \<in> KNOWN_ENTITY_TYPES \<and> snd (assertEntityTypeReadAccess env now ctx t s) = Inr ()) asked"
proof -
  note same = only_models_apart [OF assertSurfaceAccess_only_models [of s env now ctx]]
  have "snd (assertSurfaceAccess env now ctx s) = Inr ()"
    using assms by (auto simp: listReadableEntityTypes_def snd_obind_ok)
  with assms show ?thesis
    by (simp add: listReadableEntityTypes_def snd_obind_ok readable_all oret_apply concat_filter same assertEntityTypeReadAccess_ok)
qed

theorem readable_types_exact_witness:
  "filter (\<lambda>t. t \<in> KNOWN_ENTITY_TYPES \<and> snd (assertEntityTypeReadAccess sample_access_env 1000 sample_access_context t sample_access) = Inr ())
     [''users'', ''tasks'', ''tokens''] = [''tasks'']"
proof -
  have "snd (listReadableEntityTypes sample_access_env 1000 sample_access_context [''users'', ''tasks'', ''tokens''] sample_access) = Inr [''tasks'']"
    by code_simp
  from readable_types_exact [OF this] show ?thesis by simp
qed

end
