(* ===== verification/Mcp.thy ===== *)
theory Mcp
  imports Access Contracts
begin

section \<open>What an MCP key may do (control-plane/mcp/ai-mcp-access-policy.ts, ai-mcp-exposure.service.ts)\<close>

text \<open>
  The policy stored with an MCP API key, how it is built and read back, the part of the capability registry
  that lists and resolves contracts (capability/ai-capability.registry.ts), and the exposure service that decides
  which capabilities an MCP call can see and execute.  The contracts of the tools, of the providers and of the
  external bridge are parameters; handlers are named, not run.
\<close>

subsection \<open>The policy of a key\<close>

definition MCP_SCOPES :: "string list" where
  "MCP_SCOPES = [''mcp:tools:list'', ''mcp:tools:execute'', ''mcp:audit:read'']"

definition MCP_DEFAULT_SCOPES :: "string list" where
  "MCP_DEFAULT_SCOPES = [''mcp:tools:list'', ''mcp:tools:execute'']"

definition MCP_DEFAULT_ALLOWED_CAPABILITIES :: "string list" where
  "MCP_DEFAULT_ALLOWED_CAPABILITIES = [''kanap.read.core'']"

definition MCP_DEFAULT_RATE_LIMIT_PER_MINUTE :: int where "MCP_DEFAULT_RATE_LIMIT_PER_MINUTE = 60"
definition MCP_MAX_RATE_LIMIT_PER_MINUTE :: int where "MCP_MAX_RATE_LIMIT_PER_MINUTE = 1000"

definition MCP_CORE_READ_CAPABILITIES :: "string list" where
  "MCP_CORE_READ_CAPABILITIES =
     [''search_all'', ''describe_entity_filters'', ''query_entities'', ''aggregate_entities'', ''get_filter_values'',
      ''get_entity_detail'', ''get_entity_context'', ''get_entity_comments'', ''search_knowledge'', ''get_document'', ''web_search'']"

text \<open>
  \<open>MCP_CAPABILITY_GROUPS\<close> is an object literal, so a lookup also finds what every object inherits.  Those
  values are truthy and can not be iterated.
\<close>

datatype group_entry = Group "string list" | Inherited

definition OBJECT_PROTOTYPE :: "string list" where
  "OBJECT_PROTOTYPE =
     [''constructor'', ''__defineGetter__'', ''__defineSetter__'', ''hasOwnProperty'', ''__lookupGetter__'', ''__lookupSetter__'',
      ''isPrototypeOf'', ''propertyIsEnumerable'', ''toString'', ''valueOf'', ''__proto__'', ''toLocaleString'']"

definition MCP_CAPABILITY_GROUPS :: "string \<Rightarrow> group_entry option" where
  "MCP_CAPABILITY_GROUPS entry =
     (if entry = ''kanap.read.core'' then Some (Group MCP_CORE_READ_CAPABILITIES)
      else if entry \<in> set OBJECT_PROTOTYPE then Some Inherited else None)"

text \<open>The input of a new key and the stored columns as values of unknown type.\<close>

record mcp_policy_json =
  pj_scopes :: jsval
  pj_allowed :: jsval
  pj_denied :: jsval
  pj_maxEffect :: jsval
  pj_rateLimit :: jsval

record mcp_policy_record =
  mr_scopes :: "string list"
  mr_allowed :: "string list"
  mr_denied :: "string list"
  mr_maxEffect :: string
  mr_rateLimit :: int

record mcp_policy =
  mp_valid :: bool
  mp_reason :: "string option"
  mp_scopes :: "string set"
  mp_allowed :: "string set"
  mp_denied :: "string set"
  mp_maxEffect :: "string option"
  mp_rateLimit :: int

definition not_strings :: "string \<Rightarrow> ai_error" where
  "not_strings field = BadRequest (field @ '' must be an array of strings.'')"

fun trimmed_entry :: "string \<Rightarrow> jsval \<Rightarrow> ai_error + string" where
  "trimmed_entry field (JStr s) =
     rguard (js_trim s = []) (BadRequest (field @ '' cannot contain empty entries.'')) (Inr (js_trim s))"
| "trimmed_entry field _ = Inl (not_strings field)"

text \<open>\<open>Array.from(new Set(xs))\<close>.\<close>

definition distinct_entries :: "string list \<Rightarrow> string list" where
  "distinct_entries = foldl add_role []"

definition normalizeStringArray :: "jsval \<Rightarrow> string \<Rightarrow> string list option \<Rightarrow> nat \<Rightarrow> ai_error + string list" where
  "normalizeStringArray v field defaultValue maxItems =
     (case (if v = JUndef then map_option (\<lambda>d. JArr (map JStr d)) defaultValue else Some v) of
        Some (JArr source) \<Rightarrow>
          rguard (maxItems < length source)
            (BadRequest (field @ '' cannot contain more than '' @ show_nat maxItems @ '' entries.''))
            (rbind (rmap (trimmed_entry field) source) (\<lambda>normalized. Inr (distinct_entries normalized)))
      | _ \<Rightarrow> Inl (not_strings field))"

definition expand_entry :: "string \<Rightarrow> ai_error + string list" where
  "expand_entry entry =
     (case MCP_CAPABILITY_GROUPS entry of
        Some (Group names) \<Rightarrow> Inr names
      | Some Inherited \<Rightarrow> Inl (Thrown ''group is not iterable'')
      | None \<Rightarrow> Inr [entry])"

definition expandCapabilityEntries :: "string list \<Rightarrow> ai_error + string set" where
  "expandCapabilityEntries entries = rbind (rmap expand_entry entries) (\<lambda>names. Inr (set (concat names)))"

text \<open>A number that is an integer; texts beyond the largest exponent read here are far out of every range below.\<close>

definition integer_of :: "jsval \<Rightarrow> int option" where
  "integer_of v =
     (case v of
        JNum (JFin s) \<Rightarrow>
          (case parse_text s of
             Inr (c, k) \<Rightarrow>
               if k \<le> 0 then Some (c * 10 ^ nat (- k))
               else if c mod 10 ^ nat k = 0 then Some (c div 10 ^ nat k) else None
           | Inl _ \<Rightarrow> None)
      | _ \<Rightarrow> None)"

definition rate_limit_of :: "jsval \<Rightarrow> int option" where
  "rate_limit_of v =
     (case integer_of v of
        Some n \<Rightarrow> if 1 \<le> n \<and> n \<le> MCP_MAX_RATE_LIMIT_PER_MINUTE then Some n else None
      | None \<Rightarrow> None)"

definition nullish_or :: "jsval \<Rightarrow> jsval \<Rightarrow> jsval" where
  "nullish_or v d = (if v = JUndef \<or> v = JNull then d else v)"

definition wildcard :: "string list \<Rightarrow> bool" where
  "wildcard entries \<longleftrightarrow> ''*'' \<in> set entries \<or> ''all'' \<in> set entries"

definition unsupported_scope :: "string list \<Rightarrow> string option" where
  "unsupported_scope scopes = List.find (\<lambda>scope. scope \<notin> set MCP_SCOPES) scopes"

definition buildMcpApiKeyPolicyRecord :: "mcp_policy_json \<Rightarrow> ai_error + mcp_policy_record" where
  "buildMcpApiKeyPolicyRecord input =
     rbind (normalizeStringArray (pj_scopes input) ''mcp_scopes'' (Some MCP_DEFAULT_SCOPES) (length MCP_SCOPES)) (\<lambda>scopes.
     rbind (case unsupported_scope scopes of
              Some scope \<Rightarrow> Inl (BadRequest (''Unsupported MCP API key scope: '' @ scope @ ''.'')) | None \<Rightarrow> Inr ()) (\<lambda>_.
     rbind (normalizeStringArray (pj_allowed input) ''mcp_allowed_capabilities'' (Some MCP_DEFAULT_ALLOWED_CAPABILITIES) 200) (\<lambda>allowed.
     rguard (wildcard allowed) (BadRequest ''MCP capability allowlists must not use wildcard grants.'')
     (rbind (normalizeStringArray (pj_denied input) ''mcp_denied_capabilities'' (Some []) 200) (\<lambda>denied.
     rguard (nullish_or (pj_maxEffect input) (JStr ''read'') \<noteq> JStr ''read'')
       (BadRequest ''MCP API keys can only grant read capabilities in this phase.'')
     (case rate_limit_of (nullish_or (pj_rateLimit input) (JNum (int_num MCP_DEFAULT_RATE_LIMIT_PER_MINUTE))) of
        None \<Rightarrow> Inl (BadRequest (''mcp_rate_limit_per_minute must be an integer from 1 to ''
                  @ show_int MCP_MAX_RATE_LIMIT_PER_MINUTE @ ''.''))
      | Some rate \<Rightarrow> Inr \<lparr> mr_scopes = scopes, mr_allowed = allowed, mr_denied = denied, mr_maxEffect = ''read'',
                           mr_rateLimit = rate \<rparr>))))))"

definition invalidPolicy :: "string \<Rightarrow> mcp_policy" where
  "invalidPolicy reason =
     \<lparr> mp_valid = False, mp_reason = Some reason, mp_scopes = {}, mp_allowed = {}, mp_denied = {}, mp_maxEffect = None,
       mp_rateLimit = MCP_DEFAULT_RATE_LIMIT_PER_MINUTE \<rparr>"

text \<open>The body of the \<open>try\<close>; every early return is an invalid policy.\<close>

definition parsed_policy :: "mcp_policy_json \<Rightarrow> ai_error + mcp_policy" where
  "parsed_policy r =
     rbind (normalizeStringArray (pj_scopes r) ''mcp_scopes'' None (length MCP_SCOPES)) (\<lambda>scopes.
     case unsupported_scope scopes of
       Some scope \<Rightarrow> Inr (invalidPolicy (''unsupported_scope:'' @ scope))
     | None \<Rightarrow>
     rbind (normalizeStringArray (pj_allowed r) ''mcp_allowed_capabilities'' None 200) (\<lambda>allowed.
     rbind (normalizeStringArray (pj_denied r) ''mcp_denied_capabilities'' None 200) (\<lambda>denied.
     if wildcard allowed then Inr (invalidPolicy ''wildcard_capability_grant'')
     else if pj_maxEffect r \<noteq> JStr ''read'' then Inr (invalidPolicy ''unsupported_max_effect'')
     else case rate_limit_of (pj_rateLimit r) of
       None \<Rightarrow> Inr (invalidPolicy ''invalid_rate_limit'')
     | Some rate \<Rightarrow>
         rbind (expandCapabilityEntries allowed) (\<lambda>allowedNames.
         rbind (expandCapabilityEntries denied) (\<lambda>deniedNames.
         Inr \<lparr> mp_valid = True, mp_reason = None, mp_scopes = set scopes, mp_allowed = allowedNames, mp_denied = deniedNames,
               mp_maxEffect = Some ''read'', mp_rateLimit = rate \<rparr>)))))"

definition parseMcpApiKeyPolicy :: "mcp_policy_json \<Rightarrow> mcp_policy" where
  "parseMcpApiKeyPolicy r = (case parsed_policy r of Inr p \<Rightarrow> p | Inl e \<Rightarrow> invalidPolicy (error_message e))"

definition assertMcpScope :: "mcp_policy \<Rightarrow> string \<Rightarrow> ai_error + unit" where
  "assertMcpScope policy scope =
     rguard (\<not> mp_valid policy) (Forbidden ''MCP API key policy is invalid.'')
       (rguard (scope \<notin> mp_scopes policy) (Forbidden (''MCP API key is missing required scope '' @ scope @ ''.'')) (Inr ()))"

definition isMcpCapabilityAllowedByPolicy :: "mcp_policy \<Rightarrow> string \<Rightarrow> bool" where
  "isMcpCapabilityAllowedByPolicy policy capabilityName \<longleftrightarrow>
     mp_valid policy \<and> mp_maxEffect policy = Some ''read'' \<and> capabilityName \<in> mp_allowed policy \<and> capabilityName \<notin> mp_denied policy"

subsection \<open>Capabilities and how a name is resolved\<close>

text \<open>A tool of the chat, as the tool registry lists it.\<close>

record write_preview =
  wp_entity_type :: string
  wp_reversible :: bool

record tool_item =
  ti_name :: string
  ti_category :: string
  ti_description :: string
  ti_read_only :: bool
  ti_surfaces :: "string list"
  ti_write_preview :: "write_preview option"

definition COMPATIBILITY_CAPABILITY_VERSION :: string where "COMPATIBILITY_CAPABILITY_VERSION = ''1.0.0''"

definition toCapabilitySurface :: "string \<Rightarrow> ai_error + string" where
  "toCapabilitySurface surface =
     (if surface \<in> set CAPABILITY_SURFACES then Inr surface
      else Inl (BadRequest (''Unsupported capability surface: '' @ surface)))"

definition compatibility_row :: "tool_item \<Rightarrow> jsval \<Rightarrow> string list \<Rightarrow> capability_contract" where
  "compatibility_row tool inputSchema surfaces =
     (let ro = ti_read_only tool; mcpEnabled = (ro \<and> ''mcp'' \<in> set (ti_surfaces tool)) in
      \<lparr> c_name = ti_name tool, c_version = COMPATIBILITY_CAPABILITY_VERSION, c_description = ti_description tool,
        c_category = ti_category tool, c_provider_kind = ''kanap_domain'', c_supported_surfaces = surfaces,
        c_input_schema = inputSchema, c_output_schema = JObj [(''type'', JStr ''object'')],
        c_effect = (if ro then ''read'' else ''propose''), c_risk_level = (if ro then ''low'' else ''medium''),
        c_max_autonomy_level = (if ro then ''A1'' else ''A2''), c_default_approval = ''none'', c_approval_strategy = NoStrategy,
        c_evidence = \<lparr> er_persist_input = False, er_persist_output = ro, er_redact_fields = [],
                       er_retention = (if ro then ''standard'' else ''audit'') \<rparr>,
        c_tenant_permissions = [''ai.surface''],
        c_business_resources = (case ti_write_preview tool of
            Some w \<Rightarrow> if wp_entity_type w \<noteq> [] then [wp_entity_type w] else [] | None \<Rightarrow> []),
        c_timeout_seconds = (if ro then 30 else 60), c_automatic_retry = False, c_max_attempts = 1, c_execution_phase = None,
        c_idempotency_mode = (if ro then ''idempotent'' else ''non_idempotent''),
        c_idempotency_key_fields = (if ro then Some [''input''] else None),
        c_rollback_supported = (case ti_write_preview tool of Some w \<Rightarrow> wp_reversible w | None \<Rightarrow> False),
        c_rollback_capability_name = None, c_estimated_unit_cost = None, c_metered = False, c_redaction_fields = [],
        c_mcp_enabled = mcpEnabled, c_mcp_read_only = mcpEnabled,
        c_live_test_safety = (if ro then ''live_read'' else ''live_write_gated''), c_ai_tool_name = Some (ti_name tool) \<rparr>)"

text \<open>\<open>CapabilityContractSchema.parse\<close> throws on a contract that is not valid.\<close>

definition compatibilityContract :: "tool_item \<Rightarrow> jsval \<Rightarrow> ai_error + capability_contract" where
  "compatibilityContract tool inputSchema =
     rbind (rmap toCapabilitySurface (ti_surfaces tool)) (\<lambda>surfaces.
     let c = compatibility_row tool inputSchema surfaces in
     rguard (\<not> contract_valid c) (Thrown ''Invalid capability contract'') (Inr c))"

datatype handler_ref = InternalHandler string | ProviderHandler string | BridgeHandler string | ToolHandler string

text \<open>The catalogues the registry is built from, as parameters.\<close>

record registry_env =
  rg_tools :: "access_context \<Rightarrow> tool_item list aop"
  rg_schema :: "string \<Rightarrow> jsval"
  rg_internal :: "(string \<times> capability_contract) list"
  rg_providers :: "(string \<times> capability_contract) list"
  rg_hasBridge :: bool
  rg_bridge_list :: "access_context \<Rightarrow> capability_contract list aop"
  rg_bridge_resolve :: "access_context \<Rightarrow> string \<Rightarrow> string \<Rightarrow> capability_contract option aop"

definition olift :: "ai_error + 'a \<Rightarrow> ('s, 'a) act" where
  "olift r = (\<lambda>s. (s, r))"

definition listAvailableCapabilities :: "registry_env \<Rightarrow> access_context \<Rightarrow> capability_contract list aop" where
  "listAvailableCapabilities reg ctx =
     obind (rg_tools reg ctx) (\<lambda>tools.
     obind (olift (rmap (\<lambda>tool. compatibilityContract tool (rg_schema reg (ti_name tool))) tools)) (\<lambda>contracts.
     obind (if rg_hasBridge reg then rg_bridge_list reg ctx else oret []) (\<lambda>external.
     oret (contracts @ map snd (rg_providers reg) @ external))))"

definition mcp_readable :: "capability_contract \<Rightarrow> bool" where
  "mcp_readable c \<longleftrightarrow> c_effect c = ''read'' \<and> c_default_approval c = ''none'' \<and> c_mcp_enabled c \<and> c_mcp_read_only c"

text \<open>Of a provider tool definition: name, description and parameters.\<close>

definition tool_definition :: "capability_contract \<Rightarrow> string \<times> string \<times> jsval" where
  "tool_definition c = (c_name c, c_description c, c_input_schema c)"

definition getToolJsonSchemas :: "registry_env \<Rightarrow> access_context \<Rightarrow> (string \<times> string \<times> jsval) list aop" where
  "getToolJsonSchemas reg ctx =
     obind (listAvailableCapabilities reg ctx) (\<lambda>capabilities.
     if capabilities = [] then oret []
     else obind (olift (toCapabilitySurface (ctx_surface ctx))) (\<lambda>surface.
       oret (map tool_definition
         (filter (\<lambda>c. ctx_surface ctx \<noteq> ''mcp'' \<or> mcp_readable c)
           (filter (\<lambda>c. surface \<in> set (c_supported_surfaces c)) capabilities)))))"

definition UNKNOWN_VERSION :: ai_error where "UNKNOWN_VERSION = NotFound ''Unknown capability version.''"

definition resolve_listed :: "registry_env \<Rightarrow> access_context \<Rightarrow> string \<Rightarrow> string \<Rightarrow> (capability_contract \<times> handler_ref) aop" where
  "resolve_listed reg ctx capabilityName version =
     obind (listAvailableCapabilities reg ctx) (\<lambda>available.
       case List.find (\<lambda>c. c_name c = capabilityName \<and> c_version c = version) available of
         None \<Rightarrow> othrow (NotFound ''Unknown or unavailable capability.'')
       | Some contract \<Rightarrow>
           oguard (\<not> truthy (c_ai_tool_name contract)) (NotFound ''Capability has no executable handler.'')
             (oret (contract, ToolHandler (the (c_ai_tool_name contract)))))"

definition resolve_capability ::
  "registry_env \<Rightarrow> access_context \<Rightarrow> string \<Rightarrow> string \<Rightarrow> string option \<Rightarrow> (capability_contract \<times> handler_ref) aop" where
  "resolve_capability reg ctx capabilityName version surface =
     obind (olift (case surface of Some x \<Rightarrow> Inr x | None \<Rightarrow> toCapabilitySurface (ctx_surface ctx))) (\<lambda>effectiveSurface.
     let internal = map_of (rg_internal reg) capabilityName in
     if pred_option (\<lambda>c. effectiveSurface \<in> set (c_supported_surfaces c)) internal \<and> internal \<noteq> None
     then oguard (version \<noteq> c_version (the internal)) UNKNOWN_VERSION
            (oret (the internal, InternalHandler (c_name (the internal))))
     else case map_of (rg_providers reg) capabilityName of
       Some c \<Rightarrow> oguard (version \<noteq> c_version c) UNKNOWN_VERSION (oret (c, ProviderHandler (c_name c)))
     | None \<Rightarrow>
         obind (if rg_hasBridge reg then rg_bridge_resolve reg ctx capabilityName version else oret None) (\<lambda>external.
         case external of
           Some c \<Rightarrow> oret (c, BridgeHandler (c_name c))
         | None \<Rightarrow> resolve_listed reg ctx capabilityName version))"

subsection \<open>The exposure of capabilities to MCP\<close>

text \<open>The key of a call, as the row or as the view of it: the view has the names without \<open>_json\<close>.\<close>

record mcp_key_context = mcp_policy_json +
  mk_id :: "string option"
  mk_tenant_id :: "string option"
  mk_user_id :: "string option"
  mk_view_scopes :: jsval
  mk_view_allowed :: jsval
  mk_view_denied :: jsval

definition parsePolicy :: "mcp_key_context \<Rightarrow> mcp_policy" where
  "parsePolicy apiKey = parseMcpApiKeyPolicy
     \<lparr> pj_scopes = nullish_or (pj_scopes apiKey) (mk_view_scopes apiKey),
       pj_allowed = nullish_or (pj_allowed apiKey) (mk_view_allowed apiKey),
       pj_denied = nullish_or (pj_denied apiKey) (mk_view_denied apiKey),
       pj_maxEffect = pj_maxEffect apiKey, pj_rateLimit = pj_rateLimit apiKey \<rparr>"

definition assertApiKeyBoundToContext :: "access_context \<Rightarrow> mcp_key_context \<Rightarrow> ai_error + unit" where
  "assertApiKeyBoundToContext ctx apiKey =
     rguard (truthy (mk_tenant_id apiKey) \<and> mk_tenant_id apiKey \<noteq> Some (ctx_tenantId ctx)) (Forbidden ''MCP API key tenant mismatch.'')
       (rguard (truthy (mk_user_id apiKey) \<and> mk_user_id apiKey \<noteq> Some (ctx_userId ctx)) (Forbidden ''MCP API key owner mismatch.'') (Inr ()))"

definition assertApiKeyAllowedForContext :: "access_context \<Rightarrow> mcp_key_context \<Rightarrow> string \<Rightarrow> ai_error + mcp_policy" where
  "assertApiKeyAllowedForContext ctx apiKey scope =
     rbind (assertApiKeyBoundToContext ctx apiKey) (\<lambda>_.
     let policy = parsePolicy apiKey in rbind (assertMcpScope policy scope) (\<lambda>_. Inr policy))"

definition assertPostAccess :: "access_env \<Rightarrow> int \<Rightarrow> access_context \<Rightarrow> mcp_key_context \<Rightarrow> unit aop" where
  "assertPostAccess env now ctx apiKey =
     obind (assertSurfaceAccess env now ctx) (\<lambda>_. olift (assertApiKeyBoundToContext ctx apiKey))"

fun resources_readable :: "access_env \<Rightarrow> int \<Rightarrow> access_context \<Rightarrow> string list \<Rightarrow> bool aop" where
  "resources_readable env now ctx [] = oret True"
| "resources_readable env now ctx (resource # rest) =
     obind (otry (obind (assertBusinessPermission env now ctx resource ''reader'') (\<lambda>_. oret True)) (\<lambda>_. oret False)) (\<lambda>ok.
       if ok then resources_readable env now ctx rest else oret False)"

definition isCapabilityVisible :: "access_env \<Rightarrow> int \<Rightarrow> access_context \<Rightarrow> capability_contract \<Rightarrow> mcp_policy \<Rightarrow> bool aop" where
  "isCapabilityVisible env now ctx capability keyPolicy =
     (if ''mcp'' \<notin> set (c_supported_surfaces capability) \<or> c_effect capability \<noteq> ''read'' \<or> c_default_approval capability \<noteq> ''none''
         \<or> \<not> c_mcp_enabled capability \<or> \<not> c_mcp_read_only capability
         \<or> \<not> isMcpCapabilityAllowedByPolicy keyPolicy (c_name capability)
      then oret False else resources_readable env now ctx (c_business_resources capability))"

definition listToolJsonSchemas ::
  "access_env \<Rightarrow> registry_env \<Rightarrow> int \<Rightarrow> access_context \<Rightarrow> mcp_key_context \<Rightarrow> string \<Rightarrow> (string \<times> string \<times> jsval) list aop" where
  "listToolJsonSchemas env reg now ctx apiKey requiredScope =
     obind (assertPostAccess env now ctx apiKey) (\<lambda>_.
     obind (olift (assertApiKeyAllowedForContext ctx apiKey requiredScope)) (\<lambda>keyPolicy.
     obind (listAvailableCapabilities reg ctx) (\<lambda>capabilities.
     obind (omap (\<lambda>c. obind (isCapabilityVisible env now ctx c keyPolicy) (\<lambda>ok. oret (if ok then [tool_definition c] else []))) capabilities)
       (\<lambda>visible. oret (concat visible)))))"

definition assertCanExecute ::
  "access_env \<Rightarrow> registry_env \<Rightarrow> int \<Rightarrow> access_context \<Rightarrow> mcp_key_context \<Rightarrow> string \<Rightarrow> (capability_contract \<times> handler_ref) aop" where
  "assertCanExecute env reg now ctx apiKey capabilityName =
     obind (assertPostAccess env now ctx apiKey) (\<lambda>_.
     obind (olift (assertApiKeyAllowedForContext ctx apiKey ''mcp:tools:execute'')) (\<lambda>keyPolicy.
     obind (resolve_capability reg ctx capabilityName COMPATIBILITY_CAPABILITY_VERSION None) (\<lambda>resolved.
     obind (isCapabilityVisible env now ctx (fst resolved) keyPolicy) (\<lambda>visible.
     oguard (\<not> visible) (Forbidden ''MCP API key is not allowed to execute this capability.'') (oret resolved)))))"

definition assertCanReadAudit :: "access_env \<Rightarrow> int \<Rightarrow> access_context \<Rightarrow> mcp_key_context \<Rightarrow> mcp_policy aop" where
  "assertCanReadAudit env now ctx apiKey =
     obind (assertPostAccess env now ctx apiKey) (\<lambda>_. olift (assertApiKeyAllowedForContext ctx apiKey ''mcp:audit:read''))"

subsection \<open>A stored policy reads back\<close>

lemma set_add_role [simp]: "set (add_role ids k) = insert k (set ids)"
  by (auto simp: add_role_def)

lemma foldl_add_role: "set (foldl add_role ids ks) = set ids \<union> set ks" "distinct ids \<Longrightarrow> distinct (foldl add_role ids ks)"
  "length (foldl add_role ids ks) \<le> length ids + length ks"
  "distinct (ids @ ks) \<Longrightarrow> foldl add_role ids ks = ids @ ks"
proof (induction ks arbitrary: ids)
  case (Cons k ks)
  { case 1 show ?case using Cons.IH(1) [of "add_role ids k"] by simp }
  { case 2 show ?case using 2 Cons.IH(2) [of "add_role ids k"] by (simp add: add_role_def) }
  { case 3 show ?case using Cons.IH(3) [of "add_role ids k"] by (simp add: add_role_def split: if_splits) }
  { case 4 show ?case using 4 Cons.IH(4) [of "ids @ [k]"] by (simp add: add_role_def) }
qed simp_all

lemma distinct_entries: "set (distinct_entries ts) = set ts" "distinct (distinct_entries ts)" "length (distinct_entries ts) \<le> length ts"
  "distinct ts \<Longrightarrow> distinct_entries ts = ts"
  using foldl_add_role [of "[]" ts] by (simp_all add: distinct_entries_def)

definition entries_ok :: "nat \<Rightarrow> string list \<Rightarrow> bool" where
  "entries_ok maxItems ts \<longleftrightarrow> distinct ts \<and> list_all trimmed_text ts \<and> length ts \<le> maxItems"

lemma trimmed_entry_Inr: "trimmed_entry f v = Inr t \<Longrightarrow> trimmed_text t"
  by (cases v) (auto simp: rguard_eq_Inr trimmed_text_def)

lemma trimmed_entries_Inr: "rmap (trimmed_entry f) vs = Inr ts \<Longrightarrow> list_all trimmed_text ts \<and> length ts = length vs"
  by (induction vs arbitrary: ts) (auto simp: rbind_eq_Inr dest: trimmed_entry_Inr)

lemma trimmed_entries_again: "list_all trimmed_text ts \<Longrightarrow> rmap (trimmed_entry f) (map JStr ts) = Inr ts"
  by (induction ts) (simp_all add: trimmed_text_def)

lemma normalizeStringArray_Inr:
  assumes "normalizeStringArray v f d m = Inr ts" shows "entries_ok m ts"
proof -
  from assms obtain vs us where "rmap (trimmed_entry f) vs = Inr us" "ts = distinct_entries us" "length vs \<le> m"
    by (auto simp: normalizeStringArray_def rguard_eq_Inr rbind_eq_Inr split: option.splits jsval.splits if_splits)
  with trimmed_entries_Inr [of f vs us] distinct_entries [of us] show ?thesis by (auto simp: entries_ok_def list_all_iff)
qed

lemma normalizeStringArray_again: "entries_ok m ts \<Longrightarrow> normalizeStringArray (JArr (map JStr ts)) f d m = Inr ts"
  by (simp add: entries_ok_def normalizeStringArray_def trimmed_entries_again distinct_entries)

lemma rate_limit_of_range: "rate_limit_of v = Some n \<Longrightarrow> 1 \<le> n \<and> n \<le> MCP_MAX_RATE_LIMIT_PER_MINUTE"
  by (auto simp: rate_limit_of_def split: option.splits if_splits)

lemma rate_limit_of_int: "1 \<le> n \<Longrightarrow> n \<le> MCP_MAX_RATE_LIMIT_PER_MINUTE \<Longrightarrow> rate_limit_of (JNum (int_num n)) = Some n"
  by (simp add: rate_limit_of_def integer_of_def int_num_def parse_text_show_int)

definition policy_record_ok :: "mcp_policy_record \<Rightarrow> bool" where
  "policy_record_ok r \<longleftrightarrow> entries_ok (length MCP_SCOPES) (mr_scopes r) \<and> unsupported_scope (mr_scopes r) = None
     \<and> entries_ok 200 (mr_allowed r) \<and> \<not> wildcard (mr_allowed r) \<and> entries_ok 200 (mr_denied r)
     \<and> mr_maxEffect r = ''read'' \<and> 1 \<le> mr_rateLimit r \<and> mr_rateLimit r \<le> MCP_MAX_RATE_LIMIT_PER_MINUTE"

lemma buildMcpApiKeyPolicyRecord_ok:
  assumes "buildMcpApiKeyPolicyRecord input = Inr r" shows "policy_record_ok r"
proof -
  from assms obtain scopes allowed denied rate d1 d2 d3 v where parts:
      "normalizeStringArray (pj_scopes input) ''mcp_scopes'' d1 (length MCP_SCOPES) = Inr scopes" "unsupported_scope scopes = None"
      "normalizeStringArray (pj_allowed input) ''mcp_allowed_capabilities'' d2 200 = Inr allowed" "\<not> wildcard allowed"
      "normalizeStringArray (pj_denied input) ''mcp_denied_capabilities'' d3 200 = Inr denied" "rate_limit_of v = Some rate"
    and r: "r = \<lparr> mr_scopes = scopes, mr_allowed = allowed, mr_denied = denied, mr_maxEffect = ''read'', mr_rateLimit = rate \<rparr>"
    unfolding buildMcpApiKeyPolicyRecord_def by (auto simp: rbind_eq_Inr rguard_eq_Inr split: option.splits)
  then show ?thesis
    using normalizeStringArray_Inr rate_limit_of_range unfolding policy_record_ok_def r by simp
qed

definition stored_policy :: "mcp_policy_record \<Rightarrow> mcp_policy_json" where
  "stored_policy r = \<lparr> pj_scopes = JArr (map JStr (mr_scopes r)), pj_allowed = JArr (map JStr (mr_allowed r)),
     pj_denied = JArr (map JStr (mr_denied r)), pj_maxEffect = JStr (mr_maxEffect r), pj_rateLimit = JNum (int_num (mr_rateLimit r)) \<rparr>"

text \<open>What an entry of a list means: the core group stands for its members, any other entry for itself.\<close>

definition granted :: "string list \<Rightarrow> string \<Rightarrow> bool" where
  "granted entries name \<longleftrightarrow> name \<in> set entries \<and> name \<noteq> ''kanap.read.core''
     \<or> ''kanap.read.core'' \<in> set entries \<and> name \<in> set MCP_CORE_READ_CAPABILITIES"

definition inherited_name :: "string list \<Rightarrow> bool" where
  "inherited_name entries \<longleftrightarrow> (\<exists>e\<in>set entries. e \<in> set OBJECT_PROTOTYPE)"

lemma core_not_inherited: "''kanap.read.core'' \<notin> set OBJECT_PROTOTYPE" "''kanap.read.core'' \<notin> set MCP_CORE_READ_CAPABILITIES"
  by code_simp+

lemma expand_entry_cases:
  "expand_entry e = (if e = ''kanap.read.core'' then Inr MCP_CORE_READ_CAPABILITIES
     else if e \<in> set OBJECT_PROTOTYPE then Inl (Thrown ''group is not iterable'') else Inr [e])"
  unfolding expand_entry_def MCP_CAPABILITY_GROUPS_def by (simp split: if_split)

lemma expanded_names:
  "\<not> inherited_name es \<Longrightarrow> \<exists>names. expandCapabilityEntries es = Inr names \<and> (\<forall>n. n \<in> names \<longleftrightarrow> granted es n)"
  "inherited_name es \<Longrightarrow> expandCapabilityEntries es = Inl (Thrown ''group is not iterable'')"
proof -
  have "\<not> inherited_name es \<Longrightarrow> \<exists>ns. rmap expand_entry es = Inr ns \<and> (\<forall>n. n \<in> set (concat ns) \<longleftrightarrow> granted es n)"
  proof (induction es)
    case (Cons e es)
    then obtain ns where ns: "rmap expand_entry es = Inr ns" "\<forall>n. n \<in> set (concat ns) \<longleftrightarrow> granted es n"
      by (auto simp: inherited_name_def)
    have e: "e \<notin> set OBJECT_PROTOTYPE" using Cons.prems by (simp add: inherited_name_def)
    show ?case
    proof (cases "e = ''kanap.read.core''")
      case True
      then have "\<And>n. granted (e # es) n \<longleftrightarrow> n \<in> set MCP_CORE_READ_CAPABILITIES \<or> granted es n"
        by (auto simp: granted_def)
      moreover have "rmap expand_entry (e # es) = Inr (MCP_CORE_READ_CAPABILITIES # ns)" by (simp add: expand_entry_cases [of "''kanap.read.core''"] True ns)
      ultimately show ?thesis using ns(2) by auto
    next
      case False
      then have "granted (e # es) n \<longleftrightarrow> n = e \<or> granted es n" for n by (auto simp: granted_def)
      with False e ns show ?thesis by (simp add: expand_entry_cases [of e])
    qed
  qed (simp add: granted_def)
  then show "\<not> inherited_name es \<Longrightarrow> \<exists>names. expandCapabilityEntries es = Inr names \<and> (\<forall>n. n \<in> names \<longleftrightarrow> granted es n)"
    by (auto simp: expandCapabilityEntries_def)
  have "inherited_name es \<Longrightarrow> rmap expand_entry es = Inl (Thrown ''group is not iterable'')"
  proof (induction es)
    case (Cons e es)
    show ?case
    proof (cases "e \<in> set OBJECT_PROTOTYPE")
      case True
      then have "e \<noteq> ''kanap.read.core''" using core_not_inherited by blast
      with True show ?thesis by (simp add: expand_entry_cases)
    next
      case False
      with Cons have "rmap expand_entry es = Inl (Thrown ''group is not iterable'')" by (simp add: inherited_name_def)
      with False show ?thesis by (simp add: expand_entry_cases [of e])
    qed
  qed (simp add: inherited_name_def)
  then show "inherited_name es \<Longrightarrow> expandCapabilityEntries es = Inl (Thrown ''group is not iterable'')"
    by (simp add: expandCapabilityEntries_def)
qed

lemma stored_policy_parse:
  assumes "policy_record_ok r"
  shows "mp_valid (parseMcpApiKeyPolicy (stored_policy r)) \<longleftrightarrow> \<not> inherited_name (mr_allowed r) \<and> \<not> inherited_name (mr_denied r)"
    and "mp_valid (parseMcpApiKeyPolicy (stored_policy r)) \<Longrightarrow>
      mp_scopes (parseMcpApiKeyPolicy (stored_policy r)) = set (mr_scopes r)
      \<and> mp_rateLimit (parseMcpApiKeyPolicy (stored_policy r)) = mr_rateLimit r
      \<and> (\<forall>name. isMcpCapabilityAllowedByPolicy (parseMcpApiKeyPolicy (stored_policy r)) name
           \<longleftrightarrow> granted (mr_allowed r) name \<and> \<not> granted (mr_denied r) name)"
proof -
  have p: "parsed_policy (stored_policy r) = rbind (expandCapabilityEntries (mr_allowed r)) (\<lambda>a. rbind (expandCapabilityEntries (mr_denied r)) (\<lambda>d.
      Inr \<lparr> mp_valid = True, mp_reason = None, mp_scopes = set (mr_scopes r), mp_allowed = a, mp_denied = d,
               mp_maxEffect = Some ''read'', mp_rateLimit = mr_rateLimit r \<rparr>))"
    using assms by (simp add: policy_record_ok_def parsed_policy_def stored_policy_def normalizeStringArray_again rate_limit_of_int)
  show v: "mp_valid (parseMcpApiKeyPolicy (stored_policy r)) \<longleftrightarrow> \<not> inherited_name (mr_allowed r) \<and> \<not> inherited_name (mr_denied r)"
  proof (cases "inherited_name (mr_allowed r) \<or> inherited_name (mr_denied r)")
    case True
    then have "\<exists>e. parsed_policy (stored_policy r) = Inl e"
    proof (cases "inherited_name (mr_allowed r)")
      case True
      show ?thesis by (simp add: p expanded_names(2) [OF True])
    next
      case False
      then obtain a where "expandCapabilityEntries (mr_allowed r) = Inr a" using expanded_names(1) by blast
      with True False show ?thesis by (simp add: p expanded_names(2))
    qed
    with True show ?thesis by (auto simp: parseMcpApiKeyPolicy_def invalidPolicy_def)
  next
    case False
    then obtain a d where "expandCapabilityEntries (mr_allowed r) = Inr a" "expandCapabilityEntries (mr_denied r) = Inr d"
      using expanded_names(1) by blast
    with False show ?thesis by (simp add: parseMcpApiKeyPolicy_def p)
  qed
  assume "mp_valid (parseMcpApiKeyPolicy (stored_policy r))"
  with v have clean: "\<not> inherited_name (mr_allowed r)" "\<not> inherited_name (mr_denied r)" by simp_all
  obtain a where a: "expandCapabilityEntries (mr_allowed r) = Inr a" "\<forall>n. n \<in> a \<longleftrightarrow> granted (mr_allowed r) n"
    using expanded_names(1) [OF clean(1)] by blast
  obtain d where d: "expandCapabilityEntries (mr_denied r) = Inr d" "\<forall>n. n \<in> d \<longleftrightarrow> granted (mr_denied r) n"
    using expanded_names(1) [OF clean(2)] by blast
  from a d show "mp_scopes (parseMcpApiKeyPolicy (stored_policy r)) = set (mr_scopes r)
      \<and> mp_rateLimit (parseMcpApiKeyPolicy (stored_policy r)) = mr_rateLimit r
      \<and> (\<forall>name. isMcpCapabilityAllowedByPolicy (parseMcpApiKeyPolicy (stored_policy r)) name
           \<longleftrightarrow> granted (mr_allowed r) name \<and> \<not> granted (mr_denied r) name)"
    by (simp add: parseMcpApiKeyPolicy_def p isMcpCapabilityAllowedByPolicy_def)
qed

text \<open>C36: a policy accepted for a new MCP key reads back from the stored row with its scopes and its rate limit, and
  allows exactly the capabilities its allow list grants and its deny list does not name, the core group standing for
  its eleven members. There is one exception: an entry that is the name of a property every object has (such as
  \<open>constructor\<close>) passes the check of a new key, but expanding it throws, and the stored policy is then invalid as a
  whole: the key can not do anything.\<close>

theorem mcp_policy_reads_back:
  assumes "buildMcpApiKeyPolicyRecord input = Inr r"
  defines "policy \<equiv> parseMcpApiKeyPolicy (stored_policy r)"
  shows "(mp_valid policy \<longleftrightarrow> \<not> inherited_name (mr_allowed r) \<and> \<not> inherited_name (mr_denied r))
    \<and> (mp_valid policy \<longrightarrow> mp_scopes policy = set (mr_scopes r) \<and> mp_rateLimit policy = mr_rateLimit r
        \<and> (\<forall>name. isMcpCapabilityAllowedByPolicy policy name \<longleftrightarrow> granted (mr_allowed r) name \<and> \<not> granted (mr_denied r) name))"
  using stored_policy_parse [OF buildMcpApiKeyPolicyRecord_ok [OF assms(1)]] unfolding policy_def by blast

definition sample_policy_input :: mcp_policy_json where
  "sample_policy_input = \<lparr> pj_scopes = JUndef, pj_allowed = JArr [JStr '' kanap.read.core '', JStr ''constructor''],
     pj_denied = JArr [JStr ''web_search''], pj_maxEffect = JUndef, pj_rateLimit = JNull \<rparr>"

definition sample_policy_record :: mcp_policy_record where
  "sample_policy_record = \<lparr> mr_scopes = MCP_DEFAULT_SCOPES, mr_allowed = [''kanap.read.core'', ''constructor''],
     mr_denied = [''web_search''], mr_maxEffect = ''read'', mr_rateLimit = 60 \<rparr>"

lemma sample_policy_built: "buildMcpApiKeyPolicyRecord sample_policy_input = Inr sample_policy_record"
  by code_simp

theorem mcp_policy_reads_back_witness:
  "buildMcpApiKeyPolicyRecord sample_policy_input = Inr sample_policy_record
   \<and> \<not> mp_valid (parseMcpApiKeyPolicy (stored_policy sample_policy_record))"
proof -
  have "inherited_name (mr_allowed sample_policy_record)" by code_simp
  then show ?thesis using mcp_policy_reads_back [OF sample_policy_built] sample_policy_built by blast
qed

subsection \<open>What an MCP call can execute\<close>

text \<open>The catalogues may write the model settings, as every policy check may, and nothing else.\<close>

definition registry_quiet :: "registry_env \<Rightarrow> bool" where
  "registry_quiet reg \<longleftrightarrow> (\<forall>ctx name version s. only_models s (fst (rg_tools reg ctx s))
     \<and> only_models s (fst (rg_bridge_list reg ctx s)) \<and> only_models s (fst (rg_bridge_resolve reg ctx name version s)))"

lemma olift_apply [simp]: "olift r s = (s, r)"
  by (simp add: olift_def)

lemma only_models_olift [simp]: "only_models s (fst (olift r s))"
  by simp

lemma listAvailable_only_models:
  assumes "registry_quiet reg" shows "only_models s (fst (listAvailableCapabilities reg ctx s))"
  using assms unfolding listAvailableCapabilities_def registry_quiet_def
  by (intro only_models_obind) (auto simp: oret_apply)

lemma resolve_only_models:
  assumes "registry_quiet reg" shows "only_models s (fst (resolve_capability reg ctx name version surface s))"
proof -
  have l: "only_models s (fst (resolve_listed reg ctx name version s))" for s name version
    unfolding resolve_listed_def
    by (intro only_models_obind listAvailable_only_models [OF assms]) (auto simp: oguard_apply oret_apply split: option.split)
  show ?thesis
    using assms unfolding resolve_capability_def registry_quiet_def Let_def
    by (intro only_models_obind only_models_olift)
      (auto simp: oguard_apply oret_apply l split: option.split intro!: only_models_obind)
qed

lemma resources_readable_True:
  "snd (resources_readable env now ctx rs s) = Inr True \<Longrightarrow> resource \<in> set rs
   \<Longrightarrow> hasPermission (getEffectivePermissionStateOrNull (ctx_userId ctx) s) resource ''reader''"
proof (induction rs arbitrary: s)
  case (Cons r rs)
  let ?a = "assertBusinessPermission env now ctx r ''reader''"
  have only: "only_models s (fst (?a s))"
    unfolding assertBusinessPermission_def
    by (intro only_models_obind assertSurfaceAccess_only_models) (simp add: assertUserPermission_ok)
  obtain s1 x where a: "?a s = (s1, x)" by force
  with Cons.prems(1) have x: "x = Inr ()" and rest: "snd (resources_readable env now ctx rs s1) = Inr True"
    by (cases x; simp add: obind_apply otry_def oret_apply)+
  have "snd (?a s) = Inr ()" using a x by simp
  then have r: "hasPermission (getEffectivePermissionStateOrNull (ctx_userId ctx) s) r ''reader''"
    using only_models_apart(1) [OF assertSurfaceAccess_only_models [of s env now ctx]]
    by (simp add: assertBusinessPermission_def snd_obind_ok assertUserPermission_ok)
  have "getEffectivePermissionStateOrNull (ctx_userId ctx) s1 = getEffectivePermissionStateOrNull (ctx_userId ctx) s"
    using only_models_apart(1) [OF only] a by simp
  with r Cons.IH [OF rest] Cons.prems(2) show ?case by auto
qed simp

lemma visible_True:
  assumes "snd (isCapabilityVisible env now ctx c policy s) = Inr True"
  shows "''mcp'' \<in> set (c_supported_surfaces c)" "mcp_readable c" "isMcpCapabilityAllowedByPolicy policy (c_name c)"
    "\<forall>resource\<in>set (c_business_resources c). hasPermission (getEffectivePermissionStateOrNull (ctx_userId ctx) s) resource ''reader''"
  using assms resources_readable_True [of env now ctx "c_business_resources c" s]
  by (auto simp: isCapabilityVisible_def mcp_readable_def oret_apply split: if_splits)

lemma bound_Inr: "assertApiKeyBoundToContext ctx apiKey = Inr () \<longleftrightarrow>
    (truthy (mk_tenant_id apiKey) \<longrightarrow> mk_tenant_id apiKey = Some (ctx_tenantId ctx))
    \<and> (truthy (mk_user_id apiKey) \<longrightarrow> mk_user_id apiKey = Some (ctx_userId ctx))"
  by (auto simp: assertApiKeyBoundToContext_def rguard_eq_Inr)

lemma allowed_key_Inr: "assertApiKeyAllowedForContext ctx apiKey scope = Inr policy \<Longrightarrow>
    policy = parsePolicy apiKey \<and> mp_valid policy \<and> scope \<in> mp_scopes policy"
  by (auto simp: assertApiKeyAllowedForContext_def Let_def rbind_eq_Inr assertMcpScope_def rguard_eq_Inr)

text \<open>C35: the capability an MCP call may execute is one the registry resolves its name to, read-only, without approval
  and exposed to MCP; the call passed the guard of the MCP surface; its key belongs to the tenant and the user of the
  call, has the scope to execute, and allows and does not deny the capability; and the user can read every business
  resource the capability declares.\<close>

theorem mcp_execution_guarded:
  assumes "registry_quiet reg" and "snd (assertCanExecute env reg now ctx apiKey name s) = Inr (c, h)"
  shows "(\<exists>s'. snd (resolve_capability reg ctx name COMPATIBILITY_CAPABILITY_VERSION None s') = Inr (c, h))
    \<and> snd (assertSurfaceAccess env now ctx s) = Inr ()
    \<and> (truthy (mk_tenant_id apiKey) \<longrightarrow> mk_tenant_id apiKey = Some (ctx_tenantId ctx))
    \<and> (truthy (mk_user_id apiKey) \<longrightarrow> mk_user_id apiKey = Some (ctx_userId ctx))
    \<and> ''mcp:tools:execute'' \<in> mp_scopes (parsePolicy apiKey)
    \<and> c_effect c = ''read'' \<and> c_default_approval c = ''none'' \<and> c_mcp_enabled c \<and> c_mcp_read_only c
    \<and> ''mcp'' \<in> set (c_supported_surfaces c)
    \<and> isMcpCapabilityAllowedByPolicy (parsePolicy apiKey) (c_name c)
    \<and> (\<forall>resource\<in>set (c_business_resources c).
         hasPermission (getEffectivePermissionStateOrNull (ctx_userId ctx) s) resource ''reader'')"
proof -
  define s1 where "s1 = fst (assertPostAccess env now ctx apiKey s)"
  define s2 where "s2 = fst (resolve_capability reg ctx name COMPATIBILITY_CAPABILITY_VERSION None s1)"
  have post: "snd (assertPostAccess env now ctx apiKey s) = Inr ()"
    and key: "assertApiKeyAllowedForContext ctx apiKey ''mcp:tools:execute'' = Inr (parsePolicy apiKey)"
    and res: "snd (resolve_capability reg ctx name COMPATIBILITY_CAPABILITY_VERSION None s1) = Inr (c, h)"
    and vis: "snd (isCapabilityVisible env now ctx c (parsePolicy apiKey) s2) = Inr True"
    using assms(2) by (auto simp: assertCanExecute_def snd_obind_ok snd_oguard_ok oret_apply s1_def s2_def dest: allowed_key_Inr)
  have "only_models s s1"
    unfolding s1_def assertPostAccess_def by (intro only_models_obind assertSurfaceAccess_only_models) simp
  then have "only_models s s2"
    unfolding s2_def by (rule only_models_trans) (rule resolve_only_models [OF assms(1)])
  then have perms: "getEffectivePermissionStateOrNull u s2 = getEffectivePermissionStateOrNull u s" for u
    by (rule only_models_apart)
  have "snd (assertSurfaceAccess env now ctx s) = Inr ()" "assertApiKeyBoundToContext ctx apiKey = Inr ()"
    using post by (auto simp: assertPostAccess_def snd_obind_ok)
  with allowed_key_Inr [OF key] visible_True [OF vis] res show ?thesis
    unfolding bound_Inr perms mcp_readable_def by blast
qed

subsection \<open>Tools as contracts\<close>

definition tool_ok :: "tool_item \<Rightarrow> bool" where
  "tool_ok tool \<longleftrightarrow> trimmed_text (ti_name tool) \<and> trimmed_text (ti_category tool) \<and> trimmed_text (ti_description tool)
     \<and> ti_surfaces tool \<noteq> [] \<and> set (ti_surfaces tool) \<subseteq> set CAPABILITY_SURFACES
     \<and> (case ti_write_preview tool of Some w \<Rightarrow> wp_entity_type w = [] \<or> trimmed_text (wp_entity_type w) | None \<Rightarrow> True)"

lemma known_surfaces: "set xs \<subseteq> set CAPABILITY_SURFACES \<Longrightarrow> rmap toCapabilitySurface xs = Inr xs"
  by (induction xs) (simp_all add: toCapabilitySurface_def)

lemma contract_words:
  "trimmed_text ''1.0.0''" "trimmed_text ''ai.surface''" "trimmed_text ''input''" "''kanap_domain'' \<in> set CAPABILITY_PROVIDER_KINDS"
  "''read'' \<in> set CAPABILITY_EFFECTS" "''propose'' \<in> set CAPABILITY_EFFECTS" "''low'' \<in> set CAPABILITY_RISK_LEVELS"
  "''medium'' \<in> set CAPABILITY_RISK_LEVELS" "''A1'' \<in> set CAPABILITY_AUTONOMY_LEVELS" "''A2'' \<in> set CAPABILITY_AUTONOMY_LEVELS"
  "''none'' \<in> set CAPABILITY_APPROVALS" "''live_read'' \<in> set LIVE_TEST_SAFETIES" "''live_write_gated'' \<in> set LIVE_TEST_SAFETIES"
  by code_simp+

text \<open>A tool with trimmed texts and known surfaces is always wrapped: the schema never refuses it.\<close>

lemma compatibilityContract_total:
  assumes "tool_ok tool" and "isRecord inputSchema"
  shows "compatibilityContract tool inputSchema = Inr (compatibility_row tool inputSchema (ti_surfaces tool))"
proof -
  have surfaces: "list_all (\<lambda>x. x \<in> set CAPABILITY_SURFACES) (ti_surfaces tool)" using assms(1) by (auto simp: tool_ok_def list_all_iff)
  have "isRecord (JObj kvs)" for kvs by (simp add: isRecord_def)
  with surfaces have "contract_valid (compatibility_row tool inputSchema (ti_surfaces tool))"
    using assms by (cases "ti_read_only tool"; cases "ti_write_preview tool")
      (auto simp: contract_valid_def compatibility_row_def Let_def tool_ok_def contract_words COMPATIBILITY_CAPABILITY_VERSION_def
        refine_issues_def with_default_def)
  with assms show ?thesis by (simp add: compatibilityContract_def tool_ok_def known_surfaces Let_def)
qed

definition sample_tool :: tool_item where
  "sample_tool = \<lparr> ti_name = ''search_all'', ti_category = ''search'', ti_description = ''Search'', ti_read_only = True,
     ti_surfaces = [''chat'', ''mcp''], ti_write_preview = None \<rparr>"

definition sample_registry :: registry_env where
  "sample_registry = \<lparr> rg_tools = (\<lambda>ctx. oret [sample_tool]), rg_schema = (\<lambda>name. JObj []), rg_internal = [], rg_providers = [],
     rg_hasBridge = False, rg_bridge_list = (\<lambda>ctx. oret []), rg_bridge_resolve = (\<lambda>ctx name version. oret None) \<rparr>"

definition sample_mcp_access :: access_db where
  "sample_mcp_access = sample_access\<lparr>ad_permissions :=
     [\<lparr> rp_id = ''p3'', rp_tenant_id = ''t1'', rp_role_id = ''r1'', rp_resource = ''ai_mcp'', rp_level = ''reader'' \<rparr>]\<rparr>"

definition sample_mcp_context :: access_context where
  "sample_mcp_context = sample_access_context\<lparr>ctx_surface := ''mcp''\<rparr>"

definition sample_mcp_key :: mcp_key_context where
  "sample_mcp_key = \<lparr> pj_scopes = JUndef, pj_allowed = JUndef, pj_denied = JUndef, pj_maxEffect = JStr ''read'',
     pj_rateLimit = JNum (JFin ''60''), mk_id = Some ''k1'', mk_tenant_id = Some ''t1'', mk_user_id = Some ''u1'',
     mk_view_scopes = JArr [JStr ''mcp:tools:execute''], mk_view_allowed = JArr [JStr ''kanap.read.core''], mk_view_denied = JArr [] \<rparr>"

lemma sample_registry_quiet: "registry_quiet sample_registry"
  by (simp add: registry_quiet_def sample_registry_def oret_apply)

lemma sample_tool_ok: "tool_ok sample_tool"
  by code_simp

definition sample_tool_contract :: capability_contract where
  "sample_tool_contract = compatibility_row sample_tool (JObj []) [''chat'', ''mcp'']"

lemma sample_resolved:
  "resolve_capability sample_registry sample_mcp_context ''search_all'' COMPATIBILITY_CAPABILITY_VERSION None s
     = (s, Inr (sample_tool_contract, ToolHandler ''search_all''))"
proof -
  have "compatibilityContract sample_tool (JObj []) = Inr sample_tool_contract"
    using compatibilityContract_total [OF sample_tool_ok, of "JObj []"] by (simp add: isRecord_def sample_tool_contract_def sample_tool_def)
  then have l: "listAvailableCapabilities sample_registry sample_mcp_context s = (s, Inr [sample_tool_contract])" for s
    by (simp add: listAvailableCapabilities_def sample_registry_def obind_apply oret_apply)
  have c: "c_name sample_tool_contract = ''search_all''" "c_version sample_tool_contract = COMPATIBILITY_CAPABILITY_VERSION"
      "c_ai_tool_name sample_tool_contract = Some ''search_all''"
    by code_simp+
  have m: "toCapabilitySurface (ctx_surface sample_mcp_context) = Inr ''mcp''" by code_simp
  have r: "rg_internal sample_registry = []" "rg_providers sample_registry = []" "\<not> rg_hasBridge sample_registry"
    by (simp_all add: sample_registry_def)
  show ?thesis
    by (simp add: resolve_capability_def resolve_listed_def Let_def obind_apply oret_apply oguard_apply l c m r truthy_def)
qed

lemma sample_can_execute:
  "snd (assertCanExecute sample_access_env sample_registry 1000 sample_mcp_context sample_mcp_key ''search_all'' sample_mcp_access)
     = Inr (sample_tool_contract, ToolHandler ''search_all'')"
proof -
  have p: "snd (assertPostAccess sample_access_env 1000 sample_mcp_context sample_mcp_key sample_mcp_access) = Inr ()" by code_simp
  have "case assertApiKeyAllowedForContext sample_mcp_context sample_mcp_key ''mcp:tools:execute'' of
      Inr policy \<Rightarrow> isMcpCapabilityAllowedByPolicy policy ''search_all'' | Inl _ \<Rightarrow> False" by code_simp
  then obtain policy where k: "assertApiKeyAllowedForContext sample_mcp_context sample_mcp_key ''mcp:tools:execute'' = Inr policy"
      "isMcpCapabilityAllowedByPolicy policy ''search_all''"
    by (auto split: sum.splits)
  have c: "''mcp'' \<in> set (c_supported_surfaces sample_tool_contract)" "c_effect sample_tool_contract = ''read''"
    "c_default_approval sample_tool_contract = ''none''" "c_mcp_enabled sample_tool_contract" "c_mcp_read_only sample_tool_contract"
    "c_name sample_tool_contract = ''search_all''" "c_business_resources sample_tool_contract = []"
    by code_simp+
  show ?thesis
    by (simp add: assertCanExecute_def snd_obind_ok snd_oguard_ok p k sample_resolved isCapabilityVisible_def c oret_apply) blast
qed

theorem mcp_execution_guarded_witness:
  "snd (assertCanExecute sample_access_env sample_registry 1000 sample_mcp_context sample_mcp_key ''search_all'' sample_mcp_access)
     = Inr (sample_tool_contract, ToolHandler ''search_all'')
   \<and> c_effect sample_tool_contract = ''read''
   \<and> isMcpCapabilityAllowedByPolicy (parsePolicy sample_mcp_key) (c_name sample_tool_contract)"
  using mcp_execution_guarded [OF sample_registry_quiet sample_can_execute] sample_can_execute by blast

end
