(* ===== verification/ApiKeys.thy ===== *)
theory ApiKeys
  imports Mcp
begin

section \<open>MCP API keys (ai-api-keys.service.ts, auth/mcp-api-key-hash.service.ts, auth/mcp-api-key-auth.guard.ts)\<close>

text \<open>
  The keys that open the MCP surface: how one is made and stored, how a presented key is authenticated, revoked and
  bound to the tenant of a request.  SHA-256 (as hexadecimal text) and the random parts of new keys are parameters.
\<close>

subsection \<open>The text of a key\<close>

record key_env =
  ke_models :: model_env
  ke_sha256 :: "string \<Rightarrow> string"
  ke_prefix :: "nat \<Rightarrow> string"
  ke_secret :: "nat \<Rightarrow> string"
  ke_uuid :: "nat \<Rightarrow> string"
  ke_hasAudit :: bool
  ke_hasExecutor :: bool

definition MCP_KEY_PREFIX :: string where "MCP_KEY_PREFIX = ''kanap_mcp''"

definition raw_key :: "string \<Rightarrow> string \<Rightarrow> string" where
  "raw_key keyPrefix secret = MCP_KEY_PREFIX @ ''_'' @ keyPrefix @ ''_'' @ secret"

record generated_key =
  gk_rawKey :: string
  gk_keyPrefix :: string
  gk_keyHash :: string

definition generate_key :: "key_env \<Rightarrow> nat \<Rightarrow> generated_key" where
  "generate_key env n =
     (let keyPrefix = ke_prefix env n; rawKey = raw_key keyPrefix (ke_secret env n) in
      \<lparr> gk_rawKey = rawKey, gk_keyPrefix = keyPrefix, gk_keyHash = ke_sha256 env rawKey \<rparr>)"

definition lower_hex :: "char \<Rightarrow> bool" where
  "lower_hex c \<longleftrightarrow> is_digit c \<or> CHR ''a'' \<le> c \<and> c \<le> CHR ''f''"

definition key_char :: "char \<Rightarrow> bool" where
  "key_char c \<longleftrightarrow> CHR ''A'' \<le> c \<and> c \<le> CHR ''Z'' \<or> CHR ''a'' \<le> c \<and> c \<le> CHR ''z'' \<or> is_digit c \<or> c = CHR ''-'' \<or> c = CHR ''_''"

text \<open>The expression is anchored at both ends and its parts have fixed places.\<close>

definition extractPrefix :: "string \<Rightarrow> string option" where
  "extractPrefix rawKey =
     (let head = MCP_KEY_PREFIX @ ''_''; rest = drop (length head) rawKey; secret = drop 13 rest in
      if take (length head) rawKey = head \<and> 12 < length rest \<and> list_all lower_hex (take 12 rest) \<and> rest ! 12 = CHR ''_''
         \<and> secret \<noteq> [] \<and> list_all key_char secret
      then Some (take 12 rest) else None)"

text \<open>\<open>Buffer.from(text, 'hex')\<close> reads pairs of digits up to the first that is none.\<close>

definition hex_digit_of :: "char \<Rightarrow> nat option" where
  "hex_digit_of c =
     (if is_digit c then Some (of_char c - 48)
      else if CHR ''a'' \<le> c \<and> c \<le> CHR ''f'' then Some (of_char c - 87)
      else if CHR ''A'' \<le> c \<and> c \<le> CHR ''F'' then Some (of_char c - 55) else None)"

fun hex_bytes :: "string \<Rightarrow> nat list" where
  "hex_bytes (a # b # s) =
     (case (hex_digit_of a, hex_digit_of b) of (Some x, Some y) \<Rightarrow> (16 * x + y) # hex_bytes s | _ \<Rightarrow> [])"
| "hex_bytes _ = []"

definition matches :: "key_env \<Rightarrow> string \<Rightarrow> string \<Rightarrow> bool" where
  "matches env rawKey storedHash \<longleftrightarrow>
     (let rawBuffer = hex_bytes (ke_sha256 env rawKey); storedBuffer = hex_bytes storedHash;
          comparableBuffer = (if length storedBuffer = length rawBuffer then storedBuffer else replicate (length rawBuffer) 0)
      in rawBuffer = comparableBuffer \<and> length storedBuffer = length rawBuffer)"

subsection \<open>Rows and views\<close>

record api_key =
  ak_id :: string
  ak_tenant_id :: string
  ak_user_id :: string
  ak_key_hash :: string
  ak_key_prefix :: string
  ak_label :: string
  ak_expires_at :: "int option"
  ak_last_used_at :: "int option"
  ak_revoked_at :: "int option"
  ak_revoked_by_user_id :: "string option"
  ak_revocation_reason :: "string option"
  ak_mcp_scopes :: jsval
  ak_mcp_allowed :: jsval
  ak_mcp_denied :: jsval
  ak_mcp_max_effect :: string
  ak_mcp_rate_limit :: int
  ak_created_at :: int
  ak_created_by_user_id :: string

record key_view =
  kv_id :: string
  kv_tenant_id :: string
  kv_user_id :: string
  kv_key_prefix :: string
  kv_label :: string
  kv_expires_at :: "string option"
  kv_last_used_at :: "string option"
  kv_revoked_at :: "string option"
  kv_revoked_by_user_id :: "string option"
  kv_revocation_reason :: "string option"
  kv_mcp_scopes :: jsval
  kv_mcp_allowed :: jsval
  kv_mcp_denied :: jsval
  kv_mcp_max_effect :: string
  kv_mcp_rate_limit :: int
  kv_created_at :: string
  kv_created_by_user_id :: string

text \<open>\<open>toISOString()\<close> of an instant in milliseconds, for the years of four digits.\<close>

definition iso_instant :: "int \<Rightarrow> string" where
  "iso_instant t =
     (let ms = t mod 86400000 in
      iso_day (t div 86400000) @ ''T'' @ two_digits (ms div 3600000) @ '':'' @ two_digits (ms div 60000 mod 60)
        @ '':'' @ two_digits (ms div 1000 mod 60) @ ''.'' @ pad_start 3 (CHR ''0'') (show_nat (nat (ms mod 1000))) @ ''Z'')"

definition array_or_empty :: "jsval \<Rightarrow> jsval" where
  "array_or_empty v = (case v of JArr vs \<Rightarrow> JArr vs | _ \<Rightarrow> JArr [])"

definition key_toView :: "api_key \<Rightarrow> key_view" where
  "key_toView r =
     \<lparr> kv_id = ak_id r, kv_tenant_id = ak_tenant_id r, kv_user_id = ak_user_id r, kv_key_prefix = ak_key_prefix r,
       kv_label = ak_label r, kv_expires_at = map_option iso_instant (ak_expires_at r),
       kv_last_used_at = map_option iso_instant (ak_last_used_at r), kv_revoked_at = map_option iso_instant (ak_revoked_at r),
       kv_revoked_by_user_id = ak_revoked_by_user_id r, kv_revocation_reason = ak_revocation_reason r,
       kv_mcp_scopes = array_or_empty (ak_mcp_scopes r), kv_mcp_allowed = array_or_empty (ak_mcp_allowed r),
       kv_mcp_denied = array_or_empty (ak_mcp_denied r), kv_mcp_max_effect = ak_mcp_max_effect r,
       kv_mcp_rate_limit = ak_mcp_rate_limit r, kv_created_at = iso_instant (ak_created_at r),
       kv_created_by_user_id = ak_created_by_user_id r \<rparr>"

text \<open>The request carries the view of its key into the exposure service.\<close>

definition key_context_of :: "key_view \<Rightarrow> mcp_key_context" where
  "key_context_of v =
     \<lparr> pj_scopes = JUndef, pj_allowed = JUndef, pj_denied = JUndef, pj_maxEffect = JStr (kv_mcp_max_effect v),
       pj_rateLimit = JNum (int_num (kv_mcp_rate_limit v)), mk_id = Some (kv_id v), mk_tenant_id = Some (kv_tenant_id v),
       mk_user_id = Some (kv_user_id v), mk_view_scopes = kv_mcp_scopes v, mk_view_allowed = kv_mcp_allowed v,
       mk_view_denied = kv_mcp_denied v \<rparr>"

subsection \<open>The store\<close>

datatype audit_after = AuthenticationFailed string "string option" | KeyShown key_view

record key_audit =
  ka_recordId :: "string option"
  ka_action :: string
  ka_before :: "key_view option"
  ka_after :: audit_after
  ka_userId :: "string option"

record key_db =
  kd_keys :: "api_key list"
  kd_access :: access_db
  kd_audit :: "key_audit list"
  kd_minted :: nat

type_synonym 'a kop = "(key_db, 'a) act"

record key_opts =
  ko_manager :: bool
  ko_tenantId :: "string option"

definition logAudit :: "key_env \<Rightarrow> key_opts \<Rightarrow> string option \<Rightarrow> key_audit \<Rightarrow> unit kop" where
  "logAudit env opts tenantId entry = (\<lambda>s.
     (if ke_hasAudit env \<and> (ko_manager opts \<or> truthy tenantId \<and> ke_hasExecutor env)
      then s\<lparr>kd_audit := kd_audit s @ [entry]\<rparr> else s, Inr ()))"

definition mint_key :: "nat kop" where
  "mint_key = (\<lambda>s. (s\<lparr>kd_minted := Suc (kd_minted s)\<rparr>, Inr (kd_minted s)))"

definition on_access :: "'a aop \<Rightarrow> 'a kop" where
  "on_access m = (\<lambda>s. case m (kd_access s) of (d, r) \<Rightarrow> (s\<lparr>kd_access := d\<rparr>, r))"

definition save_key :: "api_key \<Rightarrow> unit kop" where
  "save_key row = (\<lambda>s. (s\<lparr>kd_keys := save_row ak_id row (kd_keys s)\<rparr>, Inr ()))"

text \<open>A new row is refused when the tenant already has a key with its prefix (a unique index).\<close>

definition insert_key :: "api_key \<Rightarrow> unit kop" where
  "insert_key row = (\<lambda>s.
     if list_ex (\<lambda>r. ak_tenant_id r = ak_tenant_id row \<and> ak_key_prefix r = ak_key_prefix row) (kd_keys s)
     then (s, Inl UniqueViolation) else save_key row s)"

definition UNAUTHORIZED :: "string \<Rightarrow> ai_error" where
  "UNAUTHORIZED message = Coded ''UNAUTHORIZED'' message"

definition findWithHash :: "string \<Rightarrow> key_opts \<Rightarrow> key_db \<Rightarrow> api_key list" where
  "findWithHash keyPrefix opts s =
     filter (\<lambda>r. ak_key_prefix r = keyPrefix \<and> (truthy (ko_tenantId opts) \<longrightarrow> ko_tenantId opts = Some (ak_tenant_id r))) (kd_keys s)"

subsection \<open>Making a key\<close>

record create_key_input =
  ci_tenantId :: string
  ci_userId :: string
  ci_label :: string
  ci_expiresAt :: "int option"
  ci_createdByUserId :: string
  ci_mcpScopes :: jsval
  ci_mcpAllowed :: jsval
  ci_mcpDenied :: jsval
  ci_mcpRateLimit :: jsval

definition key_expiry :: "int \<Rightarrow> ai_settings option \<Rightarrow> int option \<Rightarrow> int option" where
  "key_expiry now settings expiresAt =
     (case Option.bind settings set_mcp_key_max_lifetime_days of
        None \<Rightarrow> expiresAt
      | Some days \<Rightarrow>
          if days = 0 then expiresAt
          else let maxExpiry = now + days * 86400000 in
            (case expiresAt of None \<Rightarrow> Some maxExpiry | Some e \<Rightarrow> if e > maxExpiry then Some maxExpiry else Some e))"

definition key_policy_input :: "create_key_input \<Rightarrow> mcp_policy_json" where
  "key_policy_input input =
     \<lparr> pj_scopes = ci_mcpScopes input, pj_allowed = ci_mcpAllowed input, pj_denied = ci_mcpDenied input,
       pj_maxEffect = JStr ''read'', pj_rateLimit = nullish_or (ci_mcpRateLimit input) JUndef \<rparr>"

definition new_key :: "int \<Rightarrow> string \<Rightarrow> create_key_input \<Rightarrow> int option \<Rightarrow> generated_key \<Rightarrow> mcp_policy_record \<Rightarrow> api_key" where
  "new_key now keyId input expiresAt gk policy =
     \<lparr> ak_id = keyId, ak_tenant_id = ci_tenantId input, ak_user_id = ci_userId input, ak_key_hash = gk_keyHash gk,
       ak_key_prefix = gk_keyPrefix gk, ak_label = js_trim (ci_label input), ak_expires_at = expiresAt, ak_last_used_at = None,
       ak_revoked_at = None, ak_revoked_by_user_id = None, ak_revocation_reason = None,
       ak_mcp_scopes = JArr (map JStr (mr_scopes policy)), ak_mcp_allowed = JArr (map JStr (mr_allowed policy)),
       ak_mcp_denied = JArr (map JStr (mr_denied policy)), ak_mcp_max_effect = mr_maxEffect policy,
       ak_mcp_rate_limit = mr_rateLimit policy, ak_created_at = now, ak_created_by_user_id = ci_createdByUserId input \<rparr>"

definition createKey :: "key_env \<Rightarrow> int \<Rightarrow> create_key_input \<Rightarrow> key_opts \<Rightarrow> (string \<times> key_view) kop" where
  "createKey env now input opts =
     oguard (js_trim (ci_label input) = []) (BadRequest ''A label is required for MCP API keys.'')
       (obind (on_access (on_models (find_ai_settings (ke_models env) now (ci_tenantId input)))) (\<lambda>settings.
        let expiresAt = key_expiry now settings (ci_expiresAt input) in
        obind mint_key (\<lambda>n.
        let gk = generate_key env n in
        obind (olift (buildMcpApiKeyPolicyRecord (key_policy_input input))) (\<lambda>policy.
        let row = new_key now (ke_uuid env n) input expiresAt gk policy in
        obind (insert_key row) (\<lambda>_.
        obind (logAudit env opts (Some (ci_tenantId input))
          \<lparr> ka_recordId = Some (ak_id row), ka_action = ''create'', ka_before = None, ka_after = KeyShown (key_toView row),
            ka_userId = Some (ci_createdByUserId input) \<rparr>) (\<lambda>_.
        oret (gk_rawKey gk, key_toView row)))))))"

definition listForUser :: "string \<Rightarrow> string \<Rightarrow> key_db \<Rightarrow> key_view list" where
  "listForUser tenantId userId s =
     map key_toView (sort_key (\<lambda>r. - ak_created_at r) (filter (\<lambda>r. ak_tenant_id r = tenantId \<and> ak_user_id r = userId) (kd_keys s)))"

definition listForTenant :: "string \<Rightarrow> key_db \<Rightarrow> key_view list" where
  "listForTenant tenantId s =
     map key_toView (sort_key (\<lambda>r. - ak_created_at r) (filter (\<lambda>r. ak_tenant_id r = tenantId) (kd_keys s)))"

definition revoked_row :: "int \<Rightarrow> string option \<Rightarrow> string option \<Rightarrow> api_key \<Rightarrow> api_key" where
  "revoked_row now userId reason r =
     r\<lparr>ak_revoked_at := Some now, ak_revoked_by_user_id := or_else userId (ak_revoked_by_user_id r),
       ak_revocation_reason := or_else reason (ak_revocation_reason r)\<rparr>"

definition revokeKey :: "key_env \<Rightarrow> int \<Rightarrow> string \<Rightarrow> string option \<Rightarrow> string option \<Rightarrow> key_opts \<Rightarrow> key_view option kop" where
  "revokeKey env now keyId userId reason opts =
     obind (oread (\<lambda>s. find_row ak_id keyId (kd_keys s))) (\<lambda>found.
       case found of
         None \<Rightarrow> oret None
       | Some r \<Rightarrow>
           let saved = revoked_row now userId reason r in
           obind (save_key saved) (\<lambda>_.
           obind (logAudit env opts (Some (ak_tenant_id saved))
             \<lparr> ka_recordId = Some (ak_id saved), ka_action = ''disable'', ka_before = Some (key_toView r),
               ka_after = KeyShown (key_toView saved), ka_userId = userId \<rparr>) (\<lambda>_.
           oret (Some (key_toView saved)))))"

subsection \<open>Authenticating a key\<close>

text \<open>A refusal is written to the audit log before it is thrown.\<close>

definition refuse_key :: "key_env \<Rightarrow> key_opts \<Rightarrow> string option \<Rightarrow> string option \<Rightarrow> string option \<Rightarrow> string \<Rightarrow> string option \<Rightarrow> string \<Rightarrow> 'a kop" where
  "refuse_key env opts tenantId recordId userId reason keyPrefix message =
     obind (logAudit env opts tenantId
       \<lparr> ka_recordId = recordId, ka_action = ''update'', ka_before = None, ka_after = AuthenticationFailed reason keyPrefix,
         ka_userId = userId \<rparr>) (\<lambda>_. othrow (UNAUTHORIZED message))"

definition owner_allowed :: "access_db \<Rightarrow> user_row option \<Rightarrow> bool" where
  "owner_allowed s user =
     (case user of
        None \<Rightarrow> False
      | Some u \<Rightarrow> usr_status u = ''enabled''
          \<and> (case role_of s (usr_role_id u) of
               None \<Rightarrow> False
             | Some r \<Rightarrow> \<not> rol_is_system r \<or> js_lower (rol_role_name r) = ''administrator''))"

definition find_user :: "string \<Rightarrow> access_db \<Rightarrow> user_row option" where
  "find_user userId s = List.find (\<lambda>u. usr_id u = userId) (ad_users s)"

definition refuse_row :: "key_env \<Rightarrow> key_opts \<Rightarrow> api_key \<Rightarrow> string \<Rightarrow> string \<Rightarrow> 'a kop" where
  "refuse_row env opts r reason message =
     refuse_key env opts (Some (ak_tenant_id r)) (Some (ak_id r)) (Some (ak_user_id r)) reason None message"

definition authenticate_row :: "key_env \<Rightarrow> int \<Rightarrow> key_opts \<Rightarrow> api_key \<Rightarrow> (api_key \<times> user_row) kop" where
  "authenticate_row env now opts r =
     (if ak_revoked_at r \<noteq> None then refuse_row env opts r ''revoked'' ''MCP API key has been revoked.''
      else if (case ak_expires_at r of Some e \<Rightarrow> e \<le> now | None \<Rightarrow> False)
      then refuse_row env opts r ''expired'' ''MCP API key has expired.''
      else obind (oread (\<lambda>s. (find_user (ak_user_id r) (kd_access s), kd_access s))) (\<lambda>(user, access).
        if \<not> owner_allowed access user
        then refuse_row env opts r ''owner_not_allowed'' ''The MCP API key owner is not allowed to authenticate.''
        else
          let used = r\<lparr>ak_last_used_at := Some now\<rparr> in
          obind (save_key used) (\<lambda>_.
          obind (logAudit env opts (Some (ak_tenant_id r))
            \<lparr> ka_recordId = Some (ak_id r), ka_action = ''update'', ka_before = Some (key_toView r),
              ka_after = KeyShown (key_toView used), ka_userId = Some (ak_user_id r) \<rparr>) (\<lambda>_.
          oret (used, the user)))))"

definition authenticatePresentedKey :: "key_env \<Rightarrow> int \<Rightarrow> string \<Rightarrow> key_opts \<Rightarrow> (api_key \<times> user_row) kop" where
  "authenticatePresentedKey env now presentedKey opts =
     (case extractPrefix presentedKey of
        None \<Rightarrow> refuse_key env opts (ko_tenantId opts) None None ''invalid_key_format'' None ''Invalid MCP API key.''
      | Some keyPrefix \<Rightarrow>
          obind (oread (findWithHash keyPrefix opts)) (\<lambda>records.
            case List.find (\<lambda>r. ak_key_hash r \<noteq> [] \<and> matches env presentedKey (ak_key_hash r)) records of
              None \<Rightarrow> refuse_key env opts
                (or_else (ko_tenantId opts) (case records of r # _ \<Rightarrow> Some (ak_tenant_id r) | [] \<Rightarrow> None))
                None None ''invalid_key'' (Some keyPrefix) ''Invalid MCP API key.''
            | Some r \<Rightarrow> authenticate_row env now opts r))"

subsection \<open>The guard of the MCP endpoint\<close>

record mcp_request =
  rq_tenantId :: "string option"
  rq_authorization :: "string option"
  rq_xApiKey :: "string option"

record mcp_authenticated =
  ma_tenantId :: string
  ma_userId :: string
  ma_aiApiKeyId :: string
  ma_aiApiKey :: key_view

definition nonempty :: "string \<Rightarrow> string option" where
  "nonempty t = (if t = [] then None else Some t)"

definition extractRawKey :: "mcp_request \<Rightarrow> string option" where
  "extractRawKey req =
     (let authHeader = js_trim (with_default [] (rq_authorization req)) in
      if starts_with ''Bearer '' authHeader then nonempty (js_trim (drop (length ''Bearer '') authHeader))
      else nonempty (js_trim (with_default [] (rq_xApiKey req))))"

definition request_tenant :: "mcp_request \<Rightarrow> api_key \<Rightarrow> string kop" where
  "request_tenant req apiKey =
     (if truthy (rq_tenantId req)
      then oguard (rq_tenantId req \<noteq> Some (ak_tenant_id apiKey)) (UNAUTHORIZED ''MCP API key tenant mismatch'') (oret (the (rq_tenantId req)))
      else obind (oread (\<lambda>s. find_tenant (ak_tenant_id apiKey) (kd_access s))) (\<lambda>tenant.
        case tenant of None \<Rightarrow> othrow (UNAUTHORIZED ''Tenant not found'') | Some t \<Rightarrow> oret (ten_id t)))"

definition canActivate :: "key_env \<Rightarrow> int \<Rightarrow> mcp_request \<Rightarrow> mcp_authenticated kop" where
  "canActivate env now req =
     (case extractRawKey req of
        None \<Rightarrow> othrow (UNAUTHORIZED ''Missing MCP API key'')
      | Some rawKey \<Rightarrow>
          obind (authenticatePresentedKey env now rawKey
            \<lparr> ko_manager = False, ko_tenantId = (if truthy (rq_tenantId req) then rq_tenantId req else None) \<rparr>) (\<lambda>(apiKey, user).
          obind (request_tenant req apiKey) (\<lambda>tenantId.
          oret \<lparr> ma_tenantId = tenantId, ma_userId = usr_id user, ma_aiApiKeyId = ak_id apiKey, ma_aiApiKey = key_toView apiKey \<rparr>)))"

subsection \<open>Lemmas\<close>

lemma logAudit_simps [simp]: "snd (logAudit env opts t entry s) = Inr ()" "kd_keys (fst (logAudit env opts t entry s)) = kd_keys s"
  "kd_access (fst (logAudit env opts t entry s)) = kd_access s"
  by (simp_all add: logAudit_def)

lemma refuse_never: "snd (refuse_key env opts t i u reason p m s) \<noteq> Inr x" "snd (refuse_row env opts r reason m s) \<noteq> Inr x"
  by (auto simp: refuse_row_def refuse_key_def snd_obind_ok)

lemma save_key_simps [simp]: "snd (save_key r s) = Inr ()" "kd_keys (fst (save_key r s)) = save_row ak_id r (kd_keys s)"
  "kd_access (fst (save_key r s)) = kd_access s"
  by (simp_all add: save_key_def)

definition unexpired :: "int \<Rightarrow> int option \<Rightarrow> bool" where
  "unexpired now expiry \<longleftrightarrow> (\<forall>e. expiry = Some e \<longrightarrow> now < e)"

lemma authenticate_row_ok:
  "snd (authenticate_row env now opts r s) = Inr (used, user) \<longleftrightarrow>
     ak_revoked_at r = None \<and> unexpired now (ak_expires_at r)
     \<and> owner_allowed (kd_access s) (find_user (ak_user_id r) (kd_access s))
     \<and> used = r\<lparr>ak_last_used_at := Some now\<rparr> \<and> user = the (find_user (ak_user_id r) (kd_access s))"
  by (auto simp: authenticate_row_def Let_def refuse_never snd_obind_ok oread_apply oret_apply unexpired_def split: option.splits)

lemma authenticatePresentedKey_ok:
  "snd (authenticatePresentedKey env now key opts s) = Inr x \<longleftrightarrow>
     (\<exists>p r. extractPrefix key = Some p
        \<and> List.find (\<lambda>r. ak_key_hash r \<noteq> [] \<and> matches env key (ak_key_hash r)) (findWithHash p opts s) = Some r
        \<and> snd (authenticate_row env now opts r s) = Inr x)"
  by (auto simp: authenticatePresentedKey_def refuse_never snd_obind_ok oread_apply split: option.splits)

lemma matches_iff: "matches env key h \<longleftrightarrow> hex_bytes h = hex_bytes (ke_sha256 env key)"
  by (auto simp: matches_def Let_def)

lemma found_key:
  assumes "List.find (\<lambda>r. ak_key_hash r \<noteq> [] \<and> matches env key (ak_key_hash r)) (findWithHash p opts s) = Some r"
  shows "r \<in> set (kd_keys s)" "ak_key_prefix r = p" "truthy (ko_tenantId opts) \<Longrightarrow> ko_tenantId opts = Some (ak_tenant_id r)"
    "hex_bytes (ak_key_hash r) = hex_bytes (ke_sha256 env key)"
  using find_some [OF assms] by (auto simp: findWithHash_def matches_iff)

lemma owner_allowed_Some: "owner_allowed s u \<Longrightarrow> u \<noteq> None"
  by (auto simp: owner_allowed_def split: option.splits)

lemma find_user_id: "find_user k s = Some u \<Longrightarrow> usr_id u = k"
  by (auto simp: find_user_def find_Some_iff)

text \<open>C37: the MCP endpoint opens only for a stored key: the request shows a text whose hash is the stored one and
  whose prefix is the key's; the key belongs to the tenant the request is answered for, is not revoked and not past its
  expiry, and its owner is an enabled user with a role that is not a system role other than administrator. The request
  then runs as that owner, and the only change to the row is its last use.\<close>

theorem mcp_endpoint_opens:
  assumes "snd (canActivate env now req s) = Inr auth"
  shows "\<exists>rawKey r user. extractRawKey req = Some rawKey \<and> r \<in> set (kd_keys s)
    \<and> hex_bytes (ak_key_hash r) = hex_bytes (ke_sha256 env rawKey) \<and> extractPrefix rawKey = Some (ak_key_prefix r)
    \<and> ma_tenantId auth = ak_tenant_id r \<and> (truthy (rq_tenantId req) \<longrightarrow> rq_tenantId req = Some (ak_tenant_id r))
    \<and> ak_revoked_at r = None \<and> unexpired now (ak_expires_at r)
    \<and> find_user (ak_user_id r) (kd_access s) = Some user \<and> owner_allowed (kd_access s) (Some user)
    \<and> ma_userId auth = ak_user_id r \<and> ma_aiApiKey auth = key_toView (r\<lparr>ak_last_used_at := Some now\<rparr>)"
proof -
  define opts where "opts = \<lparr> ko_manager = False, ko_tenantId = (if truthy (rq_tenantId req) then rq_tenantId req else None) \<rparr>"
  obtain rawKey used user s1 tenantId where raw: "extractRawKey req = Some rawKey"
    and auth: "snd (authenticatePresentedKey env now rawKey opts s) = Inr (used, user)"
    and tenant: "snd (request_tenant req used s1) = Inr tenantId"
    and res: "auth = \<lparr> ma_tenantId = tenantId, ma_userId = usr_id user, ma_aiApiKeyId = ak_id used, ma_aiApiKey = key_toView used \<rparr>"
    using assms by (auto simp: canActivate_def snd_obind_ok oret_apply opts_def split: option.splits)
  obtain p r where p: "extractPrefix rawKey = Some p"
    and found: "List.find (\<lambda>r. ak_key_hash r \<noteq> [] \<and> matches env rawKey (ak_key_hash r)) (findWithHash p opts s) = Some r"
    and row: "snd (authenticate_row env now opts r s) = Inr (used, user)"
    using auth unfolding authenticatePresentedKey_ok by blast
  note r = found_key [OF found] and ok = row [unfolded authenticate_row_ok]
  obtain u where u: "find_user (ak_user_id r) (kd_access s) = Some u" using ok owner_allowed_Some by blast
  have "tenantId = ak_tenant_id used"
    using tenant by (auto simp: request_tenant_def snd_oguard_ok snd_obind_ok oread_apply oret_apply find_tenant_def find_Some_iff
        split: if_splits option.splits)
  with raw p r ok u res find_user_id [OF u] show ?thesis
    by (auto simp: opts_def)
qed

subsection \<open>The life of a key\<close>

text \<open>What Node promises of the random parts: six bytes as lower-case hexadecimal, and a text of base64url.\<close>

definition key_parts_ok :: "key_env \<Rightarrow> bool" where
  "key_parts_ok env \<longleftrightarrow> (\<forall>n. length (ke_prefix env n) = 12 \<and> list_all lower_hex (ke_prefix env n)
     \<and> ke_secret env n \<noteq> [] \<and> list_all key_char (ke_secret env n))"

lemma extractPrefix_raw_key:
  assumes "length p = 12" "list_all lower_hex p" "secret \<noteq> []" "list_all key_char secret"
  shows "extractPrefix (raw_key p secret) = Some p"
proof -
  let ?head = "MCP_KEY_PREFIX @ ''_''"
  have "raw_key p secret = ?head @ (p @ CHR ''_'' # secret)" by (simp add: raw_key_def)
  then have d: "drop (length ?head) (raw_key p secret) = p @ CHR ''_'' # secret" "take (length ?head) (raw_key p secret) = ?head"
    by (simp_all del: append.simps append_assoc)
  have n: "(p @ CHR ''_'' # secret) ! 12 = CHR ''_''" "drop 13 (p @ CHR ''_'' # secret) = secret"
    using assms(1) by (simp_all add: nth_append)
  show ?thesis using assms unfolding extractPrefix_def Let_def d n by simp
qed

definition stored_key :: "key_env \<Rightarrow> int \<Rightarrow> create_key_input \<Rightarrow> int option \<Rightarrow> nat \<Rightarrow> mcp_policy_record \<Rightarrow> api_key" where
  "stored_key env now input expiresAt n policy = new_key now (ke_uuid env n) input expiresAt (generate_key env n) policy"

lemma on_access_apply: "on_access m s = (s\<lparr>kd_access := fst (m (kd_access s))\<rparr>, snd (m (kd_access s)))"
  by (simp add: on_access_def split: prod.split)

definition saved_lifetime :: "key_env \<Rightarrow> int \<Rightarrow> string \<Rightarrow> key_db \<Rightarrow> ai_settings option" where
  "saved_lifetime env now tenantId s =
     map_option (seen_settings (ke_models env) now) (find_settings tenantId (ad_models (kd_access s)))"

lemma createKey_Inr:
  assumes "createKey env now input opts s = (s', Inr (raw, view))"
  obtains policy where "buildMcpApiKeyPolicyRecord (key_policy_input input) = Inr policy"
    and "kd_keys s' = save_row ak_id (stored_key env now input
        (key_expiry now (saved_lifetime env now (ci_tenantId input) s) (ci_expiresAt input)) (kd_minted s) policy) (kd_keys s)"
    and "\<forall>r\<in>set (kd_keys s). \<not> (ak_tenant_id r = ci_tenantId input \<and> ak_key_prefix r = ke_prefix env (kd_minted s))"
    and "raw = raw_key (ke_prefix env (kd_minted s)) (ke_secret env (kd_minted s))"
    and "view = key_toView (stored_key env now input
        (key_expiry now (saved_lifetime env now (ci_tenantId input) s) (ci_expiresAt input)) (kd_minted s) policy)"
    and "only_models (kd_access s) (kd_access s')"
proof -
  let ?st = "saved_lifetime env now (ci_tenantId input) s"
  let ?d = "fst (on_models (find_ai_settings (ke_models env) now (ci_tenantId input)) (kd_access s))"
  have st: "on_access (on_models (find_ai_settings (ke_models env) now (ci_tenantId input))) s = (s\<lparr>kd_access := ?d\<rparr>, Inr ?st)"
    by (simp add: on_access_apply on_models_apply saved_lifetime_def find_ai_settings_value)
  show thesis
    using assms
    by (intro that [of "case buildMcpApiKeyPolicyRecord (key_policy_input input) of Inr p \<Rightarrow> p"])
      (auto simp: createKey_def st obind_apply oguard_apply mint_key_def Let_def insert_key_def save_key_def logAudit_def
        stored_key_def new_key_def generate_key_def oret_apply list_ex_iff only_models_on split: sum.splits if_splits)
qed

lemma find_only:
  assumes "\<forall>x\<in>set xs. P x \<longrightarrow> x = a" and "a \<in> set xs" "P a" shows "List.find P xs = Some a"
proof -
  have "List.find P xs \<noteq> None" using assms(2,3) by (auto simp: find_None_iff)
  then obtain x where "List.find P xs = Some x" by blast
  with assms(1) find_some [of P xs x] show ?thesis by auto
qed

text \<open>A store in which one row only carries the hash of a key answers for that key by that row.\<close>

lemma authenticate_only:
  assumes "extractPrefix key = Some (ak_key_prefix r)" "r \<in> set (kd_keys s)" "ak_key_hash r \<noteq> []"
    and "hex_bytes (ak_key_hash r) = hex_bytes (ke_sha256 env key)"
    and "\<forall>x\<in>set (kd_keys s). hex_bytes (ak_key_hash x) = hex_bytes (ke_sha256 env key) \<longrightarrow> x = r"
    and "truthy (ko_tenantId opts) \<longrightarrow> ko_tenantId opts = Some (ak_tenant_id r)"
  shows "(\<exists>x. snd (authenticatePresentedKey env t key opts s) = Inr x) \<longleftrightarrow>
    ak_revoked_at r = None \<and> unexpired t (ak_expires_at r) \<and> owner_allowed (kd_access s) (find_user (ak_user_id r) (kd_access s))"
proof -
  have "List.find (\<lambda>r. ak_key_hash r \<noteq> [] \<and> matches env key (ak_key_hash r)) (findWithHash (ak_key_prefix r) opts s) = Some r"
  proof (rule find_only)
    show "\<forall>x\<in>set (findWithHash (ak_key_prefix r) opts s). ak_key_hash x \<noteq> [] \<and> matches env key (ak_key_hash x) \<longrightarrow> x = r"
      using assms(5) unfolding findWithHash_def matches_iff by (metis filter_is_subset subsetD)
    show "r \<in> set (findWithHash (ak_key_prefix r) opts s)" using assms(2,6) by (simp add: findWithHash_def)
    show "ak_key_hash r \<noteq> [] \<and> matches env key (ak_key_hash r)" using assms(3,4) by (simp add: matches_iff)
  qed
  then show ?thesis
    by (auto simp: authenticatePresentedKey_ok assms(1) authenticate_row_ok)
qed

lemma owner_apart:
  assumes "only_models s s'" shows "owner_allowed s' u = owner_allowed s u" "find_user k s' = find_user k s"
proof -
  have s': "s' = s\<lparr>ad_models := ad_models s'\<rparr>" using assms by (simp add: only_models_def)
  have r: "role_of (s\<lparr>ad_models := d\<rparr>) k' = role_of s k'" for d k' by (auto simp: role_of_def split: option.split)
  have "find_user k (s\<lparr>ad_models := d\<rparr>) = find_user k s" for d by (simp add: find_user_def)
  with s' show "find_user k s' = find_user k s" by metis
  have "owner_allowed (s\<lparr>ad_models := d\<rparr>) u = owner_allowed s u" for d by (cases u) (simp_all add: owner_allowed_def r)
  with s' show "owner_allowed s' u = owner_allowed s u" by metis
qed

lemma key_expiry_limit:
  "Option.bind settings set_mcp_key_max_lifetime_days = Some days \<Longrightarrow> days \<noteq> 0
    \<Longrightarrow> \<exists>e. key_expiry now settings expiresAt = Some e \<and> e \<le> now + days * 86400000"
  by (auto simp: key_expiry_def Let_def split: option.split)

lemma revokeKey_Inr:
  assumes "revokeKey env t0 keyId u reason o2 s = (s', Inr v)" and "find_row ak_id keyId (kd_keys s) = Some r"
  shows "kd_keys s' = save_row ak_id (revoked_row t0 u reason r) (kd_keys s)" "kd_access s' = kd_access s"
  using assms by (auto simp: revokeKey_def Let_def obind_apply oread_apply oret_apply save_key_def logAudit_def split: if_splits)

lemma key_life:
  assumes "createKey env now input opts s = (s', Inr (raw, view))" and "key_parts_ok env"
    and "ke_uuid env (kd_minted s) \<notin> ak_id ` set (kd_keys s)" and "ke_sha256 env raw \<noteq> []"
    and "\<forall>r\<in>set (kd_keys s). hex_bytes (ak_key_hash r) \<noteq> hex_bytes (ke_sha256 env raw)"
    and "owner_allowed (kd_access s) (find_user (ci_userId input) (kd_access s))"
    and "truthy (ko_tenantId opts') \<longrightarrow> ko_tenantId opts' = Some (ci_tenantId input)"
  defines "settings \<equiv> saved_lifetime env now (ci_tenantId input) s"
  defines "expiry \<equiv> key_expiry now settings (ci_expiresAt input)"
  shows "(\<exists>x. snd (authenticatePresentedKey env t raw opts' s') = Inr x) \<longleftrightarrow> unexpired t expiry"
    and "(\<forall>days. Option.bind settings set_mcp_key_max_lifetime_days = Some days \<and> days \<noteq> 0
           \<longrightarrow> (\<exists>e. expiry = Some e \<and> e \<le> now + days * 86400000))"
    and "revokeKey env t0 (kv_id view) u reason o2 s' = (s2, Inr v)
       \<Longrightarrow> \<not> (\<exists>x. snd (authenticatePresentedKey env t raw opts' s2) = Inr x)"
proof -
  obtain policy where keys: "kd_keys s' = save_row ak_id (stored_key env now input expiry (kd_minted s) policy) (kd_keys s)"
    and raw: "raw = raw_key (ke_prefix env (kd_minted s)) (ke_secret env (kd_minted s))"
    and view: "view = key_toView (stored_key env now input expiry (kd_minted s) policy)"
    and only: "only_models (kd_access s) (kd_access s')"
    using createKey_Inr [OF assms(1)] unfolding expiry_def settings_def by blast
  define r where "r = stored_key env now input expiry (kd_minted s) policy"
  have r: "ak_id r = ke_uuid env (kd_minted s)" "ak_key_prefix r = ke_prefix env (kd_minted s)" "ak_key_hash r = ke_sha256 env raw"
      "ak_tenant_id r = ci_tenantId input" "ak_user_id r = ci_userId input" "ak_expires_at r = expiry" "ak_revoked_at r = None"
    by (simp_all add: r_def stored_key_def new_key_def generate_key_def Let_def raw)
  have k: "kd_keys s' = kd_keys s @ [r]" using keys assms(3) r(1) by (auto simp: save_row_def r_def [symmetric])
  have prefix: "extractPrefix raw = Some (ak_key_prefix r)"
    using assms(2) unfolding raw r key_parts_ok_def by (intro extractPrefix_raw_key) auto
  show "(\<exists>x. snd (authenticatePresentedKey env t raw opts' s') = Inr x) \<longleftrightarrow> unexpired t expiry"
  proof -
    have "\<forall>x\<in>set (kd_keys s'). hex_bytes (ak_key_hash x) = hex_bytes (ke_sha256 env raw) \<longrightarrow> x = r" using assms(5) k by auto
    from authenticate_only [OF prefix _ _ _ this, of opts' t] show ?thesis
      using assms(4,6,7) k by (simp add: r owner_apart [OF only])
  qed
  show "(\<forall>days. Option.bind settings set_mcp_key_max_lifetime_days = Some days \<and> days \<noteq> 0
           \<longrightarrow> (\<exists>e. expiry = Some e \<and> e \<le> now + days * 86400000))"
    unfolding expiry_def using key_expiry_limit by blast
  assume rev: "revokeKey env t0 (kv_id view) u reason o2 s' = (s2, Inr v)"
  let ?r = "revoked_row t0 u reason r"
  have fresh: "\<forall>x\<in>set (kd_keys s). ak_id x \<noteq> ak_id r" using assms(3) r(1) by force
  have id: "kv_id view = ak_id r" by (simp add: view r_def [symmetric] key_toView_def)
  have "find_row ak_id (ak_id r) (kd_keys s') = Some r"
    unfolding k find_row_def by (rule find_only) (use fresh in auto)
  then have k2: "kd_keys s2 = save_row ak_id ?r (kd_keys s')" using revokeKey_Inr(1) [OF rev] id by simp
  have same: "ak_id ?r = ak_id r" "ak_key_prefix ?r = ak_key_prefix r" "ak_key_hash ?r = ak_key_hash r" "ak_tenant_id ?r = ak_tenant_id r"
    by (simp_all add: revoked_row_def)
  have "map (\<lambda>x. if ak_id x = ak_id r then ?r else x) (kd_keys s) = kd_keys s"
    using fresh by (auto intro: map_idI)
  with k2 k same(1) have "kd_keys s2 = kd_keys s @ [?r]" by (simp add: save_row_def)
  then have k3: "set (kd_keys s2) = insert ?r (set (kd_keys s))" by simp
  have "\<forall>x\<in>set (kd_keys s2). hex_bytes (ak_key_hash x) = hex_bytes (ke_sha256 env raw) \<longrightarrow> x = ?r" using assms(5) k3 by auto
  from authenticate_only [OF _ _ _ _ this, of opts' t] show "\<not> (\<exists>x. snd (authenticatePresentedKey env t raw opts' s2) = Inr x)"
    using assms(4,7) prefix k3 by (simp add: same r) (simp add: revoked_row_def)
qed

text \<open>C38: the key handed out by a creation authenticates, and does so exactly until it expires or is revoked. Its
  expiry is the requested one, but no later than the maximum lifetime of the workspace when there is one, and a
  workspace with such a maximum gives no key without an expiry. Assumed are the format of Node's random parts, a fresh
  id, no other stored key with the same SHA-256, and an owner who may authenticate.\<close>

theorem key_lifecycle:
  assumes "createKey env now input opts s = (s', Inr (raw, view))" and "key_parts_ok env"
    and "ke_uuid env (kd_minted s) \<notin> ak_id ` set (kd_keys s)" and "ke_sha256 env raw \<noteq> []"
    and "\<forall>r\<in>set (kd_keys s). hex_bytes (ak_key_hash r) \<noteq> hex_bytes (ke_sha256 env raw)"
    and "owner_allowed (kd_access s) (find_user (ci_userId input) (kd_access s))"
    and "truthy (ko_tenantId opts') \<longrightarrow> ko_tenantId opts' = Some (ci_tenantId input)"
  defines "settings \<equiv> saved_lifetime env now (ci_tenantId input) s"
  defines "expiry \<equiv> key_expiry now settings (ci_expiresAt input)"
  shows "((\<exists>x. snd (authenticatePresentedKey env t raw opts' s') = Inr x) \<longleftrightarrow> unexpired t expiry)
    \<and> (\<forall>days. Option.bind settings set_mcp_key_max_lifetime_days = Some days \<and> days \<noteq> 0
           \<longrightarrow> (\<exists>e. expiry = Some e \<and> e \<le> now + days * 86400000))
    \<and> (\<forall>s2 v. revokeKey env t0 (kv_id view) u reason o2 s' = (s2, Inr v)
           \<longrightarrow> \<not> (\<exists>x. snd (authenticatePresentedKey env t raw opts' s2) = Inr x))"
  unfolding expiry_def settings_def using key_life [OF assms(1-7)] by blast


definition sample_key_env :: key_env where
  "sample_key_env = \<lparr> ke_models = sample_env, ke_sha256 = (\<lambda>raw. ''c0ffee''), ke_prefix = (\<lambda>n. ''0123456789ab''),
     ke_secret = (\<lambda>n. ''Secret-1''), ke_uuid = (\<lambda>n. ''k'' @ show_nat n), ke_hasAudit = True, ke_hasExecutor = True \<rparr>"

definition sample_key_db :: key_db where
  "sample_key_db = \<lparr> kd_keys = [], kd_access = sample_access, kd_audit = [], kd_minted = 0 \<rparr>"

definition sample_key_opts :: key_opts where
  "sample_key_opts = \<lparr> ko_manager = True, ko_tenantId = Some ''t1'' \<rparr>"

definition sample_key_input :: create_key_input where
  "sample_key_input = \<lparr> ci_tenantId = ''t1'', ci_userId = ''u1'', ci_label = ''Laptop'', ci_expiresAt = Some 5000,
     ci_createdByUserId = ''u1'', ci_mcpScopes = JUndef, ci_mcpAllowed = JUndef, ci_mcpDenied = JUndef, ci_mcpRateLimit = JUndef \<rparr>"

lemma sample_key_parts: "key_parts_ok sample_key_env"
proof -
  have "length ''0123456789ab'' = 12 \<and> list_all lower_hex ''0123456789ab'' \<and> list_all key_char ''Secret-1''" by code_simp
  then show ?thesis by (simp add: key_parts_ok_def sample_key_env_def)
qed

lemma sample_key_created:
  "case createKey sample_key_env 1000 sample_key_input sample_key_opts sample_key_db of
     (s', Inr (raw, view)) \<Rightarrow> raw = ''kanap_mcp_0123456789ab_Secret-1'' | _ \<Rightarrow> False"
  by code_simp

lemma sample_key_owner: "owner_allowed (kd_access sample_key_db) (find_user (ci_userId sample_key_input) (kd_access sample_key_db))"
  by code_simp

lemma sample_key_expiry:
  "key_expiry 1000 (saved_lifetime sample_key_env 1000 (ci_tenantId sample_key_input) sample_key_db) (ci_expiresAt sample_key_input) = Some 5000"
  by code_simp

theorem key_lifecycle_witness:
  "\<exists>s' raw view. createKey sample_key_env 1000 sample_key_input sample_key_opts sample_key_db = (s', Inr (raw, view))
     \<and> (\<exists>x. snd (authenticatePresentedKey sample_key_env 4999 raw sample_key_opts s') = Inr x)
     \<and> \<not> (\<exists>x. snd (authenticatePresentedKey sample_key_env 5000 raw sample_key_opts s') = Inr x)"
proof -
  obtain s' raw view where c: "createKey sample_key_env 1000 sample_key_input sample_key_opts sample_key_db = (s', Inr (raw, view))"
    using sample_key_created by (auto split: prod.splits sum.splits)
  have side: "ke_uuid sample_key_env (kd_minted sample_key_db) \<notin> ak_id ` set (kd_keys sample_key_db)" "ke_sha256 sample_key_env raw \<noteq> []"
    "\<forall>r\<in>set (kd_keys sample_key_db). hex_bytes (ak_key_hash r) \<noteq> hex_bytes (ke_sha256 sample_key_env raw)"
    "truthy (ko_tenantId sample_key_opts) \<longrightarrow> ko_tenantId sample_key_opts = Some (ci_tenantId sample_key_input)"
    by (simp_all add: sample_key_db_def sample_key_env_def sample_key_opts_def sample_key_input_def)
  have "(\<exists>x. snd (authenticatePresentedKey sample_key_env t raw sample_key_opts s') = Inr x) \<longleftrightarrow> unexpired t (Some 5000)" for t
    using key_lifecycle [OF c sample_key_parts side(1-3) sample_key_owner side(4)] unfolding sample_key_expiry by blast
  then show ?thesis using c by (auto simp: unexpired_def)
qed

definition sample_mcp_request :: "string \<Rightarrow> mcp_request" where
  "sample_mcp_request raw = \<lparr> rq_tenantId = None, rq_authorization = Some (''Bearer '' @ raw), rq_xApiKey = None \<rparr>"

definition sample_key_row :: api_key where
  "sample_key_row = \<lparr> ak_id = ''k1'', ak_tenant_id = ''t1'', ak_user_id = ''u1'', ak_key_hash = ''c0ffee'', ak_key_prefix = ''0123456789ab'',
     ak_label = ''Laptop'', ak_expires_at = Some 5000, ak_last_used_at = None, ak_revoked_at = None, ak_revoked_by_user_id = None,
     ak_revocation_reason = None, ak_mcp_scopes = JArr [], ak_mcp_allowed = JArr [], ak_mcp_denied = JArr [],
     ak_mcp_max_effect = ''read'', ak_mcp_rate_limit = 60, ak_created_at = 1000, ak_created_by_user_id = ''u1'' \<rparr>"

definition sample_key_store :: key_db where
  "sample_key_store = \<lparr> kd_keys = [sample_key_row], kd_access = sample_access, kd_audit = [], kd_minted = 1 \<rparr>"

lemma sample_key_store_rows: "list_all (\<lambda>r. ak_tenant_id r = ''t1'' \<and> ak_user_id r = ''u1'') (kd_keys sample_key_store)"
  by code_simp

lemma refuse_access: "kd_access (fst (refuse_key env opts t i u reason p m s)) = kd_access s"
    "kd_access (fst (refuse_row env opts r reason m s)) = kd_access s"
  by (simp_all add: refuse_row_def refuse_key_def obind_apply logAudit_def)

text \<open>Authentication touches no other table than the keys and the audit log.\<close>

lemma authenticatePresentedKey_access: "kd_access (fst (authenticatePresentedKey env t key opts s)) = kd_access s"
proof -
  have "kd_access (fst (authenticate_row env t opts r s)) = kd_access s" for r
    by (auto simp: authenticate_row_def Let_def refuse_access obind_apply oread_apply oret_apply save_key_def logAudit_def)
  then show ?thesis
    by (auto simp: authenticatePresentedKey_def refuse_access obind_apply oread_apply split: option.split)
qed

lemma sample_key_opens:
  "\<exists>auth. snd (canActivate sample_key_env 2000 (sample_mcp_request ''kanap_mcp_0123456789ab_Secret-1'') sample_key_store) = Inr auth"
proof -
  let ?opts = "\<lparr> ko_manager = False, ko_tenantId = None \<rparr>" and ?raw = "''kanap_mcp_0123456789ab_Secret-1''"
  have raw: "extractRawKey (sample_mcp_request ?raw) = Some ?raw" and prefix: "extractPrefix ?raw = Some ''0123456789ab''"
    and found: "List.find (\<lambda>r. ak_key_hash r \<noteq> [] \<and> matches sample_key_env ?raw (ak_key_hash r)) (findWithHash ''0123456789ab'' ?opts sample_key_store)
      = Some sample_key_row"
    by code_simp+
  have "case snd (authenticate_row sample_key_env 2000 ?opts sample_key_row sample_key_store) of Inr auth \<Rightarrow> True | _ \<Rightarrow> False" by code_simp
  then obtain used user where row: "snd (authenticate_row sample_key_env 2000 ?opts sample_key_row sample_key_store) = Inr (used, user)"
    by (cases "snd (authenticate_row sample_key_env 2000 ?opts sample_key_row sample_key_store)") auto
  then have "snd (authenticatePresentedKey sample_key_env 2000 ?raw ?opts sample_key_store) = Inr (used, user)"
    unfolding authenticatePresentedKey_ok using prefix found by blast
  moreover have "\<exists>t. snd (request_tenant (sample_mcp_request ?raw) used s) = Inr t" if "kd_access s = sample_access" for s
  proof -
    have "ak_tenant_id used = ''t1''" using row unfolding authenticate_row_ok by (simp add: sample_key_row_def)
    then have "\<exists>t. find_tenant (ak_tenant_id used) (kd_access s) = Some t" using that by (simp add: find_tenant_def sample_access_def)
    then show ?thesis by (auto simp: request_tenant_def sample_mcp_request_def truthy_def snd_obind_ok oread_apply oret_apply)
  qed
  moreover have "kd_access (fst (authenticatePresentedKey sample_key_env 2000 ?raw ?opts sample_key_store)) = sample_access"
    by (simp add: authenticatePresentedKey_access) (simp add: sample_key_store_def)
  ultimately show ?thesis
    by (simp add: canActivate_def raw snd_obind_ok oret_apply) (simp add: sample_mcp_request_def truthy_def)
qed

theorem mcp_endpoint_opens_witness:
  "\<exists>auth. snd (canActivate sample_key_env 2000 (sample_mcp_request ''kanap_mcp_0123456789ab_Secret-1'') sample_key_store) = Inr auth
     \<and> ma_tenantId auth = ''t1'' \<and> ma_userId auth = ''u1''"
proof -
  obtain auth where a: "snd (canActivate sample_key_env 2000 (sample_mcp_request ''kanap_mcp_0123456789ab_Secret-1'') sample_key_store) = Inr auth"
    using sample_key_opens by blast
  obtain r where r: "r \<in> set (kd_keys sample_key_store)" "ma_tenantId auth = ak_tenant_id r" "ma_userId auth = ak_user_id r"
    using mcp_endpoint_opens [OF a] by blast
  have "ak_tenant_id r = ''t1'' \<and> ak_user_id r = ''u1''"
    using sample_key_store_rows r(1) unfolding list_all_iff by blast
  with r a show ?thesis by simp
qed

end
