(* ===== verification/Guards.thy ===== *)
theory Guards
  imports Access
begin

section \<open>The guards of the HTTP routes (auth/permission.guard.ts, auth/platform-admin.guard.ts, auth/roles.guard.ts)\<close>

text \<open>
  The guard that every route with a required level runs through, with the freeze of tenants that do not pay, and the
  guard of the platform pages.  What the decorators of a route say is the record \<open>route\<close>; the guards only read.
\<close>

subsection \<open>Routes and requests\<close>

type_synonym requirement = "string \<times> string"

record route =
  rt_required :: "requirement option"
  rt_any :: "requirement list option"
  rt_readOnly :: bool

record http_request =
  hr_sub :: "string option"
  hr_method :: "string option"
  hr_isPlatformHost :: bool
  hr_tenantId :: "string option"

record pass =
  pa_isAdmin :: bool
  pa_permissionLevel :: "string option"
  pa_permissions :: permission_map

text \<open>\<open>return false\<close>, \<open>return true\<close> before any check, and \<open>return true\<close> with the properties set on the request.\<close>

datatype guard_answer = Refused | Unguarded | Admitted pass

definition required_rank :: "string \<Rightarrow> nat" where
  "required_rank level = with_default 99 (LEVEL_RANK level)"

definition hasRequiredLevel :: "permission_map \<Rightarrow> requirement \<Rightarrow> bool" where
  "hasRequiredLevel levels entry =
     (let current = map_of levels (fst entry) in
      truthy current \<and> required_rank (snd entry) \<le> level_rank (the current))"

subsection \<open>The freeze\<close>

definition reading_method :: "string option \<Rightarrow> bool" where
  "reading_method verb \<longleftrightarrow> map_option (map upper_char) verb \<in> {Some ''GET'', Some ''HEAD'', Some ''OPTIONS''}"

definition enforceFreezeIfNeeded :: "access_env \<Rightarrow> int \<Rightarrow> route \<Rightarrow> http_request \<Rightarrow> requirement \<Rightarrow> access_db \<Rightarrow> ai_error + unit" where
  "enforceFreezeIfNeeded env now rt req meta s =
     (if \<not> ae_stripe_configured env then Inr ()
      else if reading_method (hr_method req) then Inr ()
      else if rt_readOnly rt then Inr ()
      else if hr_isPlatformHost req then Inr ()
      else if fst meta = ''billing'' then Inr ()
      else if \<not> truthy (hr_tenantId req) then Inl (Coded ''SUBSCRIPTION_FROZEN'' ''No active subscription found.'')
      else case evaluateSubscriptionAccess (latest_subscription (the (hr_tenantId req)) s) now True of
        Inl (reason, message) \<Rightarrow> Inl (Coded reason message)
      | Inr _ \<Rightarrow> Inr ())"

subsection \<open>The guard\<close>

definition USER_DISABLED :: ai_error where "USER_DISABLED = Coded ''USER_DISABLED'' ''User disabled''"
definition NO_ACCESS :: ai_error where "NO_ACCESS = Coded ''NO_ACCESS'' ''This account has not been granted access yet.''"

text \<open>The level and the requirement the freeze looks at, or \<open>None\<close> when a level is missing.\<close>

definition administrator_check :: "route \<Rightarrow> string option \<times> requirement option" where
  "administrator_check rt =
     (Some ''admin'',
      if rt_required rt = None \<and> with_default [] (rt_any rt) \<noteq> [] then Some (hd (the (rt_any rt))) else rt_required rt)"

definition level_check :: "route \<Rightarrow> permission_map \<Rightarrow> (string option \<times> requirement option) option" where
  "level_check rt levels =
     (if pred_option (hasRequiredLevel levels) (rt_required rt)
      then let first = (map_option (\<lambda>e. map_of levels (fst e)) (rt_required rt)) in
        (if with_default [] (rt_any rt) \<noteq> []
         then (case List.find (hasRequiredLevel levels) (the (rt_any rt)) of
                 None \<Rightarrow> None
               | Some matched \<Rightarrow>
                   Some (if rt_required rt = None then (map_of levels (fst matched), Some matched)
                         else (Option.bind first id, rt_required rt)))
         else Some (Option.bind first id, rt_required rt))
      else None)"

definition guard_checked ::
  "access_env \<Rightarrow> int \<Rightarrow> route \<Rightarrow> http_request \<Rightarrow> access_db \<Rightarrow> bool \<Rightarrow> permission_map \<Rightarrow> string option \<times> requirement option \<Rightarrow> ai_error + guard_answer" where
  "guard_checked env now rt req s isAdmin permissions checked =
     rbind (case snd checked of Some meta \<Rightarrow> enforceFreezeIfNeeded env now rt req meta s | None \<Rightarrow> Inr ()) (\<lambda>_.
     Inr (Admitted \<lparr> pa_isAdmin = isAdmin, pa_permissionLevel = fst checked, pa_permissions = permissions \<rparr>))"

definition guard_user :: "access_env \<Rightarrow> int \<Rightarrow> route \<Rightarrow> http_request \<Rightarrow> user_row \<Rightarrow> access_db \<Rightarrow> ai_error + guard_answer" where
  "guard_user env now rt req user s =
     (let userRoles = filter (\<lambda>ur. ur_user_id ur = usr_id user) (ad_user_roles s) in
      if ''administrator'' \<in> set (user_role_names s user userRoles)
      then guard_checked env now rt req s True [] (administrator_check rt)
      else
        let levels = listForRoles (ad_permissions s) (user_role_ids user userRoles) in
        rguard (levels = []) NO_ACCESS
          (case level_check rt levels of
             None \<Rightarrow> Inr Refused
           | Some checked \<Rightarrow> guard_checked env now rt req s False levels checked))"

definition permission_guard :: "access_env \<Rightarrow> int \<Rightarrow> route \<Rightarrow> http_request \<Rightarrow> access_db \<Rightarrow> ai_error + guard_answer" where
  "permission_guard env now rt req s =
     (if rt_required rt = None \<and> with_default [] (rt_any rt) = [] then Inr Unguarded
      else if \<not> truthy (hr_sub req) then Inr Refused
      else case List.find (\<lambda>u. usr_id u = the (hr_sub req)) (ad_users s) of
        None \<Rightarrow> Inr Refused
      | Some user \<Rightarrow> rguard (usr_status user \<noteq> ''enabled'') USER_DISABLED (guard_user env now rt req user s))"

subsection \<open>The platform pages\<close>

fun split_commas :: "string \<Rightarrow> string list" where
  "split_commas [] = [[]]"
| "split_commas (c # cs) =
     (if c = CHR '','' then [] # split_commas cs else (case split_commas cs of p # ps \<Rightarrow> (c # p) # ps | [] \<Rightarrow> [[c]]))"

definition parseAllowlist :: "string option \<Rightarrow> string set" where
  "parseAllowlist raw = set (filter (\<lambda>v. v \<noteq> []) (map (js_lower \<circ> js_trim) (split_commas (with_default [] raw))))"

record platform_env =
  pe_single_tenant :: bool
  pe_PLATFORM_ADMIN_EMAILS :: "string option"
  pe_development :: bool

definition isPlatformAdmin :: "platform_env \<Rightarrow> string option \<Rightarrow> bool" where
  "isPlatformAdmin env email \<longleftrightarrow>
     \<not> pe_single_tenant env \<and> truthy email \<and>
     (let allowlist = parseAllowlist (pe_PLATFORM_ADMIN_EMAILS env) in
      allowlist \<noteq> {} \<and> (if ''*'' \<in> allowlist then pe_development env else js_lower (the email) \<in> allowlist))"

text \<open>The request carries no user, or a user with or without an email.\<close>

definition platform_admin_guard :: "platform_env \<Rightarrow> bool \<Rightarrow> string option option \<Rightarrow> ai_error + unit" where
  "platform_admin_guard env isPlatformHost user =
     (case user of
        None \<Rightarrow> Inl (Coded ''UNAUTHORIZED'' ''Authentication required'')
      | Some email \<Rightarrow>
          rguard (\<not> isPlatformHost) (Forbidden ''Platform admin host required'')
            (rguard (\<not> isPlatformAdmin env email) (Forbidden ''Platform admin access required'') (Inr ())))"

definition roles_guard :: "string list option \<Rightarrow> string option option \<Rightarrow> bool" where
  "roles_guard requiredRoles user \<longleftrightarrow>
     with_default [] requiredRoles = [] \<or> (case user of Some (Some role) \<Rightarrow> role \<in> set (the requiredRoles) | _ \<Rightarrow> False)"

subsection \<open>Lemmas\<close>

definition freeze_ok :: "access_env \<Rightarrow> int \<Rightarrow> route \<Rightarrow> http_request \<Rightarrow> requirement \<Rightarrow> access_db \<Rightarrow> bool" where
  "freeze_ok env now rt req meta s \<longleftrightarrow> enforceFreezeIfNeeded env now rt req meta s = Inr ()"

lemma guard_checked_Admitted:
  "(\<exists>p. guard_checked env now rt req s isAdmin levels checked = Inr (Admitted p))
     \<longleftrightarrow> pred_option (\<lambda>meta. freeze_ok env now rt req meta s) (snd checked)"
  by (cases "snd checked") (auto simp: guard_checked_def freeze_ok_def rbind_eq_Inr)

lemma required_rank_valid: "LEVEL_RANK level \<noteq> None \<Longrightarrow> required_rank level = level_rank level"
  by (auto simp: required_rank_def level_rank_def with_default_def)

lemma level_check_required:
  "rt_required rt = Some meta \<Longrightarrow> with_default [] (rt_any rt) = [] \<Longrightarrow>
     level_check rt levels = (if hasRequiredLevel levels meta then Some (map_of levels (fst meta), Some meta) else None)"
  by (simp add: level_check_def)

text \<open>Whatever the guard checks the freeze with is one of the requirements of the route.\<close>

definition requirements :: "route \<Rightarrow> requirement set" where
  "requirements rt = set_option (rt_required rt) \<union> set (with_default [] (rt_any rt))"

lemma with_default_Nil [simp]: "with_default [] None = []" "with_default [] (Some xs) = xs"
  by (simp_all add: with_default_def)

lemma administrator_check_meta:
  assumes "\<not> (rt_required rt = None \<and> with_default [] (rt_any rt) = [])"
  shows "\<exists>meta\<in>requirements rt. snd (administrator_check rt) = Some meta"
  using assms by (cases "rt_required rt"; cases "rt_any rt") (auto simp: administrator_check_def requirements_def)

lemma level_check_meta:
  assumes "level_check rt levels = Some checked" and "\<not> (rt_required rt = None \<and> with_default [] (rt_any rt) = [])"
  shows "\<exists>meta\<in>requirements rt. snd checked = Some meta"
  using assms by (cases "rt_required rt"; cases "rt_any rt")
    (auto simp: level_check_def Let_def requirements_def find_Some_iff split: if_splits option.splits)

lemma admitted_frozen:
  assumes "permission_guard env now rt req s = Inr (Admitted p)"
  shows "\<exists>meta\<in>requirements rt. freeze_ok env now rt req meta s"
proof -
  have some: "\<not> (rt_required rt = None \<and> with_default [] (rt_any rt) = [])"
    using assms by (intro notI) (simp add: permission_guard_def)
  with assms obtain user where "guard_user env now rt req user s = Inr (Admitted p)"
    by (auto simp: permission_guard_def rguard_eq_Inr split: if_splits option.splits)
  then obtain isAdmin levels checked where c: "guard_checked env now rt req s isAdmin levels checked = Inr (Admitted p)"
      "checked = administrator_check rt \<or> level_check rt levels = Some checked"
    by (auto simp: guard_user_def Let_def rguard_eq_Inr split: if_splits option.splits)
  obtain meta where "meta \<in> requirements rt" "snd checked = Some meta"
    using c(2) administrator_check_meta [OF some] level_check_meta [OF _ some] by blast
  with c(1) guard_checked_Admitted [of env now rt req s isAdmin levels checked] show ?thesis by auto
qed

text \<open>C39: while the subscription of its tenant is not in good standing, no request that writes gets through a route that
  requires a level, billing apart, not even one of an administrator; and reads are not affected at all: for a reading
  method, or a route marked as only reading, the guard answers as if no subscription were enforced.\<close>

theorem freeze_blocks_writes_only:
  assumes "hr_tenantId req = Some t" and "evaluateSubscriptionAccess (latest_subscription t s) now True = Inl e"
    and "ae_stripe_configured env"
  shows "(\<not> reading_method (hr_method req) \<and> \<not> rt_readOnly rt \<and> \<not> hr_isPlatformHost req \<and> (\<forall>meta\<in>requirements rt. fst meta \<noteq> ''billing'')
       \<longrightarrow> (\<forall>p. permission_guard env now rt req s \<noteq> Inr (Admitted p)))
    \<and> (reading_method (hr_method req) \<or> rt_readOnly rt
       \<longrightarrow> permission_guard env now rt req s = permission_guard (env\<lparr>ae_stripe_configured := False\<rparr>) now rt req s)"
proof (intro conjI impI allI notI)
  fix p
  assume w: "\<not> reading_method (hr_method req) \<and> \<not> rt_readOnly rt \<and> \<not> hr_isPlatformHost req \<and> (\<forall>meta\<in>requirements rt. fst meta \<noteq> ''billing'')"
    and a: "permission_guard env now rt req s = Inr (Admitted p)"
  obtain meta where "meta \<in> requirements rt" "freeze_ok env now rt req meta s" using admitted_frozen [OF a] by blast
  with w assms show False by (cases e) (auto simp: freeze_ok_def enforceFreezeIfNeeded_def split: if_splits)
next
  assume r: "reading_method (hr_method req) \<or> rt_readOnly rt"
  have "enforceFreezeIfNeeded env now rt req meta s = enforceFreezeIfNeeded (env\<lparr>ae_stripe_configured := False\<rparr>) now rt req meta s" for meta
    using r by (auto simp: enforceFreezeIfNeeded_def)
  then have c: "guard_checked env now rt req s = guard_checked (env\<lparr>ae_stripe_configured := False\<rparr>) now rt req s"
    by (intro ext) (simp add: guard_checked_def cong: option.case_cong)
  have u: "guard_user env now rt req user s = guard_user (env\<lparr>ae_stripe_configured := False\<rparr>) now rt req user s" for user
    unfolding guard_user_def Let_def c by (rule refl)
  show "permission_guard env now rt req s = permission_guard (env\<lparr>ae_stripe_configured := False\<rparr>) now rt req s"
    unfolding permission_guard_def u by (rule refl)
qed

lemma guards_agree:
  assumes "rt_required rt = Some (resource, level)" and "with_default [] (rt_any rt) = []" and "LEVEL_RANK level \<noteq> None"
    and "hr_sub req = Some userId" and "userId \<noteq> []"
    and "\<forall>user role. List.find (\<lambda>u. usr_id u = userId) (ad_users s) = Some user \<and> role_of s (usr_role_id user) = Some role
           \<longrightarrow> \<not> rol_is_system role \<or> js_lower (rol_role_name role) = ''administrator''"
  shows "(\<exists>p. permission_guard env now rt req s = Inr (Admitted p))
     \<longleftrightarrow> hasPermission (getEffectivePermissionStateOrNull userId s) resource level \<and> freeze_ok env now rt req (resource, level) s"
proof (cases "List.find (\<lambda>u. usr_id u = userId) (ad_users s)")
  case None
  then show ?thesis
    using assms(1,4,5) by (simp add: permission_guard_def truthy_def getEffectivePermissionStateOrNull_def hasPermission_def)
next
  case (Some user)
  let ?userRoles = "filter (\<lambda>ur. ur_user_id ur = usr_id user) (ad_user_roles s)"
  let ?levels = "listForRoles (ad_permissions s) (user_role_ids user ?userRoles)"
  have role: "\<not> ((case role_of s (usr_role_id user) of Some r \<Rightarrow> rol_is_system r | None \<Rightarrow> False)
       \<and> lower_role_name (role_of s (usr_role_id user)) \<noteq> ''administrator'')"
    using assms(6) Some by (auto simp: lower_role_name_def split: option.splits)
  have g: "permission_guard env now rt req s = rguard (usr_status user \<noteq> ''enabled'') USER_DISABLED (guard_user env now rt req user s)"
    using assms(1,4,5) Some by (simp add: permission_guard_def truthy_def)
  show ?thesis
  proof (cases "usr_status user = ''enabled''")
    case False
    with g Some show ?thesis by (simp add: getEffectivePermissionStateOrNull_def hasPermission_def)
  next
    case True
    have st: "getEffectivePermissionStateOrNull userId s = Some \<lparr> es_isAdmin = (''administrator'' \<in> set (user_role_names s user ?userRoles)),
         es_permissions = (if ''administrator'' \<in> set (user_role_names s user ?userRoles) then [] else ?levels) \<rparr>"
      using role Some True unfolding getEffectivePermissionStateOrNull_def Let_def by simp
    show ?thesis
    proof (cases "''administrator'' \<in> set (user_role_names s user ?userRoles)")
      case True
      then have "guard_user env now rt req user s = guard_checked env now rt req s True [] (Some ''admin'', Some (resource, level))"
        using assms(1) by (simp add: guard_user_def Let_def administrator_check_def)
      with g st True \<open>usr_status user = ''enabled''\<close> guard_checked_Admitted [of env now rt req s True "[]" "(Some ''admin'', Some (resource, level))"]
      show ?thesis by (simp add: hasPermission_def)
    next
      case False
      then have u: "guard_user env now rt req user s = rguard (?levels = []) NO_ACCESS
          (if hasRequiredLevel ?levels (resource, level)
           then guard_checked env now rt req s False ?levels (map_of ?levels resource, Some (resource, level)) else Inr Refused)"
        by (simp add: guard_user_def Let_def level_check_required [OF assms(1,2)])
      have h: "hasPermission (getEffectivePermissionStateOrNull userId s) resource level \<longleftrightarrow> hasRequiredLevel ?levels (resource, level)"
        using False by (simp add: st hasPermission_def hasRequiredLevel_def Let_def required_rank_valid [OF assms(3)])
      have "hasRequiredLevel ?levels (resource, level) \<Longrightarrow> ?levels \<noteq> []"
        by (auto simp: hasRequiredLevel_def Let_def truthy_def)
      with g u h True guard_checked_Admitted [of env now rt req s False ?levels "(map_of ?levels resource, Some (resource, level))"]
      show ?thesis by (auto simp: rguard_eq_Inr)
    qed
  qed
qed


definition sample_route :: route where
  "sample_route = \<lparr> rt_required = Some (''tasks'', ''member''), rt_any = None, rt_readOnly = False \<rparr>"

definition sample_request :: http_request where
  "sample_request = \<lparr> hr_sub = Some ''u1'', hr_method = Some ''post'', hr_isPlatformHost = False, hr_tenantId = Some ''t1'' \<rparr>"

theorem freeze_blocks_writes_only_witness:
  "\<forall>p. permission_guard sample_access_env 9000000000 sample_route sample_request sample_access \<noteq> Inr (Admitted p)"
proof -
  have "evaluateSubscriptionAccess (latest_subscription ''t1'' sample_access) 9000000000 True
      = Inl (''SUBSCRIPTION_FROZEN'', ''Your subscription is frozen due to an overdue payment.'')"
    by code_simp
  moreover have "\<not> reading_method (hr_method sample_request)" by code_simp
  moreover have "\<not> rt_readOnly sample_route" "\<not> hr_isPlatformHost sample_request" "\<forall>meta\<in>requirements sample_route. fst meta \<noteq> ''billing''"
    "hr_tenantId sample_request = Some ''t1''" "ae_stripe_configured sample_access_env"
    by (simp_all add: sample_route_def sample_request_def requirements_def sample_access_env_def)
  ultimately show ?thesis using freeze_blocks_writes_only by metis
qed


end
