(* ===== verification/Spec2Isabelle.thy ===== *)
theory Spec2Isabelle
  imports Costing Dispatcher ApiKeys Guards
begin

text \<open>
  KANAP is a TypeScript application for the governance of an IT department: a NestJS backend on
  PostgreSQL (src/backend) and a React frontend (src/frontend).  This development models three parts of
  the backend whose correctness is a matter of logic rather than of queries: the arithmetic of the
  budgets, the control plane through which AI agents and clients act on the system, and what decides who
  may use the AI, with which model and through which key.

  \<^bold>\<open>Budgets.\<close>  Amounts are computed exactly, as big integers, never as binary floating point.

    \<^item> Decimals (common/decimal.ts, common/amount.ts): literals, the Decimal class, the limits of an
      input field, cents.  The lemmas show that texts and values determine each other, that a limited
      field accepts exactly the values in its range, and that division rounds to the nearest.
    \<^item> Dates: the UTC calendar of the ECMAScript \<open>Date\<close> object, as far as the budgets use it.
    \<^item> Spread (spend/spread.util.ts): a total spread over the months of a period.  The locale
      \<open>splitter\<close> is the contract of an exact split: the shares add up to the total and have its
      sign, and a month of weight zero gets nothing.  \<open>splitTowardZero\<close> is an interpretation of it,
      and yearly and quarterly spreads rest on the contract alone.
    \<^item> WorkingDays (working-day-profiles/): the validation, merge and generation of the days a price
      per day is multiplied with, and the cache of generated years.  The npm package date-holidays
      is the parameter \<open>holiday_lib\<close>.
    \<^item> Costing (spend/costing.util.ts): lines of quantity and price, their validation, their months,
      and a column as the sum of its lines.  It calls Decimals, Spread and WorkingDays.

  \<^bold>\<open>The AI control plane\<close> (src/backend/src/ai/control-plane).  An agent, a chat or an MCP client asks the
  dispatcher to run a capability.  The dispatcher checks the contract of the capability, the
  emergency pauses and the approval gate; the gate looks for a durable approval of the stored
  action request, which a human gave or a policy may give; the handler runs under a savepoint, its
  output is redacted and kept as evidence, and run, step and tool execution record what happened.

    \<^item> Json: the JSON values the services exchange, the readers they use on them, and the stable text
      that is hashed.
    \<^item> Entities: one record per table (entities/*.entity.ts), the database as a record of tables, and
      the state-and-error operations the services are written in.  An operation takes a database to a
      database and an error or a result, so a throw keeps what was written before it.  The locale
      \<open>repository\<close> is what the services use of TypeORM: find by id, and save, which replaces or
      inserts; each table is an interpretation.
    \<^item> Evidence (evidence/ai-evidence.service.ts): redaction, hashing, evidence rows.
    \<^item> Contracts (capability/capability-contract.ts): the contract of a capability and its validity.
    \<^item> Autonomy (policy/autonomy-levels.ts, agent/ai-agent-autonomy.ts and the ceiling, demotion and
      routine services): how far an action may go without a human.
    \<^item> Policies (policy/ai-approval-policy-resolver.service.ts): whether a stored policy approves a
      pending action.
    \<^item> Pauses (pause/ai-emergency-pause.service.ts): emergency pauses.
    \<^item> ActionRequests (action-request/ai-action-request.service.ts): requests bound to their input by a
      hash, found again under an idempotency key, retried under a derived key.  The search along the
      retried keys is a \<open>while\<close> loop; it is a \<open>partial_function (option)\<close>, where \<open>None\<close> is
      divergence, and it is proved to return for a hash without collisions, because every turn meets an
      action it has not met before.
    \<^item> Approvals (approval/ai-approval.service.ts): decisions of humans and policies, and the check
      before execution.
    \<^item> Dispatcher (dispatcher/ai-capability-dispatcher.service.ts, common/savepoint.util.ts): the
      composition of all of them.  What a handler can do only after which checks is stated by replacing
      the handler: a difference in outcome means the call was admitted.

  \<^bold>\<open>Who may use the AI, with which model and key.\<close>  Permissions and the subscription decide whether a user may,
  the settings and the model registry what the call runs on; an MCP client comes in with an API key, whose
  policy narrows what the user could do.

    \<^item> Permissions (permissions/permissions.service.ts and the duplication in roles/roles.controller.ts): the levels
      of roles on resources, with their aliases and derived levels.  The effective level over several roles
      is the highest one; what is set reads back, and other roles are untouched.
    \<^item> RateLimits (platform/ai-builtin-rate-limiter.ts, control-plane/mcp/ai-mcp-rate-limiter.service.ts,
      platform/ai-builtin-usage.service.ts): sliding windows, their clean-up, and the monthly messages.  The locale
      \<open>limiter\<close> has the decisions of a limiter that keeps its whole history as its contract; both limiters
      are interpretations, so the windows they drop never matter.
    \<^item> Secrets (ai-secret-cipher.service.ts): encryption of stored API keys; Node's crypto is the parameter \<open>cipher\<close>.
    \<^item> Models (platform/platform-ai-config.service.ts, ai-model-resolver.service.ts, the validation in providers/): the
      chain assignment, tenant default, included model, the cache of the platform record, and the confirmation a
      workspace gives to the identity of the included model.  \<open>chain\<close> is the chain as a value; readiness is shown
      to be exactly its errors.
    \<^item> Settings (ai-settings.service.ts): reading and defaulting the settings of a workspace, and readiness.
    \<^item> Access (billing/subscription-freeze.util.ts, ai-policy.service.ts): the guards of every entry point and the
      capabilities shown to the user.  The guards write settings rows on the way, so \<open>only_models\<close> and
      \<open>view_of\<close> say what they leave alone; then each guard is a condition on the state it starts in.
    \<^item> Guards (auth/permission.guard.ts, platform-admin.guard.ts, roles.guard.ts): the guard every route with a required
      level runs through, and the freeze of tenants that do not pay.  It computes the rights of a user a second time;
      the two computations are shown to agree.
    \<^item> Mcp (control-plane/mcp/ai-mcp-access-policy.ts, ai-mcp-exposure.service.ts, and the listing and resolution in
      capability/ai-capability.registry.ts): the policy of a key, and which capabilities an MCP call sees and executes.
    \<^item> ApiKeys (ai-api-keys.service.ts, auth/mcp-api-key-hash.service.ts, auth/mcp-api-key-auth.guard.ts): creation,
      revocation and authentication of keys, and the guard of the MCP endpoint.

  \<^bold>\<open>Parameters.\<close>  Code that is not in the repository is an argument of the definitions: SHA-256, the uuid
  source, regular expressions of policies, the addition of binary doubles and the text patterns of the
  redaction are the fields of \<open>platform\<close>; the registry of capabilities, the handlers and the
  compiled JSON schemas those of \<open>dispatcher\<close>; the current time is an argument.  Theorems quantify
  over all of them (\<open>model_env\<close> has the URL parser and the deployment mode, \<open>access_env\<close> the feature flags,
  \<open>registry_env\<close> the catalogues of tools, provider contracts and the external bridge, \<open>key_env\<close> SHA-256 and the
  random parts of keys); where one needs a fact about a parameter it is a named hypothesis.  Other
  transactions appear where the code allows for them: as the change of the database between the gate and
  the second look at the pauses, and as the rows a failed insert finds.

  \<^bold>\<open>Representation.\<close>  Big integers are \<open>int\<close>; numbers that come from JSON keep the exact value of
  their text (\<open>jsnum\<close>).  Strings are lists of code units below 256.  Instants are milliseconds.  A value
  that may be null or undefined is an option, except where the code tells the two apart.

  \<^bold>\<open>Not modelled.\<close>  The frontend; HTTP controllers other than the parts named above, the other guards and the database
  schema; the services that are mainly queries (knowledge, portfolio, reports, CSV import); the agents' language-model
  calls, their prompts and their work queue; the chat orchestrator; the handlers of the capability registry and the
  providers they call; the streaming calls to model providers; the update of the AI settings page; binary doubles beyond
  their texts; display names of countries (\<open>Intl\<close>); the tenant-scoped SQL loaders of working-day profiles.  Row-level
  security and transaction isolation belong to PostgreSQL.
\<close>

end
